(* ===== verification/Bittern_Prelude.thy ===== *)
theory Bittern_Prelude
  imports Main "HOL-Library.Word" "HOL-Library.Monad_Syntax" "HOL-Library.Multiset"
begin

text \<open>
  Shared vocabulary of the development: the names of the machine integers the
  kernel module uses, the monad of the kernel's assertions, the generic facts on
  lists that the block lists, the deferred queues and the sector index rely on, and
  the interface of a transition system with an inductive invariant.
\<close>

section \<open>Machine integers\<close>

type_synonym u8 = "8 word"
type_synonym u32 = "32 word"
type_synonym u64 = "64 word"
type_synonym sector_t = "64 word"

text \<open>The error numbers the module returns, negated, as in the kernel's \<open>errno.h\<close>.\<close>

definition EIO :: int where "EIO = 5"
definition EAGAIN :: int where "EAGAIN = 11"
definition ENOMEM :: int where "ENOMEM = 12"
definition EBUSY :: int where "EBUSY = 16"
definition EINVAL :: int where "EINVAL = 22"
definition EBADMSG :: int where "EBADMSG = 74"
definition EL2NSYNC :: int where "EL2NSYNC = 45"
definition EBADR :: int where "EBADR = 53"
definition ETIME :: int where "ETIME = 62"
definition EHWPOISON :: int where "EHWPOISON = 133"

lemmas errno_defs =
  EIO_def EAGAIN_def ENOMEM_def EBUSY_def EINVAL_def EL2NSYNC_def EBADR_def ETIME_def EBADMSG_def
  EHWPOISON_def

section \<open>Assertions\<close>

text \<open>
  The module has two kinds of assertions (\<open>bittern_cache_linux.h\<close>): \<open>M_ASSERT\<close> is
  compiled in every build, \<open>ASSERT\<close> only when the build defines \<open>ENABLE_ASSERT\<close>.  A
  failing assertion stops the kernel with \<open>BUG()\<close>, which is the value \<^term>\<open>None\<close> of
  the option monad.  The flag of the build is an argument, so that a lemma that an
  operation returns \<^term>\<open>Some\<close> for every value of the flag covers both builds.
\<close>

definition M_ASSERT :: "bool \<Rightarrow> unit option" where
  "M_ASSERT c = (if c then Some () else None)"

definition ASSERT :: "bool \<Rightarrow> bool \<Rightarrow> unit option" where
  "ASSERT enable_assert c = (if enable_assert \<longrightarrow> c then Some () else None)"

lemma M_ASSERT_bind [simp]: "(M_ASSERT c \<bind> k) = (if c then k () else None)"
  by (simp add: M_ASSERT_def)

lemma ASSERT_bind [simp]: "(ASSERT e c \<bind> k) = (if e \<longrightarrow> c then k () else None)"
  by (simp add: ASSERT_def)

lemma M_ASSERT_True [simp]: "M_ASSERT True = Some ()"
  by (simp add: M_ASSERT_def)

lemma ASSERT_True [simp]: "ASSERT e True = Some ()"
  by (simp add: ASSERT_def)

section \<open>Lists\<close>

lemma distinct_removeAll_length:
  "distinct xs \<Longrightarrow> x \<in> set xs \<Longrightarrow> Suc (length (removeAll x xs)) = length xs"
  by (induction xs) auto

lemma removeAll_notin [simp]: "x \<notin> set xs \<Longrightarrow> removeAll x xs = xs"
  by (induction xs) auto

lemma distinct_remove1_set:
  "distinct xs \<Longrightarrow> set (remove1 x xs) = set xs - {x}"
  by (induction xs) auto

lemma find_SomeD: "List.find P xs = Some x \<Longrightarrow> P x \<and> x \<in> set xs"
  by (induction xs) (auto split: if_splits)

lemma find_NoneD: "List.find P xs = None \<Longrightarrow> x \<in> set xs \<Longrightarrow> \<not> P x"
  by (induction xs) (auto split: if_splits)

section \<open>Transition systems\<close>

inductive reachable :: "('s \<Rightarrow> bool) \<Rightarrow> ('s \<Rightarrow> 's \<Rightarrow> bool) \<Rightarrow> 's \<Rightarrow> bool"
  for init :: "'s \<Rightarrow> bool" and step :: "'s \<Rightarrow> 's \<Rightarrow> bool" where
  reachable_init: "init s \<Longrightarrow> reachable init step s"
| reachable_step: "reachable init step s \<Longrightarrow> step s t \<Longrightarrow> reachable init step t"

text \<open>The contract of a state machine and a predicate that all its steps keep.\<close>

locale invariant_system =
  fixes init :: "'s \<Rightarrow> bool"
    and step :: "'s \<Rightarrow> 's \<Rightarrow> bool"
    and invar :: "'s \<Rightarrow> bool"
  assumes invar_init: "init s \<Longrightarrow> invar s"
    and invar_step: "invar s \<Longrightarrow> step s t \<Longrightarrow> invar t"
begin

lemma reachable_invar: "reachable init step s \<Longrightarrow> invar s"
  by (induction rule: reachable.induct) (auto intro: invar_init invar_step)

lemma rtranclp_invar: "step\<^sup>*\<^sup>* s t \<Longrightarrow> invar s \<Longrightarrow> invar t"
  by (induction rule: rtranclp_induct) (auto intro: invar_step)

end

end
