(* ===== verification/Cache_States.thy ===== *)
theory Cache_States
  imports Bittern_Prelude
begin

text \<open>
  The states and the transition paths of a cache block
  (\<open>bittern_cache_states.h\<close>), their printed names, and the table of valid transitions
  with the function that looks a transition up in it
  (\<open>bittern_cache_main_subr.c\<close>).  The lemmas show that the table is a set of
  disjoint, finite, deterministic paths between the stable states, and that no path
  discards dirty data without having copied it to the cached device.
\<close>

section \<open>Transition paths and states\<close>

datatype cache_transition =
    TS_NONE
  | TS_READ_MISS_WTWB_CLEAN
  | TS_READ_HIT_WTWB_CLEAN
  | TS_READ_HIT_WB_DIRTY
  | TS_WRITE_MISS_WT
  | TS_WRITE_MISS_WB
  | TS_WRITE_HIT_WT
  | TS_P_WRITE_HIT_WT
  | TS_WRITE_HIT_WB_C2_DIRTY
  | TS_P_WRITE_HIT_WB_C2_DIRTY
  | TS_P_WRITE_HIT_WB_DIRTY
  | TS_WRITE_HIT_WB_DIRTY
  | TS_P_WRITE_MISS_WT
  | TS_P_WRITE_MISS_WB
  | TS_WRITEBACK_WB
  | TS_WRITEBACK_INV_WB
  | TS_CLEAN_INVALIDATION_WTWB
  | TS_DIRTY_INVALIDATION_WB
  | TS_VERIFY_CLEAN_WTWB

datatype cache_state =
    S_INVALID
  | S_CLEAN
  | S_DIRTY
  | S_CLEAN_NO_DATA
  | S_CLEAN_READ_HIT_CPF_CACHE_START
  | S_CLEAN_READ_HIT_CPF_CACHE_END
  | S_CLEAN_READ_MISS_CPF_DEVICE_START
  | S_CLEAN_READ_MISS_CPF_DEVICE_END
  | S_CLEAN_READ_MISS_CPT_CACHE_END
  | S_CLEAN_WRITE_MISS_CPT_DEVICE_START
  | S_CLEAN_WRITE_MISS_CPT_DEVICE_END
  | S_CLEAN_WRITE_MISS_CPT_CACHE_END
  | S_CLEAN_WRITE_HIT_CPT_DEVICE_START
  | S_CLEAN_WRITE_HIT_CPT_DEVICE_END
  | S_CLEAN_WRITE_HIT_CPT_CACHE_END
  | S_CLEAN_P_WRITE_HIT_CPF_O_CACHE_START
  | S_CLEAN_P_WRITE_HIT_CPT_DEVICE_START
  | S_CLEAN_P_WRITE_HIT_CPT_DEVICE_END
  | S_CLEAN_P_WRITE_HIT_CPT_CACHE_END
  | S_CLEAN_P_WRITE_MISS_CPF_DEVICE_START
  | S_CLEAN_P_WRITE_MISS_CPF_DEVICE_END
  | S_CLEAN_P_WRITE_MISS_CPT_CACHE_END
  | S_CLEAN_P_WRITE_MISS_CPT_DEVICE_END
  | S_CLEAN_INVALIDATE_START
  | S_CLEAN_INVALIDATE_END
  | S_CLEAN_VERIFY
  | S_DIRTY_NO_DATA
  | S_DIRTY_READ_HIT_CPF_CACHE_START
  | S_DIRTY_READ_HIT_CPF_CACHE_END
  | S_DIRTY_WRITE_MISS_CPT_CACHE_START
  | S_DIRTY_WRITE_MISS_CPT_CACHE_END
  | S_C2_DIRTY_WRITE_HIT_CPT_CACHE_START
  | S_C2_DIRTY_WRITE_HIT_CPT_CACHE_END
  | S_C2_DIRTY_P_WRITE_HIT_CPF_O_CACHE_START
  | S_C2_DIRTY_P_WRITE_HIT_CPT_CACHE_START
  | S_C2_DIRTY_P_WRITE_HIT_CPT_CACHE_END
  | S_DIRTY_WRITE_HIT_CPT_CACHE_START
  | S_DIRTY_WRITE_HIT_CPT_CACHE_END
  | S_DIRTY_P_WRITE_HIT_CPF_O_CACHE_START
  | S_DIRTY_P_WRITE_HIT_CPT_CACHE_START
  | S_DIRTY_P_WRITE_HIT_CPT_CACHE_END
  | S_DIRTY_P_WRITE_MISS_CPF_DEVICE_START
  | S_DIRTY_P_WRITE_MISS_CPF_DEVICE_END
  | S_DIRTY_P_WRITE_MISS_CPT_CACHE_END
  | S_DIRTY_WRITEBACK_CPF_CACHE_START
  | S_DIRTY_WRITEBACK_CPF_CACHE_END
  | S_DIRTY_WRITEBACK_CPT_DEVICE_END
  | S_DIRTY_WRITEBACK_UPD_METADATA_END
  | S_DIRTY_WRITEBACK_INV_CPF_CACHE_START
  | S_DIRTY_WRITEBACK_INV_CPF_CACHE_END
  | S_DIRTY_WRITEBACK_INV_CPT_DEVICE_END
  | S_DIRTY_WRITEBACK_INV_UPD_METADATA_END
  | S_DIRTY_INVALIDATE_START
  | S_DIRTY_INVALIDATE_END

text \<open>
  The enumerators in the order of the C declaration; the position is the value of the
  enumerator, which for \<^term>\<open>S_INVALID\<close>, \<^term>\<open>S_CLEAN\<close> and \<^term>\<open>S_DIRTY\<close> is also the
  value stored in persistent memory.
\<close>

definition cache_transitions :: "cache_transition list" where
  "cache_transitions =
    [TS_NONE, TS_READ_MISS_WTWB_CLEAN, TS_READ_HIT_WTWB_CLEAN, TS_READ_HIT_WB_DIRTY,
     TS_WRITE_MISS_WT, TS_WRITE_MISS_WB, TS_WRITE_HIT_WT, TS_P_WRITE_HIT_WT,
     TS_WRITE_HIT_WB_C2_DIRTY, TS_P_WRITE_HIT_WB_C2_DIRTY, TS_P_WRITE_HIT_WB_DIRTY,
     TS_WRITE_HIT_WB_DIRTY, TS_P_WRITE_MISS_WT, TS_P_WRITE_MISS_WB, TS_WRITEBACK_WB,
     TS_WRITEBACK_INV_WB, TS_CLEAN_INVALIDATION_WTWB, TS_DIRTY_INVALIDATION_WB,
     TS_VERIFY_CLEAN_WTWB]"

primrec cache_transition_num :: "cache_transition \<Rightarrow> nat" where
  "cache_transition_num TS_NONE = 0"
| "cache_transition_num TS_READ_MISS_WTWB_CLEAN = 1"
| "cache_transition_num TS_READ_HIT_WTWB_CLEAN = 2"
| "cache_transition_num TS_READ_HIT_WB_DIRTY = 3"
| "cache_transition_num TS_WRITE_MISS_WT = 4"
| "cache_transition_num TS_WRITE_MISS_WB = 5"
| "cache_transition_num TS_WRITE_HIT_WT = 6"
| "cache_transition_num TS_P_WRITE_HIT_WT = 7"
| "cache_transition_num TS_WRITE_HIT_WB_C2_DIRTY = 8"
| "cache_transition_num TS_P_WRITE_HIT_WB_C2_DIRTY = 9"
| "cache_transition_num TS_P_WRITE_HIT_WB_DIRTY = 10"
| "cache_transition_num TS_WRITE_HIT_WB_DIRTY = 11"
| "cache_transition_num TS_P_WRITE_MISS_WT = 12"
| "cache_transition_num TS_P_WRITE_MISS_WB = 13"
| "cache_transition_num TS_WRITEBACK_WB = 14"
| "cache_transition_num TS_WRITEBACK_INV_WB = 15"
| "cache_transition_num TS_CLEAN_INVALIDATION_WTWB = 16"
| "cache_transition_num TS_DIRTY_INVALIDATION_WB = 17"
| "cache_transition_num TS_VERIFY_CLEAN_WTWB = 18"

definition cache_states :: "cache_state list" where
  "cache_states =
    [S_INVALID, S_CLEAN, S_DIRTY, S_CLEAN_NO_DATA, S_CLEAN_READ_HIT_CPF_CACHE_START,
     S_CLEAN_READ_HIT_CPF_CACHE_END, S_CLEAN_READ_MISS_CPF_DEVICE_START,
     S_CLEAN_READ_MISS_CPF_DEVICE_END, S_CLEAN_READ_MISS_CPT_CACHE_END,
     S_CLEAN_WRITE_MISS_CPT_DEVICE_START, S_CLEAN_WRITE_MISS_CPT_DEVICE_END,
     S_CLEAN_WRITE_MISS_CPT_CACHE_END, S_CLEAN_WRITE_HIT_CPT_DEVICE_START,
     S_CLEAN_WRITE_HIT_CPT_DEVICE_END, S_CLEAN_WRITE_HIT_CPT_CACHE_END,
     S_CLEAN_P_WRITE_HIT_CPF_O_CACHE_START, S_CLEAN_P_WRITE_HIT_CPT_DEVICE_START,
     S_CLEAN_P_WRITE_HIT_CPT_DEVICE_END, S_CLEAN_P_WRITE_HIT_CPT_CACHE_END,
     S_CLEAN_P_WRITE_MISS_CPF_DEVICE_START, S_CLEAN_P_WRITE_MISS_CPF_DEVICE_END,
     S_CLEAN_P_WRITE_MISS_CPT_CACHE_END, S_CLEAN_P_WRITE_MISS_CPT_DEVICE_END,
     S_CLEAN_INVALIDATE_START, S_CLEAN_INVALIDATE_END, S_CLEAN_VERIFY, S_DIRTY_NO_DATA,
     S_DIRTY_READ_HIT_CPF_CACHE_START, S_DIRTY_READ_HIT_CPF_CACHE_END,
     S_DIRTY_WRITE_MISS_CPT_CACHE_START, S_DIRTY_WRITE_MISS_CPT_CACHE_END,
     S_C2_DIRTY_WRITE_HIT_CPT_CACHE_START, S_C2_DIRTY_WRITE_HIT_CPT_CACHE_END,
     S_C2_DIRTY_P_WRITE_HIT_CPF_O_CACHE_START, S_C2_DIRTY_P_WRITE_HIT_CPT_CACHE_START,
     S_C2_DIRTY_P_WRITE_HIT_CPT_CACHE_END, S_DIRTY_WRITE_HIT_CPT_CACHE_START,
     S_DIRTY_WRITE_HIT_CPT_CACHE_END, S_DIRTY_P_WRITE_HIT_CPF_O_CACHE_START,
     S_DIRTY_P_WRITE_HIT_CPT_CACHE_START, S_DIRTY_P_WRITE_HIT_CPT_CACHE_END,
     S_DIRTY_P_WRITE_MISS_CPF_DEVICE_START, S_DIRTY_P_WRITE_MISS_CPF_DEVICE_END,
     S_DIRTY_P_WRITE_MISS_CPT_CACHE_END, S_DIRTY_WRITEBACK_CPF_CACHE_START,
     S_DIRTY_WRITEBACK_CPF_CACHE_END, S_DIRTY_WRITEBACK_CPT_DEVICE_END,
     S_DIRTY_WRITEBACK_UPD_METADATA_END, S_DIRTY_WRITEBACK_INV_CPF_CACHE_START,
     S_DIRTY_WRITEBACK_INV_CPF_CACHE_END, S_DIRTY_WRITEBACK_INV_CPT_DEVICE_END,
     S_DIRTY_WRITEBACK_INV_UPD_METADATA_END, S_DIRTY_INVALIDATE_START, S_DIRTY_INVALIDATE_END]"

primrec cache_state_num :: "cache_state \<Rightarrow> nat" where
  "cache_state_num S_INVALID = 0"
| "cache_state_num S_CLEAN = 1"
| "cache_state_num S_DIRTY = 2"
| "cache_state_num S_CLEAN_NO_DATA = 3"
| "cache_state_num S_CLEAN_READ_HIT_CPF_CACHE_START = 4"
| "cache_state_num S_CLEAN_READ_HIT_CPF_CACHE_END = 5"
| "cache_state_num S_CLEAN_READ_MISS_CPF_DEVICE_START = 6"
| "cache_state_num S_CLEAN_READ_MISS_CPF_DEVICE_END = 7"
| "cache_state_num S_CLEAN_READ_MISS_CPT_CACHE_END = 8"
| "cache_state_num S_CLEAN_WRITE_MISS_CPT_DEVICE_START = 9"
| "cache_state_num S_CLEAN_WRITE_MISS_CPT_DEVICE_END = 10"
| "cache_state_num S_CLEAN_WRITE_MISS_CPT_CACHE_END = 11"
| "cache_state_num S_CLEAN_WRITE_HIT_CPT_DEVICE_START = 12"
| "cache_state_num S_CLEAN_WRITE_HIT_CPT_DEVICE_END = 13"
| "cache_state_num S_CLEAN_WRITE_HIT_CPT_CACHE_END = 14"
| "cache_state_num S_CLEAN_P_WRITE_HIT_CPF_O_CACHE_START = 15"
| "cache_state_num S_CLEAN_P_WRITE_HIT_CPT_DEVICE_START = 16"
| "cache_state_num S_CLEAN_P_WRITE_HIT_CPT_DEVICE_END = 17"
| "cache_state_num S_CLEAN_P_WRITE_HIT_CPT_CACHE_END = 18"
| "cache_state_num S_CLEAN_P_WRITE_MISS_CPF_DEVICE_START = 19"
| "cache_state_num S_CLEAN_P_WRITE_MISS_CPF_DEVICE_END = 20"
| "cache_state_num S_CLEAN_P_WRITE_MISS_CPT_CACHE_END = 21"
| "cache_state_num S_CLEAN_P_WRITE_MISS_CPT_DEVICE_END = 22"
| "cache_state_num S_CLEAN_INVALIDATE_START = 23"
| "cache_state_num S_CLEAN_INVALIDATE_END = 24"
| "cache_state_num S_CLEAN_VERIFY = 25"
| "cache_state_num S_DIRTY_NO_DATA = 26"
| "cache_state_num S_DIRTY_READ_HIT_CPF_CACHE_START = 27"
| "cache_state_num S_DIRTY_READ_HIT_CPF_CACHE_END = 28"
| "cache_state_num S_DIRTY_WRITE_MISS_CPT_CACHE_START = 29"
| "cache_state_num S_DIRTY_WRITE_MISS_CPT_CACHE_END = 30"
| "cache_state_num S_C2_DIRTY_WRITE_HIT_CPT_CACHE_START = 31"
| "cache_state_num S_C2_DIRTY_WRITE_HIT_CPT_CACHE_END = 32"
| "cache_state_num S_C2_DIRTY_P_WRITE_HIT_CPF_O_CACHE_START = 33"
| "cache_state_num S_C2_DIRTY_P_WRITE_HIT_CPT_CACHE_START = 34"
| "cache_state_num S_C2_DIRTY_P_WRITE_HIT_CPT_CACHE_END = 35"
| "cache_state_num S_DIRTY_WRITE_HIT_CPT_CACHE_START = 36"
| "cache_state_num S_DIRTY_WRITE_HIT_CPT_CACHE_END = 37"
| "cache_state_num S_DIRTY_P_WRITE_HIT_CPF_O_CACHE_START = 38"
| "cache_state_num S_DIRTY_P_WRITE_HIT_CPT_CACHE_START = 39"
| "cache_state_num S_DIRTY_P_WRITE_HIT_CPT_CACHE_END = 40"
| "cache_state_num S_DIRTY_P_WRITE_MISS_CPF_DEVICE_START = 41"
| "cache_state_num S_DIRTY_P_WRITE_MISS_CPF_DEVICE_END = 42"
| "cache_state_num S_DIRTY_P_WRITE_MISS_CPT_CACHE_END = 43"
| "cache_state_num S_DIRTY_WRITEBACK_CPF_CACHE_START = 44"
| "cache_state_num S_DIRTY_WRITEBACK_CPF_CACHE_END = 45"
| "cache_state_num S_DIRTY_WRITEBACK_CPT_DEVICE_END = 46"
| "cache_state_num S_DIRTY_WRITEBACK_UPD_METADATA_END = 47"
| "cache_state_num S_DIRTY_WRITEBACK_INV_CPF_CACHE_START = 48"
| "cache_state_num S_DIRTY_WRITEBACK_INV_CPF_CACHE_END = 49"
| "cache_state_num S_DIRTY_WRITEBACK_INV_CPT_DEVICE_END = 50"
| "cache_state_num S_DIRTY_WRITEBACK_INV_UPD_METADATA_END = 51"
| "cache_state_num S_DIRTY_INVALIDATE_START = 52"
| "cache_state_num S_DIRTY_INVALIDATE_END = 53"

section \<open>Printed names\<close>

primrec cache_transition_to_str :: "cache_transition \<Rightarrow> string" where
  "cache_transition_to_str TS_NONE = ''TS_NONE''"
| "cache_transition_to_str TS_READ_MISS_WTWB_CLEAN = ''TS_READ_MISS_WTWB_CLEAN''"
| "cache_transition_to_str TS_READ_HIT_WTWB_CLEAN = ''TS_READ_HIT_WTWB_CLEAN''"
| "cache_transition_to_str TS_READ_HIT_WB_DIRTY = ''TS_READ_HIT_WB_DIRTY''"
| "cache_transition_to_str TS_WRITE_MISS_WT = ''TS_WRITE_MISS_WT''"
| "cache_transition_to_str TS_WRITE_MISS_WB = ''TS_WRITE_MISS_WB''"
| "cache_transition_to_str TS_WRITE_HIT_WT = ''TS_WRITE_HIT_WT''"
| "cache_transition_to_str TS_P_WRITE_HIT_WT = ''TS_P_WRITE_HIT_WT''"
| "cache_transition_to_str TS_WRITE_HIT_WB_C2_DIRTY = ''TS_WRITE_HIT_WB_C2_DIRTY''"
| "cache_transition_to_str TS_P_WRITE_HIT_WB_C2_DIRTY = ''TS_P_WRITE_HIT_WB_C2_DIRTY''"
| "cache_transition_to_str TS_P_WRITE_HIT_WB_DIRTY = ''TS_P_WRITE_HIT_WB_DIRTY''"
| "cache_transition_to_str TS_WRITE_HIT_WB_DIRTY = ''TS_WRITE_HIT_WB_DIRTY''"
| "cache_transition_to_str TS_P_WRITE_MISS_WT = ''TS_P_WRITE_MISS_WT''"
| "cache_transition_to_str TS_P_WRITE_MISS_WB = ''TS_P_WRITE_MISS_WB''"
| "cache_transition_to_str TS_WRITEBACK_WB = ''TS_WRITEBACK_WB''"
| "cache_transition_to_str TS_WRITEBACK_INV_WB = ''TS_WRITEBACK_INV_WB''"
| "cache_transition_to_str TS_CLEAN_INVALIDATION_WTWB = ''TS_CLEAN_INVALIDATION_WTWB''"
| "cache_transition_to_str TS_DIRTY_INVALIDATION_WB = ''TS_DIRTY_INVALIDATION_WB''"
| "cache_transition_to_str TS_VERIFY_CLEAN_WTWB = ''TS_VERIFY_CLEAN_WTWB''"

primrec cache_state_to_str :: "cache_state \<Rightarrow> string" where
  "cache_state_to_str S_INVALID = ''S_INVALID''"
| "cache_state_to_str S_CLEAN = ''S_CLEAN''"
| "cache_state_to_str S_DIRTY = ''S_DIRTY''"
| "cache_state_to_str S_CLEAN_NO_DATA = ''S_CLEAN_NO_DATA''"
| "cache_state_to_str S_CLEAN_READ_HIT_CPF_CACHE_START = ''S_CLEAN_READ_HIT_CPF_CACHE_START''"
| "cache_state_to_str S_CLEAN_READ_HIT_CPF_CACHE_END = ''S_CLEAN_READ_HIT_CPF_CACHE_END''"
| "cache_state_to_str S_CLEAN_READ_MISS_CPF_DEVICE_START = ''S_CLEAN_READ_MISS_CPF_DEVICE_START''"
| "cache_state_to_str S_CLEAN_READ_MISS_CPF_DEVICE_END = ''S_CLEAN_READ_MISS_CPF_DEVICE_END''"
| "cache_state_to_str S_CLEAN_READ_MISS_CPT_CACHE_END = ''S_CLEAN_READ_MISS_CPT_CACHE_END''"
| "cache_state_to_str S_CLEAN_WRITE_MISS_CPT_DEVICE_START = ''S_CLEAN_WRITE_MISS_CPT_DEVICE_START''"
| "cache_state_to_str S_CLEAN_WRITE_MISS_CPT_DEVICE_END = ''S_CLEAN_WRITE_MISS_CPT_DEVICE_END''"
| "cache_state_to_str S_CLEAN_WRITE_MISS_CPT_CACHE_END = ''S_CLEAN_WRITE_MISS_CPT_CACHE_END''"
| "cache_state_to_str S_CLEAN_WRITE_HIT_CPT_DEVICE_START = ''S_CLEAN_WRITE_HIT_CPT_DEVICE_START''"
| "cache_state_to_str S_CLEAN_WRITE_HIT_CPT_DEVICE_END = ''S_CLEAN_WRITE_HIT_CPT_DEVICE_END''"
| "cache_state_to_str S_CLEAN_WRITE_HIT_CPT_CACHE_END = ''S_CLEAN_WRITE_HIT_CPT_CACHE_END''"
| "cache_state_to_str S_CLEAN_P_WRITE_HIT_CPF_O_CACHE_START = ''S_CLEAN_P_WRITE_HIT_CPF_O_CACHE_START''"
| "cache_state_to_str S_CLEAN_P_WRITE_HIT_CPT_DEVICE_START = ''S_CLEAN_P_WRITE_HIT_CPT_DEVICE_START''"
| "cache_state_to_str S_CLEAN_P_WRITE_HIT_CPT_DEVICE_END = ''S_CLEAN_P_WRITE_HIT_CPT_DEVICE_END''"
| "cache_state_to_str S_CLEAN_P_WRITE_HIT_CPT_CACHE_END = ''S_CLEAN_P_WRITE_HIT_CPT_CACHE_END''"
| "cache_state_to_str S_CLEAN_P_WRITE_MISS_CPF_DEVICE_START = ''S_CLEAN_P_WRITE_MISS_CPF_DEVICE_START''"
| "cache_state_to_str S_CLEAN_P_WRITE_MISS_CPF_DEVICE_END = ''S_CLEAN_P_WRITE_MISS_CPF_DEVICE_END''"
| "cache_state_to_str S_CLEAN_P_WRITE_MISS_CPT_CACHE_END = ''S_CLEAN_P_WRITE_MISS_CPT_CACHE_END''"
| "cache_state_to_str S_CLEAN_P_WRITE_MISS_CPT_DEVICE_END = ''S_CLEAN_P_WRITE_MISS_CPT_DEVICE_END''"
| "cache_state_to_str S_CLEAN_INVALIDATE_START = ''S_CLEAN_INVALIDATE_START''"
| "cache_state_to_str S_CLEAN_INVALIDATE_END = ''S_CLEAN_INVALIDATE_END''"
| "cache_state_to_str S_CLEAN_VERIFY = ''S_CLEAN_VERIFY''"
| "cache_state_to_str S_DIRTY_NO_DATA = ''S_DIRTY_NO_DATA''"
| "cache_state_to_str S_DIRTY_READ_HIT_CPF_CACHE_START = ''S_DIRTY_READ_HIT_CPF_CACHE_START''"
| "cache_state_to_str S_DIRTY_READ_HIT_CPF_CACHE_END = ''S_DIRTY_READ_HIT_CPF_CACHE_END''"
| "cache_state_to_str S_DIRTY_WRITE_MISS_CPT_CACHE_START = ''S_DIRTY_WRITE_MISS_CPT_CACHE_START''"
| "cache_state_to_str S_DIRTY_WRITE_MISS_CPT_CACHE_END = ''S_DIRTY_WRITE_MISS_CPT_CACHE_END''"
| "cache_state_to_str S_C2_DIRTY_WRITE_HIT_CPT_CACHE_START = ''S_C2_DIRTY_WRITE_HIT_CPT_CACHE_START''"
| "cache_state_to_str S_C2_DIRTY_WRITE_HIT_CPT_CACHE_END = ''S_C2_DIRTY_WRITE_HIT_CPT_CACHE_END''"
| "cache_state_to_str S_C2_DIRTY_P_WRITE_HIT_CPF_O_CACHE_START = ''S_C2_DIRTY_P_WRITE_HIT_CPF_O_CACHE_START''"
| "cache_state_to_str S_C2_DIRTY_P_WRITE_HIT_CPT_CACHE_START = ''S_C2_DIRTY_P_WRITE_HIT_CPT_CACHE_START''"
| "cache_state_to_str S_C2_DIRTY_P_WRITE_HIT_CPT_CACHE_END = ''S_C2_DIRTY_P_WRITE_HIT_CPT_CACHE_END''"
| "cache_state_to_str S_DIRTY_WRITE_HIT_CPT_CACHE_START = ''S_DIRTY_WRITE_HIT_CPT_CACHE_START''"
| "cache_state_to_str S_DIRTY_WRITE_HIT_CPT_CACHE_END = ''S_DIRTY_WRITE_HIT_CPT_CACHE_END''"
| "cache_state_to_str S_DIRTY_P_WRITE_HIT_CPF_O_CACHE_START = ''S_DIRTY_P_WRITE_HIT_CPF_O_CACHE_START''"
| "cache_state_to_str S_DIRTY_P_WRITE_HIT_CPT_CACHE_START = ''S_DIRTY_P_WRITE_HIT_CPT_CACHE_START''"
| "cache_state_to_str S_DIRTY_P_WRITE_HIT_CPT_CACHE_END = ''S_DIRTY_P_WRITE_HIT_CPT_CACHE_END''"
| "cache_state_to_str S_DIRTY_P_WRITE_MISS_CPF_DEVICE_START = ''S_DIRTY_P_WRITE_MISS_CPF_DEVICE_START''"
| "cache_state_to_str S_DIRTY_P_WRITE_MISS_CPF_DEVICE_END = ''S_DIRTY_P_WRITE_MISS_CPF_DEVICE_END''"
| "cache_state_to_str S_DIRTY_P_WRITE_MISS_CPT_CACHE_END = ''S_DIRTY_P_WRITE_MISS_CPT_CACHE_END''"
| "cache_state_to_str S_DIRTY_WRITEBACK_CPF_CACHE_START = ''S_DIRTY_WRITEBACK_CPF_CACHE_START''"
| "cache_state_to_str S_DIRTY_WRITEBACK_CPF_CACHE_END = ''S_DIRTY_WRITEBACK_CPF_CACHE_END''"
| "cache_state_to_str S_DIRTY_WRITEBACK_CPT_DEVICE_END = ''S_DIRTY_WRITEBACK_CPT_DEVICE_END''"
| "cache_state_to_str S_DIRTY_WRITEBACK_UPD_METADATA_END = ''S_DIRTY_WRITEBACK_UPD_METADATA_END''"
| "cache_state_to_str S_DIRTY_WRITEBACK_INV_CPF_CACHE_START = ''S_DIRTY_WRITEBACK_INV_CPF_CACHE_START''"
| "cache_state_to_str S_DIRTY_WRITEBACK_INV_CPF_CACHE_END = ''S_DIRTY_WRITEBACK_INV_CPF_CACHE_END''"
| "cache_state_to_str S_DIRTY_WRITEBACK_INV_CPT_DEVICE_END = ''S_DIRTY_WRITEBACK_INV_CPT_DEVICE_END''"
| "cache_state_to_str S_DIRTY_WRITEBACK_INV_UPD_METADATA_END = ''S_DIRTY_WRITEBACK_INV_UPD_METADATA_END''"
| "cache_state_to_str S_DIRTY_INVALIDATE_START = ''S_DIRTY_INVALIDATE_START''"
| "cache_state_to_str S_DIRTY_INVALIDATE_END = ''S_DIRTY_INVALIDATE_END''"

section \<open>The table of valid transitions\<close>

record cache_state_transitions =
  path_from :: cache_transition
  state_from :: cache_state
  path_to :: cache_transition
  state_to :: cache_state

text \<open>
  The rows of the table \<open>cache_valid_state_transitions\<close>, path by path in the order of the
  source: reads; write misses and write-through write hits; write-back write hits;
  partial write misses and verification; writeback and invalidation.
\<close>

definition transition_row ::
  "cache_transition \<Rightarrow> cache_state \<Rightarrow> cache_transition \<Rightarrow> cache_state \<Rightarrow> cache_state_transitions" where
  "transition_row p s p' s' =
     \<lparr> path_from = p, state_from = s, path_to = p', state_to = s' \<rparr>"

definition read_transitions :: "cache_state_transitions list" where
  "read_transitions =
    [transition_row TS_NONE S_CLEAN_NO_DATA TS_READ_MISS_WTWB_CLEAN S_CLEAN_READ_MISS_CPF_DEVICE_START,
     transition_row TS_READ_MISS_WTWB_CLEAN S_CLEAN_READ_MISS_CPF_DEVICE_START TS_READ_MISS_WTWB_CLEAN S_CLEAN_READ_MISS_CPF_DEVICE_END,
     transition_row TS_READ_MISS_WTWB_CLEAN S_CLEAN_READ_MISS_CPF_DEVICE_END TS_READ_MISS_WTWB_CLEAN S_CLEAN_READ_MISS_CPT_CACHE_END,
     transition_row TS_READ_MISS_WTWB_CLEAN S_CLEAN_READ_MISS_CPT_CACHE_END TS_NONE S_CLEAN,
     transition_row TS_NONE S_CLEAN TS_READ_HIT_WTWB_CLEAN S_CLEAN_READ_HIT_CPF_CACHE_START,
     transition_row TS_READ_HIT_WTWB_CLEAN S_CLEAN_READ_HIT_CPF_CACHE_START TS_READ_HIT_WTWB_CLEAN S_CLEAN_READ_HIT_CPF_CACHE_END,
     transition_row TS_READ_HIT_WTWB_CLEAN S_CLEAN_READ_HIT_CPF_CACHE_END TS_NONE S_CLEAN,
     transition_row TS_NONE S_DIRTY TS_READ_HIT_WB_DIRTY S_DIRTY_READ_HIT_CPF_CACHE_START,
     transition_row TS_READ_HIT_WB_DIRTY S_DIRTY_READ_HIT_CPF_CACHE_START TS_READ_HIT_WB_DIRTY S_DIRTY_READ_HIT_CPF_CACHE_END,
     transition_row TS_READ_HIT_WB_DIRTY S_DIRTY_READ_HIT_CPF_CACHE_END TS_NONE S_DIRTY]"

definition write_miss_and_wt_hit_transitions :: "cache_state_transitions list" where
  "write_miss_and_wt_hit_transitions =
    [transition_row TS_NONE S_CLEAN_NO_DATA TS_WRITE_MISS_WT S_CLEAN_WRITE_MISS_CPT_DEVICE_START,
     transition_row TS_WRITE_MISS_WT S_CLEAN_WRITE_MISS_CPT_DEVICE_START TS_WRITE_MISS_WT S_CLEAN_WRITE_MISS_CPT_DEVICE_END,
     transition_row TS_WRITE_MISS_WT S_CLEAN_WRITE_MISS_CPT_DEVICE_END TS_WRITE_MISS_WT S_CLEAN_WRITE_MISS_CPT_CACHE_END,
     transition_row TS_WRITE_MISS_WT S_CLEAN_WRITE_MISS_CPT_CACHE_END TS_NONE S_CLEAN,
     transition_row TS_NONE S_DIRTY_NO_DATA TS_WRITE_MISS_WB S_DIRTY_WRITE_MISS_CPT_CACHE_START,
     transition_row TS_WRITE_MISS_WB S_DIRTY_WRITE_MISS_CPT_CACHE_START TS_WRITE_MISS_WB S_DIRTY_WRITE_MISS_CPT_CACHE_END,
     transition_row TS_WRITE_MISS_WB S_DIRTY_WRITE_MISS_CPT_CACHE_END TS_NONE S_DIRTY,
     transition_row TS_NONE S_CLEAN_NO_DATA TS_WRITE_HIT_WT S_CLEAN_WRITE_HIT_CPT_DEVICE_START,
     transition_row TS_WRITE_HIT_WT S_CLEAN_WRITE_HIT_CPT_DEVICE_START TS_WRITE_HIT_WT S_CLEAN_WRITE_HIT_CPT_DEVICE_END,
     transition_row TS_WRITE_HIT_WT S_CLEAN_WRITE_HIT_CPT_DEVICE_END TS_WRITE_HIT_WT S_CLEAN_WRITE_HIT_CPT_CACHE_END,
     transition_row TS_WRITE_HIT_WT S_CLEAN_WRITE_HIT_CPT_CACHE_END TS_NONE S_CLEAN,
     transition_row TS_NONE S_CLEAN_NO_DATA TS_P_WRITE_HIT_WT S_CLEAN_P_WRITE_HIT_CPF_O_CACHE_START,
     transition_row TS_P_WRITE_HIT_WT S_CLEAN_P_WRITE_HIT_CPF_O_CACHE_START TS_P_WRITE_HIT_WT S_CLEAN_P_WRITE_HIT_CPT_DEVICE_START,
     transition_row TS_P_WRITE_HIT_WT S_CLEAN_P_WRITE_HIT_CPT_DEVICE_START TS_P_WRITE_HIT_WT S_CLEAN_P_WRITE_HIT_CPT_DEVICE_END,
     transition_row TS_P_WRITE_HIT_WT S_CLEAN_P_WRITE_HIT_CPT_DEVICE_END TS_P_WRITE_HIT_WT S_CLEAN_P_WRITE_HIT_CPT_CACHE_END,
     transition_row TS_P_WRITE_HIT_WT S_CLEAN_P_WRITE_HIT_CPT_CACHE_END TS_NONE S_CLEAN]"

definition wb_write_hit_transitions :: "cache_state_transitions list" where
  "wb_write_hit_transitions =
    [transition_row TS_NONE S_DIRTY_NO_DATA TS_P_WRITE_HIT_WB_C2_DIRTY S_C2_DIRTY_P_WRITE_HIT_CPF_O_CACHE_START,
     transition_row TS_P_WRITE_HIT_WB_C2_DIRTY S_C2_DIRTY_P_WRITE_HIT_CPF_O_CACHE_START TS_P_WRITE_HIT_WB_C2_DIRTY S_C2_DIRTY_P_WRITE_HIT_CPT_CACHE_START,
     transition_row TS_P_WRITE_HIT_WB_C2_DIRTY S_C2_DIRTY_P_WRITE_HIT_CPT_CACHE_START TS_P_WRITE_HIT_WB_C2_DIRTY S_C2_DIRTY_P_WRITE_HIT_CPT_CACHE_END,
     transition_row TS_P_WRITE_HIT_WB_C2_DIRTY S_C2_DIRTY_P_WRITE_HIT_CPT_CACHE_END TS_NONE S_DIRTY,
     transition_row TS_NONE S_DIRTY_NO_DATA TS_P_WRITE_HIT_WB_DIRTY S_DIRTY_P_WRITE_HIT_CPF_O_CACHE_START,
     transition_row TS_P_WRITE_HIT_WB_DIRTY S_DIRTY_P_WRITE_HIT_CPF_O_CACHE_START TS_P_WRITE_HIT_WB_DIRTY S_DIRTY_P_WRITE_HIT_CPT_CACHE_START,
     transition_row TS_P_WRITE_HIT_WB_DIRTY S_DIRTY_P_WRITE_HIT_CPT_CACHE_START TS_P_WRITE_HIT_WB_DIRTY S_DIRTY_P_WRITE_HIT_CPT_CACHE_END,
     transition_row TS_P_WRITE_HIT_WB_DIRTY S_DIRTY_P_WRITE_HIT_CPT_CACHE_END TS_NONE S_DIRTY,
     transition_row TS_NONE S_DIRTY_NO_DATA TS_WRITE_HIT_WB_C2_DIRTY S_C2_DIRTY_WRITE_HIT_CPT_CACHE_START,
     transition_row TS_WRITE_HIT_WB_C2_DIRTY S_C2_DIRTY_WRITE_HIT_CPT_CACHE_START TS_WRITE_HIT_WB_C2_DIRTY S_C2_DIRTY_WRITE_HIT_CPT_CACHE_END,
     transition_row TS_WRITE_HIT_WB_C2_DIRTY S_C2_DIRTY_WRITE_HIT_CPT_CACHE_END TS_NONE S_DIRTY,
     transition_row TS_NONE S_DIRTY_NO_DATA TS_WRITE_HIT_WB_DIRTY S_DIRTY_WRITE_HIT_CPT_CACHE_START,
     transition_row TS_WRITE_HIT_WB_DIRTY S_DIRTY_WRITE_HIT_CPT_CACHE_START TS_WRITE_HIT_WB_DIRTY S_DIRTY_WRITE_HIT_CPT_CACHE_END,
     transition_row TS_WRITE_HIT_WB_DIRTY S_DIRTY_WRITE_HIT_CPT_CACHE_END TS_NONE S_DIRTY]"

definition p_write_miss_and_verify_transitions :: "cache_state_transitions list" where
  "p_write_miss_and_verify_transitions =
    [transition_row TS_NONE S_CLEAN_NO_DATA TS_P_WRITE_MISS_WT S_CLEAN_P_WRITE_MISS_CPF_DEVICE_START,
     transition_row TS_P_WRITE_MISS_WT S_CLEAN_P_WRITE_MISS_CPF_DEVICE_START TS_P_WRITE_MISS_WT S_CLEAN_P_WRITE_MISS_CPF_DEVICE_END,
     transition_row TS_P_WRITE_MISS_WT S_CLEAN_P_WRITE_MISS_CPF_DEVICE_END TS_P_WRITE_MISS_WT S_CLEAN_P_WRITE_MISS_CPT_DEVICE_END,
     transition_row TS_P_WRITE_MISS_WT S_CLEAN_P_WRITE_MISS_CPT_DEVICE_END TS_P_WRITE_MISS_WT S_CLEAN_P_WRITE_MISS_CPT_CACHE_END,
     transition_row TS_P_WRITE_MISS_WT S_CLEAN_P_WRITE_MISS_CPT_CACHE_END TS_NONE S_CLEAN,
     transition_row TS_NONE S_DIRTY_NO_DATA TS_P_WRITE_MISS_WB S_DIRTY_P_WRITE_MISS_CPF_DEVICE_START,
     transition_row TS_P_WRITE_MISS_WB S_DIRTY_P_WRITE_MISS_CPF_DEVICE_START TS_P_WRITE_MISS_WB S_DIRTY_P_WRITE_MISS_CPF_DEVICE_END,
     transition_row TS_P_WRITE_MISS_WB S_DIRTY_P_WRITE_MISS_CPF_DEVICE_END TS_P_WRITE_MISS_WB S_DIRTY_P_WRITE_MISS_CPT_CACHE_END,
     transition_row TS_P_WRITE_MISS_WB S_DIRTY_P_WRITE_MISS_CPT_CACHE_END TS_NONE S_DIRTY,
     transition_row TS_NONE S_CLEAN TS_VERIFY_CLEAN_WTWB S_CLEAN_VERIFY,
     transition_row TS_VERIFY_CLEAN_WTWB S_CLEAN_VERIFY TS_NONE S_CLEAN]"

definition writeback_and_invalidate_transitions :: "cache_state_transitions list" where
  "writeback_and_invalidate_transitions =
    [transition_row TS_NONE S_DIRTY TS_WRITEBACK_WB S_DIRTY_WRITEBACK_CPF_CACHE_START,
     transition_row TS_WRITEBACK_WB S_DIRTY_WRITEBACK_CPF_CACHE_START TS_WRITEBACK_WB S_DIRTY_WRITEBACK_CPF_CACHE_END,
     transition_row TS_WRITEBACK_WB S_DIRTY_WRITEBACK_CPF_CACHE_END TS_WRITEBACK_WB S_DIRTY_WRITEBACK_CPT_DEVICE_END,
     transition_row TS_WRITEBACK_WB S_DIRTY_WRITEBACK_CPT_DEVICE_END TS_WRITEBACK_WB S_DIRTY_WRITEBACK_UPD_METADATA_END,
     transition_row TS_WRITEBACK_WB S_DIRTY_WRITEBACK_UPD_METADATA_END TS_NONE S_CLEAN,
     transition_row TS_NONE S_DIRTY TS_WRITEBACK_INV_WB S_DIRTY_WRITEBACK_INV_CPF_CACHE_START,
     transition_row TS_WRITEBACK_INV_WB S_DIRTY_WRITEBACK_INV_CPF_CACHE_START TS_WRITEBACK_INV_WB S_DIRTY_WRITEBACK_INV_CPF_CACHE_END,
     transition_row TS_WRITEBACK_INV_WB S_DIRTY_WRITEBACK_INV_CPF_CACHE_END TS_WRITEBACK_INV_WB S_DIRTY_WRITEBACK_INV_CPT_DEVICE_END,
     transition_row TS_WRITEBACK_INV_WB S_DIRTY_WRITEBACK_INV_CPT_DEVICE_END TS_WRITEBACK_INV_WB S_DIRTY_WRITEBACK_INV_UPD_METADATA_END,
     transition_row TS_WRITEBACK_INV_WB S_DIRTY_WRITEBACK_INV_UPD_METADATA_END TS_NONE S_INVALID,
     transition_row TS_NONE S_CLEAN TS_CLEAN_INVALIDATION_WTWB S_CLEAN_INVALIDATE_START,
     transition_row TS_CLEAN_INVALIDATION_WTWB S_CLEAN_INVALIDATE_START TS_CLEAN_INVALIDATION_WTWB S_CLEAN_INVALIDATE_END,
     transition_row TS_CLEAN_INVALIDATION_WTWB S_CLEAN_INVALIDATE_END TS_NONE S_INVALID,
     transition_row TS_NONE S_DIRTY TS_DIRTY_INVALIDATION_WB S_DIRTY_INVALIDATE_START,
     transition_row TS_DIRTY_INVALIDATION_WB S_DIRTY_INVALIDATE_START TS_DIRTY_INVALIDATION_WB S_DIRTY_INVALIDATE_END,
     transition_row TS_DIRTY_INVALIDATION_WB S_DIRTY_INVALIDATE_END TS_NONE S_INVALID]"

definition cache_valid_state_transitions :: "cache_state_transitions list" where
  "cache_valid_state_transitions =
     read_transitions @
     write_miss_and_wt_hit_transitions @
     wb_write_hit_transitions @
     p_write_miss_and_verify_transitions @
     writeback_and_invalidate_transitions"

text \<open>
  The validation scans the table for the row and returns 0 when it is there, -1 when it is
  not.
\<close>

fun scan_state_transitions ::
  "cache_state_transitions list \<Rightarrow>
     cache_transition \<Rightarrow> cache_state \<Rightarrow> cache_transition \<Rightarrow> cache_state \<Rightarrow> int" where
  "scan_state_transitions [] p_from s_from p_to s_to = -1"
| "scan_state_transitions (t # rest) p_from s_from p_to s_to =
     (if p_from = path_from t \<and> s_from = state_from t \<and> p_to = path_to t \<and> s_to = state_to t
      then 0 else scan_state_transitions rest p_from s_from p_to s_to)"

definition cache_validate_state_transition ::
  "cache_transition \<Rightarrow> cache_state \<Rightarrow> cache_transition \<Rightarrow> cache_state \<Rightarrow> int" where
  "cache_validate_state_transition p_from s_from p_to s_to =
     scan_state_transitions cache_valid_state_transitions p_from s_from p_to s_to"

section \<open>Enumerations\<close>

lemma set_cache_states [simp]: "set cache_states = UNIV"
proof (rule UNIV_eq_I [symmetric])
  show "s \<in> set cache_states" for s
    by (cases s) (simp_all add: cache_states_def)
qed

lemma set_cache_transitions [simp]: "set cache_transitions = UNIV"
proof (rule UNIV_eq_I [symmetric])
  show "p \<in> set cache_transitions" for p
    by (cases p) (simp_all add: cache_transitions_def)
qed

lemma distinct_cache_states: "distinct cache_states"
  by code_simp

lemma distinct_cache_transitions: "distinct cache_transitions"
  by code_simp

instantiation cache_state :: enum
begin

definition enum_cache_state :: "cache_state list" where
  "enum_cache_state = cache_states"

definition enum_all_cache_state :: "(cache_state \<Rightarrow> bool) \<Rightarrow> bool" where
  "enum_all_cache_state P \<longleftrightarrow> list_all P cache_states"

definition enum_ex_cache_state :: "(cache_state \<Rightarrow> bool) \<Rightarrow> bool" where
  "enum_ex_cache_state P \<longleftrightarrow> list_ex P cache_states"

instance
  by standard
    (simp_all add: enum_cache_state_def enum_all_cache_state_def enum_ex_cache_state_def
      list_all_iff list_ex_iff distinct_cache_states)

end

instantiation cache_transition :: enum
begin

definition enum_cache_transition :: "cache_transition list" where
  "enum_cache_transition = cache_transitions"

definition enum_all_cache_transition :: "(cache_transition \<Rightarrow> bool) \<Rightarrow> bool" where
  "enum_all_cache_transition P \<longleftrightarrow> list_all P cache_transitions"

definition enum_ex_cache_transition :: "(cache_transition \<Rightarrow> bool) \<Rightarrow> bool" where
  "enum_ex_cache_transition P \<longleftrightarrow> list_ex P cache_transitions"

instance
  by standard
    (simp_all add: enum_cache_transition_def enum_all_cache_transition_def
      enum_ex_cache_transition_def list_all_iff list_ex_iff distinct_cache_transitions)

end

section \<open>Classes of states\<close>

text \<open>
  A block is counted as invalid, clean or dirty according to its state: the enumerators from
  \<^term>\<open>S_DIRTY_NO_DATA\<close> on, and \<^term>\<open>S_DIRTY\<close>, are the dirty ones.  A block that is being
  written back is on no dirty list, and one that is being written back and invalidated is on no
  list of valid blocks either.
\<close>

definition stable_state :: "cache_state \<Rightarrow> bool" where
  "stable_state s \<longleftrightarrow> s = S_INVALID \<or> s = S_CLEAN \<or> s = S_DIRTY"

definition dirty_state :: "cache_state \<Rightarrow> bool" where
  "dirty_state s \<longleftrightarrow> s = S_DIRTY \<or> cache_state_num S_DIRTY_NO_DATA \<le> cache_state_num s"

definition clean_state :: "cache_state \<Rightarrow> bool" where
  "clean_state s \<longleftrightarrow> s \<noteq> S_INVALID \<and> \<not> dirty_state s"

definition writeback_inv_state :: "cache_state \<Rightarrow> bool" where
  "writeback_inv_state s \<longleftrightarrow>
     s = S_DIRTY_WRITEBACK_INV_CPF_CACHE_START \<or> s = S_DIRTY_WRITEBACK_INV_CPF_CACHE_END \<or>
     s = S_DIRTY_WRITEBACK_INV_CPT_DEVICE_END \<or> s = S_DIRTY_WRITEBACK_INV_UPD_METADATA_END"

definition writeback_state :: "cache_state \<Rightarrow> bool" where
  "writeback_state s \<longleftrightarrow>
     s = S_DIRTY_WRITEBACK_CPF_CACHE_START \<or> s = S_DIRTY_WRITEBACK_CPF_CACHE_END \<or>
     s = S_DIRTY_WRITEBACK_CPT_DEVICE_END \<or> s = S_DIRTY_WRITEBACK_UPD_METADATA_END \<or>
     writeback_inv_state s"

lemmas state_class_defs =
  stable_state_def dirty_state_def clean_state_def writeback_inv_state_def writeback_state_def

lemma dirty_state_not_invalid [simp]: "\<not> dirty_state S_INVALID" "\<not> clean_state S_INVALID"
  by (simp_all add: state_class_defs)

lemma clean_not_dirty: "clean_state s \<Longrightarrow> \<not> dirty_state s"
  by (simp add: clean_state_def)

lemma writeback_inv_is_writeback: "writeback_inv_state s \<Longrightarrow> writeback_state s"
  by (simp add: writeback_state_def)

lemma writeback_is_dirty: "writeback_state s \<Longrightarrow> dirty_state s"
  by (auto simp: state_class_defs)

lemma stable_not_writeback: "stable_state s \<Longrightarrow> \<not> writeback_state s"
  by (auto simp: state_class_defs)

section \<open>The table as a set of paths\<close>

lemma scan_state_transitions_iff:
  "scan_state_transitions ts p s p' s' = 0 \<longleftrightarrow> transition_row p s p' s' \<in> set ts"
proof (induction ts)
  case (Cons t ts)
  then show ?case by (cases t) (auto simp: transition_row_def)
qed simp

lemma validate_iff:
  "cache_validate_state_transition p s p' s' = 0 \<longleftrightarrow>
   transition_row p s p' s' \<in> set cache_valid_state_transitions"
  by (simp add: cache_validate_state_transition_def scan_state_transitions_iff)

text \<open>The transitions the table allows from a path and a state.\<close>

definition next_transitions ::
  "cache_transition \<times> cache_state \<Rightarrow> (cache_transition \<times> cache_state) list" where
  "next_transitions ps =
     map (\<lambda>t. (path_to t, state_to t))
       (filter (\<lambda>t. path_from t = fst ps \<and> state_from t = snd ps) cache_valid_state_transitions)"

lemma set_next_transitions:
  "(p', s') \<in> set (next_transitions (p, s)) \<longleftrightarrow> cache_validate_state_transition p s p' s' = 0"
proof -
  have eta: "transition_row (path_from t) (state_from t) (path_to t) (state_to t) = t" for t
    by (cases t) (simp add: transition_row_def)
  have sel: "path_from (transition_row p s p' s') = p" "state_from (transition_row p s p' s') = s"
    "path_to (transition_row p s p' s') = p'" "state_to (transition_row p s p' s') = s'"
    by (simp_all add: transition_row_def)
  show ?thesis
    unfolding validate_iff next_transitions_def
    by (auto simp: eta sel intro!: image_eqI [where x = "transition_row p s p' s'"])
qed

text \<open>
  Following a path from the transition that enters it until it is left: the states visited.
  A path that branches, is stuck or is longer than the fuel gives \<^term>\<open>None\<close>.
\<close>

fun run_path ::
  "nat \<Rightarrow> cache_transition \<times> cache_state \<Rightarrow> cache_state list option" where
  "run_path 0 ps = None"
| "run_path (Suc n) (p, s) =
     (if p = TS_NONE then Some [s]
      else case next_transitions (p, s) of
             [ps'] \<Rightarrow> map_option ((#) s) (run_path n ps')
           | _ \<Rightarrow> None)"

text \<open>The transitions that start an operation on a block.\<close>

definition path_entries :: "cache_state_transitions list" where
  "path_entries = filter (\<lambda>t. path_from t = TS_NONE) cache_valid_state_transitions"

lemma in_path_entries:
  "cache_validate_state_transition TS_NONE s p s' = 0 \<Longrightarrow> transition_row TS_NONE s p s' \<in> set path_entries"
  by (simp add: validate_iff path_entries_def transition_row_def)

definition reaches_device :: "cache_state list \<Rightarrow> bool" where
  "reaches_device ss \<longleftrightarrow>
     S_DIRTY_WRITEBACK_CPT_DEVICE_END \<in> set ss \<or> S_DIRTY_WRITEBACK_INV_CPT_DEVICE_END \<in> set ss"

definition path_entry_ok :: "cache_state_transitions \<Rightarrow> bool" where
  "path_entry_ok t \<longleftrightarrow>
     (case run_path 6 (path_to t, state_to t) of
        None \<Rightarrow> False
      | Some ss \<Rightarrow> stable_state (last ss) \<and>
          (state_from t = S_DIRTY \<and> last ss \<noteq> S_DIRTY \<longrightarrow>
             (reaches_device ss \<longleftrightarrow> path_to t \<noteq> TS_DIRTY_INVALIDATION_WB)))"

lemma path_entries_ok: "list_all path_entry_ok path_entries"
  by code_simp

lemma path_entry_okD:
  "cache_validate_state_transition TS_NONE s p s' = 0 \<Longrightarrow>
   \<exists>ss. run_path 6 (p, s') = Some ss \<and> stable_state (last ss) \<and>
     (s = S_DIRTY \<and> last ss \<noteq> S_DIRTY \<longrightarrow> (reaches_device ss \<longleftrightarrow> p \<noteq> TS_DIRTY_INVALIDATION_WB))"
  using path_entries_ok in_path_entries [of s p s']
  by (auto simp: list_all_iff path_entry_ok_def transition_row_def split: option.splits)

text \<open>The transitions inside a path keep the class of the state.\<close>

definition class_kept :: "cache_state_transitions \<Rightarrow> bool" where
  "class_kept t \<longleftrightarrow>
     (path_to t \<noteq> TS_NONE \<longrightarrow>
        state_to t \<noteq> S_INVALID \<and> dirty_state (state_to t) = dirty_state (state_from t)) \<and>
     (path_from t \<noteq> TS_NONE \<longrightarrow> \<not> stable_state (state_from t)) \<and>
     (path_to t = TS_NONE \<longleftrightarrow> stable_state (state_to t)) \<and>
     (path_to t \<noteq> TS_NONE \<and> path_from t \<noteq> TS_NONE \<longrightarrow>
        writeback_state (state_to t) = writeback_state (state_from t) \<and>
        writeback_inv_state (state_to t) = writeback_inv_state (state_from t))"

lemma class_kept_table: "list_all class_kept cache_valid_state_transitions"
  by code_simp

lemma class_keptD:
  assumes "cache_validate_state_transition p s p' s' = 0"
  shows "p' \<noteq> TS_NONE \<Longrightarrow> s' \<noteq> S_INVALID \<and> dirty_state s' = dirty_state s"
    and "p \<noteq> TS_NONE \<Longrightarrow> \<not> stable_state s"
    and "p' = TS_NONE \<longleftrightarrow> stable_state s'"
    and "p' \<noteq> TS_NONE \<Longrightarrow> p \<noteq> TS_NONE \<Longrightarrow>
      writeback_state s' = writeback_state s \<and> writeback_inv_state s' = writeback_inv_state s"
proof -
  have "class_kept (transition_row p s p' s')"
    using class_kept_table assms by (simp add: validate_iff list_all_iff)
  then show "p' \<noteq> TS_NONE \<Longrightarrow> s' \<noteq> S_INVALID \<and> dirty_state s' = dirty_state s"
    and "p \<noteq> TS_NONE \<Longrightarrow> \<not> stable_state s"
    and "p' = TS_NONE \<longleftrightarrow> stable_state s'"
    and "p' \<noteq> TS_NONE \<Longrightarrow> p \<noteq> TS_NONE \<Longrightarrow>
      writeback_state s' = writeback_state s \<and> writeback_inv_state s' = writeback_inv_state s"
    by (simp_all add: class_kept_def transition_row_def)
qed

text \<open>
  C4: every operation on a cache block is a finite, deterministic path.  From the state a valid
  first transition enters, exactly one transition is valid in each following state, and within
  five of them the block is back outside every path in one of the three persistent states.
\<close>

theorem transition_paths_end_stable:
  assumes "cache_validate_state_transition TS_NONE s p s' = 0"
  shows "\<exists>ss. run_path 6 (p, s') = Some ss \<and> stable_state (last ss)"
  using path_entry_okD [OF assms] by blast

text \<open>
  C5: which paths of the table give up dirty data, exactly.  A path that starts from a dirty block
  and leaves it clean or invalid passes through a state in which the copy to the cached device is
  complete if and only if it is not TS_DIRTY_INVALIDATION_WB.  That path takes a dirty block to
  S_INVALID with a metadata update alone: on it, and on no other, the data has to be superseded
  before the path is entered.
\<close>

theorem dirty_block_written_before_dropped:
  assumes "cache_validate_state_transition TS_NONE S_DIRTY p s' = 0"
    and "run_path 6 (p, s') = Some ss" and "last ss \<noteq> S_DIRTY"
  shows "reaches_device ss \<longleftrightarrow> p \<noteq> TS_DIRTY_INVALIDATION_WB"
  using path_entry_okD [OF assms(1)] assms(2,3) by auto

theorem transition_paths_end_stable_witness:
  "cache_validate_state_transition TS_NONE S_DIRTY TS_WRITEBACK_WB S_DIRTY_WRITEBACK_CPF_CACHE_START = 0 \<and>
   (\<exists>ss. run_path 6 (TS_WRITEBACK_WB, S_DIRTY_WRITEBACK_CPF_CACHE_START) = Some ss \<and> stable_state (last ss))"
proof -
  have "cache_validate_state_transition TS_NONE S_DIRTY TS_WRITEBACK_WB
      S_DIRTY_WRITEBACK_CPF_CACHE_START = 0" by code_simp
  with transition_paths_end_stable [OF this] show ?thesis by blast
qed

theorem dirty_block_written_before_dropped_witness:
  "run_path 6 (TS_WRITEBACK_WB, S_DIRTY_WRITEBACK_CPF_CACHE_START) =
     Some [S_DIRTY_WRITEBACK_CPF_CACHE_START, S_DIRTY_WRITEBACK_CPF_CACHE_END,
       S_DIRTY_WRITEBACK_CPT_DEVICE_END, S_DIRTY_WRITEBACK_UPD_METADATA_END, S_CLEAN] \<and>
   reaches_device [S_DIRTY_WRITEBACK_CPF_CACHE_START, S_DIRTY_WRITEBACK_CPF_CACHE_END,
     S_DIRTY_WRITEBACK_CPT_DEVICE_END, S_DIRTY_WRITEBACK_UPD_METADATA_END, S_CLEAN]"
proof -
  have "cache_validate_state_transition TS_NONE S_DIRTY TS_WRITEBACK_WB
      S_DIRTY_WRITEBACK_CPF_CACHE_START = 0" by code_simp
  moreover have "run_path 6 (TS_WRITEBACK_WB, S_DIRTY_WRITEBACK_CPF_CACHE_START) =
     Some [S_DIRTY_WRITEBACK_CPF_CACHE_START, S_DIRTY_WRITEBACK_CPF_CACHE_END,
       S_DIRTY_WRITEBACK_CPT_DEVICE_END, S_DIRTY_WRITEBACK_UPD_METADATA_END, S_CLEAN]" by code_simp
  ultimately show ?thesis
    using dirty_block_written_before_dropped [of TS_WRITEBACK_WB S_DIRTY_WRITEBACK_CPF_CACHE_START] by simp
qed

end
