(* ===== verification/Murmurhash3.thy ===== *)
theory Murmurhash3
  imports Bittern_Prelude
begin

unbundle bit_operations_syntax

text \<open>
  The 128-bit integers of \<open>math128.h\<close> and the 64-bit variant of MurmurHash3
  (\<open>murmurhash3.c\<close>), which the module uses to checksum cache blocks, persistent headers and
  persistent metadata.  Every mixing step is shown to be invertible; the consequence is that
  two buffers of the same length that differ in one aligned 16-byte group never have the same
  hash, so that a corruption confined to one such group is always detected.
\<close>

section \<open>128-bit integers\<close>

record uint128_t =
  hi64 :: u64
  lo64 :: u64

definition UINT128_FROM_UINT2 :: "u64 \<Rightarrow> u64 \<Rightarrow> uint128_t" where
  "UINT128_FROM_UINT2 hi lo = \<lparr> hi64 = hi, lo64 = lo \<rparr>"

definition UINT128_ZERO :: uint128_t where
  "UINT128_ZERO = UINT128_FROM_UINT2 0 0"

definition uint128_eq :: "uint128_t \<Rightarrow> uint128_t \<Rightarrow> bool" where
  "uint128_eq a b \<longleftrightarrow> hi64 a = hi64 b \<and> lo64 a = lo64 b"

definition uint128_z :: "uint128_t \<Rightarrow> bool" where
  "uint128_z a \<longleftrightarrow> hi64 a = 0 \<and> lo64 a = 0"

definition uint128_ne :: "uint128_t \<Rightarrow> uint128_t \<Rightarrow> bool" where
  "uint128_ne a b \<longleftrightarrow> hi64 a \<noteq> hi64 b \<or> lo64 a \<noteq> lo64 b"

definition uint128_nz :: "uint128_t \<Rightarrow> bool" where
  "uint128_nz a \<longleftrightarrow> hi64 a \<noteq> 0 \<or> lo64 a \<noteq> 0"

lemma uint128_eq_iff [simp]: "uint128_eq a b \<longleftrightarrow> a = b"
  by (cases a; cases b) (simp add: uint128_eq_def)

lemma uint128_ne_iff [simp]: "uint128_ne a b \<longleftrightarrow> a \<noteq> b"
  by (cases a; cases b) (simp add: uint128_ne_def)

lemma uint128_z_iff [simp]: "uint128_z a \<longleftrightarrow> a = UINT128_ZERO"
  by (cases a) (simp add: uint128_z_def UINT128_ZERO_def UINT128_FROM_UINT2_def)

lemma uint128_nz_iff [simp]: "uint128_nz a \<longleftrightarrow> a \<noteq> UINT128_ZERO"
  by (cases a) (simp add: uint128_nz_def UINT128_ZERO_def UINT128_FROM_UINT2_def)

section \<open>Mixing\<close>

definition rotl64 :: "u64 \<Rightarrow> nat \<Rightarrow> u64" where
  "rotl64 x r = push_bit r x OR drop_bit (64 - r) x"

definition fmix64 :: "u64 \<Rightarrow> u64" where
  "fmix64 k =
     (let k = k XOR drop_bit 33 k;
          k = k * 0xff51afd7ed558ccd;
          k = k XOR drop_bit 33 k;
          k = k * 0xc4ceb9fe1a85ec53;
          k = k XOR drop_bit 33 k
      in k)"

text \<open>The 64-bit loads of the hash are little-endian, as on every machine the module targets.\<close>

fun le64 :: "u8 list \<Rightarrow> u64" where
  "le64 [] = 0"
| "le64 (b # bs) = ucast b OR push_bit 8 (le64 bs)"

definition getblock64 :: "u8 list \<Rightarrow> nat \<Rightarrow> u64" where
  "getblock64 p i = le64 (take 8 (drop (8 * i) p))"

abbreviation "murmur_c1 \<equiv> (0x87c37b91114253d5 :: u64)"
abbreviation "murmur_c2 \<equiv> (0x4cf5ad432745937f :: u64)"

text \<open>One iteration of the body, on the pair \<open>(h1, h2)\<close>.\<close>

definition murmur_body :: "u64 \<Rightarrow> u64 \<Rightarrow> u64 \<times> u64 \<Rightarrow> u64 \<times> u64" where
  "murmur_body k1 k2 h =
     (let (h1, h2) = h;
          k1 = k1 * murmur_c1;
          k1 = rotl64 k1 31;
          k1 = k1 * murmur_c2;
          h1 = h1 XOR k1;
          h1 = rotl64 h1 27;
          h1 = h1 + h2;
          h1 = h1 * 5 + 0x52dce729;
          k2 = k2 * murmur_c2;
          k2 = rotl64 k2 33;
          k2 = k2 * murmur_c1;
          h2 = h2 XOR k2;
          h2 = rotl64 h2 31;
          h2 = h2 + h1;
          h2 = h2 * 5 + 0x38495ab5
      in (h1, h2))"

function murmur_loop :: "u8 list \<Rightarrow> nat \<Rightarrow> nat \<Rightarrow> u64 \<times> u64 \<Rightarrow> u64 \<times> u64" where
  "murmur_loop blocks i nblocks h =
     (if i < nblocks
      then murmur_loop blocks (Suc i) nblocks
             (murmur_body (getblock64 blocks (i * 2 + 0)) (getblock64 blocks (i * 2 + 1)) h)
      else h)"
  by pat_completeness auto
termination by (relation "measure (\<lambda>(blocks, i, nblocks, h). nblocks - i)") auto

declare murmur_loop.simps [simp del]

text \<open>
  The tail: the switch on \<open>len & 15\<close> falls through, so case \<open>n\<close> also runs all the
  smaller ones.
\<close>

definition tail_xor :: "nat \<Rightarrow> u8 list \<Rightarrow> nat \<Rightarrow> nat \<Rightarrow> u64 \<Rightarrow> u64" where
  "tail_xor len15 tail c sh k =
     (if c \<le> len15 then k XOR push_bit sh (ucast (tail ! (c - 1))) else k)"

definition murmur_tail :: "u8 list \<Rightarrow> nat \<Rightarrow> u64 \<times> u64 \<Rightarrow> u64 \<times> u64" where
  "murmur_tail tail len15 h =
     (let (h1, h2) = h;
          x = tail_xor len15 tail;
          k2 = x 9 0 (x 10 8 (x 11 16 (x 12 24 (x 13 32 (x 14 40 (x 15 48 0))))));
          h2 = (if 9 \<le> len15 then h2 XOR (rotl64 (k2 * murmur_c2) 33 * murmur_c1) else h2);
          k1 = x 1 0 (x 2 8 (x 3 16 (x 4 24 (x 5 32 (x 6 40 (x 7 48 (x 8 56 0)))))));
          h1 = (if 1 \<le> len15 then h1 XOR (rotl64 (k1 * murmur_c1) 31 * murmur_c2) else h1)
      in (h1, h2))"

definition murmur_final :: "u64 \<Rightarrow> u64 \<times> u64 \<Rightarrow> u64 \<times> u64" where
  "murmur_final len h =
     (let (h1, h2) = h;
          h1 = h1 XOR len;
          h2 = h2 XOR len;
          h1 = h1 + h2;
          h2 = h2 + h1;
          h1 = fmix64 h1;
          h2 = fmix64 h2;
          h1 = h1 + h2;
          h2 = h2 + h1
      in (h1, h2))"

text \<open>
  \<open>len\<close> is a C \<open>int\<close>, so \<open>len / 16\<close> rounds towards zero and the length that is mixed in at the end
  is extended with its sign.  For \<open>len \<le> -16\<close> the pointer to the tail is before the buffer; the bytes
  there are not part of the model and \<^term>\<open>[]\<close> stands for them.
\<close>

definition MurmurHash3_x64_128 :: "u8 list \<Rightarrow> int \<Rightarrow> u32 \<Rightarrow> u64 \<times> u64" where
  "MurmurHash3_x64_128 key len seed =
     (let nblocks = (if len < 0 then - (- len div 16) else len div 16);
          tail = (if nblocks < 0 then [] else drop (nat (nblocks * 16)) key);
          h = (ucast seed, ucast seed);
          h = murmur_loop key 0 (nat nblocks) h;
          h = murmur_tail tail (nat (len AND 15)) h
      in murmur_final (word_of_int len) h)"

text \<open>
  The size is a \<open>size_t\<close>, which the call converts to \<open>int\<close>: only its low 32 bits count, read with their
  sign.  The result is stored through a pointer to two 64-bit words; on a little-endian machine the
  first word is the low half of the 128-bit value.
\<close>

definition int_of_size :: "nat \<Rightarrow> int" where
  "int_of_size sz = sint (of_nat sz :: u32)"

definition murmurhash3_128 :: "u8 list \<Rightarrow> nat \<Rightarrow> uint128_t" where
  "murmurhash3_128 buf sz =
     (let (h1, h2) = MurmurHash3_x64_128 buf (int_of_size sz) 0 in UINT128_FROM_UINT2 h2 h1)"

section \<open>Every mixing step is invertible\<close>

lemma xorshift33_involution:
  "(x XOR drop_bit 33 x) XOR drop_bit 33 (x XOR drop_bit 33 x) = (x :: u64)"
  by (rule bit_word_eqI) (auto simp: bit_xor_iff bit_drop_bit_eq dest: bit_imp_le_length)

lemma inj_xorshift33: "inj (\<lambda>x :: u64. x XOR drop_bit 33 x)"
  by (rule inj_on_inverseI [where g = "\<lambda>x. x XOR drop_bit 33 x"])
    (rule xorshift33_involution)

lemma inj_mult_inverse:
  fixes a b :: "'a::len word"
  assumes "a * b = 1"
  shows "inj (\<lambda>x. x * a)"
proof (rule inj_on_inverseI [where g = "\<lambda>x. x * b"])
  fix x :: "'a word"
  show "x * a * b = x"
    using assms by (simp add: mult.assoc)
qed

lemma fmix_mult1: "inj (\<lambda>x :: u64. x * 0xff51afd7ed558ccd)"
  by (rule inj_mult_inverse [of _ "0x4f74430c22a54005"]) simp

lemma fmix_mult2: "inj (\<lambda>x :: u64. x * 0xc4ceb9fe1a85ec53)"
  by (rule inj_mult_inverse [of _ "0x9cb4b2f8129337db"]) simp

lemma murmur_mult1: "inj (\<lambda>x :: u64. x * murmur_c1)"
  by (rule inj_mult_inverse [of _ "0xa98409e882ce4d7d"]) simp

lemma murmur_mult2: "inj (\<lambda>x :: u64. x * murmur_c2)"
  by (rule inj_mult_inverse [of _ "0xa81e14edd9de2c7f"]) simp

lemma murmur_mult5: "inj (\<lambda>x :: u64. x * 5)"
  by (rule inj_mult_inverse [of _ "0xcccccccccccccccd"]) simp

lemma bit_rotl64:
  assumes "0 < r" "r < 64"
  shows "bit (rotl64 x r) n \<longleftrightarrow> n < 64 \<and> bit x (if r \<le> n then n - r else n + (64 - r))"
  using assms unfolding rotl64_def
  by (auto simp: bit_or_iff bit_push_bit_iff bit_drop_bit_eq add.commute dest: bit_imp_le_length)

lemma rotl64_inverse:
  assumes "0 < r" "r < 64"
  shows "rotl64 (rotl64 x r) (64 - r) = x"
  using assms
  by (intro bit_word_eqI) (auto simp: bit_rotl64)

lemma inj_rotl64: "0 < r \<Longrightarrow> r < 64 \<Longrightarrow> inj (\<lambda>x. rotl64 x r)"
  by (rule inj_on_inverseI [where g = "\<lambda>x. rotl64 x (64 - r)"]) (rule rotl64_inverse)

text \<open>The cancellation laws of the mixing steps.\<close>

lemmas murmur_cancel =
  inj_eq [OF inj_xorshift33] inj_eq [OF fmix_mult1] inj_eq [OF fmix_mult2]
  inj_eq [OF murmur_mult1] inj_eq [OF murmur_mult2] inj_eq [OF murmur_mult5]

lemma rotl64_cancel [simp]: "0 < r \<Longrightarrow> r < 64 \<Longrightarrow> rotl64 x r = rotl64 y r \<longleftrightarrow> x = y"
  using inj_eq [OF inj_rotl64] by blast

lemma xor_cancel_left [simp]: "(a XOR b = a XOR c) \<longleftrightarrow> b = (c :: 'a::len word)"
  by (metis bit.xor_left_self)

lemma xor_cancel_right [simp]: "(b XOR a = c XOR a) \<longleftrightarrow> b = (c :: 'a::len word)"
  by (metis xor.commute xor_cancel_left)

lemma fmix64_cancel [simp]: "fmix64 x = fmix64 y \<longleftrightarrow> x = y"
  by (simp only: fmix64_def Let_def murmur_cancel)

lemma sum_pair_cancel:
  "(x :: u64) + y = x' + y' \<and> y + (x + y) = y' + (x' + y') \<longleftrightarrow> x = x' \<and> y = y'"
  by (metis add_right_imp_eq)

lemma murmur_final_cancel [simp]: "murmur_final len g = murmur_final len h \<longleftrightarrow> g = h"
  by (cases g; cases h)
    (simp only: murmur_final_def Let_def case_prod_conv sum_pair_cancel prod.inject
      fmix64_cancel xor_cancel_right)

lemma murmur_body_cancel_state [simp]:
  "murmur_body k1 k2 g = murmur_body k1 k2 h \<longleftrightarrow> g = h"
proof -
  obtain a b a' b' where gh: "g = (a, b)" "h = (a', b')" by (cases g; cases h)
  let ?m = "rotl64 (k1 * murmur_c1) 31 * murmur_c2"
  let ?n = "rotl64 (k2 * murmur_c2) 33 * murmur_c1"
  let ?h = "rotl64 (a XOR ?m) 27 + b" and ?h' = "rotl64 (a' XOR ?m) 27 + b'"
  have "murmur_body k1 k2 g = murmur_body k1 k2 h \<longleftrightarrow>
      ?h = ?h' \<and> rotl64 (b XOR ?n) 31 + (?h * 5 + 0x52dce729) =
        rotl64 (b' XOR ?n) 31 + (?h' * 5 + 0x52dce729)"
    by (simp only: gh murmur_body_def Let_def case_prod_conv prod.inject murmur_cancel
        add_right_cancel)
  also have "\<dots> \<longleftrightarrow> ?h = ?h' \<and> rotl64 (b XOR ?n) 31 = rotl64 (b' XOR ?n) 31"
    by (metis add_right_imp_eq)
  also have "\<dots> \<longleftrightarrow> g = h"
    by (auto simp: gh)
  finally show ?thesis .
qed

lemma murmur_body_cancel_data [simp]:
  "murmur_body k1 k2 h = murmur_body k1' k2' h \<longleftrightarrow> k1 = k1' \<and> k2 = k2'"
proof -
  obtain a b where h: "h = (a, b)" by (cases h)
  let ?m = "\<lambda>k. rotl64 (k * murmur_c1) 31 * murmur_c2"
  let ?n = "\<lambda>k. rotl64 (k * murmur_c2) 33 * murmur_c1"
  have m: "?m x = ?m y \<longleftrightarrow> x = y" "?n x = ?n y \<longleftrightarrow> x = y" for x y
    by (simp_all only: murmur_cancel rotl64_cancel zero_less_numeral numeral_less_iff
        num.simps semiring_norm)
  have "murmur_body k1 k2 h = murmur_body k1' k2' h \<longleftrightarrow>
      rotl64 (a XOR ?m k1) 27 = rotl64 (a XOR ?m k1') 27 \<and>
      rotl64 (b XOR ?n k2) 31 + ((rotl64 (a XOR ?m k1) 27 + b) * 5 + 0x52dce729) =
        rotl64 (b XOR ?n k2') 31 + ((rotl64 (a XOR ?m k1') 27 + b) * 5 + 0x52dce729)"
    by (simp only: h murmur_body_def Let_def case_prod_conv prod.inject murmur_cancel
        add_right_cancel)
  also have "\<dots> \<longleftrightarrow> a XOR ?m k1 = a XOR ?m k1' \<and> b XOR ?n k2 = b XOR ?n k2'"
    using rotl64_cancel [of 27 "a XOR ?m k1" "a XOR ?m k1'"]
      rotl64_cancel [of 31 "b XOR ?n k2" "b XOR ?n k2'"]
    by (metis add_right_cancel zero_less_numeral numeral_less_iff
        semiring_norm(68,71,76,77,78,80,81))
  also have "\<dots> \<longleftrightarrow> k1 = k1' \<and> k2 = k2'"
    by (simp only: xor_cancel_left m)
  finally show ?thesis .
qed

lemma murmur_tail_cancel [simp]: "murmur_tail t n g = murmur_tail t n h \<longleftrightarrow> g = h"
  by (cases g; cases h) (auto simp: murmur_tail_def Let_def)

section \<open>A corruption of one 16-byte group is detected\<close>

lemma bit_le64:
  "length bs \<le> 8 \<Longrightarrow>
   bit (le64 bs) n \<longleftrightarrow> n < 8 * length bs \<and> bit (bs ! (n div 8)) (n mod 8)"
proof (induction bs arbitrary: n)
  case (Cons b bs)
  show ?case
  proof (cases "n < 8")
    case True
    then show ?thesis
      by (simp add: bit_or_iff bit_push_bit_iff bit_ucast_iff)
  next
    case False
    then have n: "n div 8 = Suc ((n - 8) div 8)" "n mod 8 = (n - 8) mod 8"
      by (simp_all add: le_div_geq le_mod_geq)
    have "\<not> bit b n" using False bit_imp_le_length [of b n] by auto
    moreover have "bit (le64 bs) (n - 8) \<longleftrightarrow>
        n - 8 < 8 * length bs \<and> bit (bs ! ((n - 8) div 8)) ((n - 8) mod 8)"
      using Cons by simp
    ultimately show ?thesis
      using False Cons.prems unfolding n
      by (auto simp: bit_or_iff bit_push_bit_iff bit_ucast_iff)
  qed
qed simp

lemma le64_cancel:
  assumes "length xs = 8" "length ys = 8" "le64 xs = le64 ys"
  shows "xs = ys"
proof (rule nth_equalityI)
  show "length xs = length ys" using assms by simp
next
  fix i assume i: "i < length xs"
  show "xs ! i = ys ! i"
  proof (rule bit_word_eqI)
    fix n assume n: "n < LENGTH(8)"
    have "8 * i + n < 8 * length xs" "(8 * i + n) div 8 = i" "(8 * i + n) mod 8 = n"
      using assms i n by auto
    then show "bit (xs ! i) n = bit (ys ! i) n"
      using assms bit_le64 [of xs "8 * i + n"] bit_le64 [of ys "8 * i + n"] by simp
  qed
qed

definition group16 :: "u8 list \<Rightarrow> nat \<Rightarrow> u8 list" where
  "group16 p g = take 16 (drop (16 * g) p)"

lemma getblock64_group16:
  "getblock64 p (g * 2) = le64 (take 8 (group16 p g))"
  "getblock64 p (Suc (g * 2)) = le64 (drop 8 (group16 p g))"
  by (simp_all add: getblock64_def group16_def drop_take algebra_simps)

lemma getblock64_cancel:
  assumes "16 * g + 16 \<le> length p" "16 * g + 16 \<le> length q"
    and "getblock64 p (g * 2) = getblock64 q (g * 2)"
    and "getblock64 p (Suc (g * 2)) = getblock64 q (Suc (g * 2))"
  shows "group16 p g = group16 q g"
proof -
  have "length (group16 p g) = 16" "length (group16 q g) = 16"
    using assms(1,2) by (simp_all add: group16_def)
  then have "take 8 (group16 p g) = take 8 (group16 q g)" "drop 8 (group16 p g) = drop 8 (group16 q g)"
    using assms(3,4) unfolding getblock64_group16 by (auto intro!: le64_cancel)
  then show ?thesis by (metis append_take_drop_id)
qed

lemma murmur_loop_done [simp]: "murmur_loop b n n h = h"
  by (subst murmur_loop.simps) simp

lemma murmur_loop_split:
  "i \<le> m \<Longrightarrow> m \<le> n \<Longrightarrow> murmur_loop b i n h = murmur_loop b m n (murmur_loop b i m h)"
proof (induction b i m h rule: murmur_loop.induct)
  case (1 b i m h)
  show ?case
  proof (cases "i < m")
    case True
    with 1 show ?thesis
      by (subst murmur_loop.simps, subst (3) murmur_loop.simps) simp
  qed (use 1 in simp)
qed

lemma murmur_loop_cancel [simp]: "murmur_loop b i n g = murmur_loop b i n h \<longleftrightarrow> g = h"
proof (induction b i n g arbitrary: h rule: murmur_loop.induct)
  case (1 b i n g)
  then show ?case
    by (subst murmur_loop.simps, subst (2) murmur_loop.simps) simp
qed

lemma murmur_loop_cong:
  assumes "\<And>g. i \<le> g \<Longrightarrow> g < n \<Longrightarrow> group16 p g = group16 q g"
  shows "murmur_loop p i n h = murmur_loop q i n h"
  using assms
proof (induction p i n h rule: murmur_loop.induct)
  case (1 p i n h)
  then show ?case
    by (subst murmur_loop.simps, subst (2) murmur_loop.simps) (simp add: getblock64_group16)
qed

lemma drop_eq_later: "drop m p = drop m q \<Longrightarrow> m \<le> n \<Longrightarrow> drop n p = drop n q"
  by (metis drop_drop le_add_diff_inverse2)

lemma group16_eq_outside:
  assumes "take (16 * g) p = take (16 * g) q" "drop (16 * g + 16) p = drop (16 * g + 16) q"
    and "g' \<noteq> g"
  shows "group16 p g' = group16 q g'"
proof (cases "g' < g")
  case True
  then have "group16 x g' = take 16 (drop (16 * g') (take (16 * g) x))" for x :: "u8 list"
    by (simp add: group16_def drop_take min_def)
  with assms(1) show ?thesis by simp
next
  case False
  with \<open>g' \<noteq> g\<close> have "16 * g + 16 \<le> 16 * g'" by simp
  from drop_eq_later [OF assms(2) this] show ?thesis by (simp add: group16_def)
qed

text \<open>A size that an \<open>int\<close> holds is passed on as it is.\<close>

lemma int_of_size_eq:
  assumes "sz < 2 ^ 31"
  shows "int_of_size sz = int sz"
proof -
  have "uint (of_nat sz :: u32) = int sz"
    using assms by (simp add: unsigned_of_nat take_bit_nat_eq_self)
  moreover have "sint (w :: u32) = uint w" if "uint w < 2 ^ 31" for w
    using that order_trans [OF _ uint_ge_0 [of w], of "- (2 ^ 31)"]
    by (simp add: sint_uint signed_take_bit_int_eq_self_iff)
  ultimately show ?thesis using assms by (simp add: int_of_size_def)
qed

lemma MurmurHash3_x64_128_nat:
  "MurmurHash3_x64_128 key (int len) seed =
     murmur_final (of_nat len) (murmur_tail (drop (len div 16 * 16) key) (len mod 16)
       (murmur_loop key 0 (len div 16) (ucast seed, ucast seed)))"
proof -
  have "int len AND 15 = take_bit 4 (int len)" by (simp add: take_bit_eq_mask mask_eq_exp_minus_1)
  then have "nat (int len AND 15) = len mod 16" by (simp add: take_bit_eq_mod nat_mod_distrib)
  moreover have "int len div 16 = int (len div 16)" by (simp add: zdiv_int)
  ultimately show ?thesis
    by (simp add: MurmurHash3_x64_128_def Let_def nat_mult_distrib)
qed

lemma murmurhash3_128_eq_iff:
  assumes "len < 2 ^ 31"
  shows "murmurhash3_128 p len = murmurhash3_128 q len \<longleftrightarrow>
    MurmurHash3_x64_128 p (int len) 0 = MurmurHash3_x64_128 q (int len) 0"
  using int_of_size_eq [OF assms]
  by (auto simp: murmurhash3_128_def UINT128_FROM_UINT2_def split: prod.splits)

lemma group16_cong:
  assumes "take len p = take len q" "i < len div 16"
  shows "group16 p i = group16 q i"
proof -
  have "16 * i + 16 \<le> len" using assms(2) by auto
  then have "group16 x i = take 16 (drop (16 * i) (take len x))" for x :: "u8 list"
    by (simp add: group16_def drop_take min_def)
  with assms(1) show ?thesis by simp
qed

lemma murmur_tail_cong:
  assumes "\<And>i. i < n \<Longrightarrow> t ! i = t' ! i"
  shows "murmur_tail t n h = murmur_tail t' n h"
proof -
  have "tail_xor n t c sh k = tail_xor n t' c sh k" if "1 \<le> c" for c sh k
    using assms [of "c - 1"] that by (auto simp: tail_xor_def)
  then show ?thesis by (cases h) (simp add: murmur_tail_def Let_def)
qed

text \<open>The hash reads no byte beyond the given length.\<close>

lemma murmurhash3_128_cong:
  assumes "take len p = take len q" "len \<le> length p" "len \<le> length q" "len < 2 ^ 31"
  shows "murmurhash3_128 p len = murmurhash3_128 q len"
proof -
  have eq: "p ! i = q ! i" if "i < len" for i
    using assms(1) that by (metis nth_take)
  have "murmur_loop p 0 (len div 16) h = murmur_loop q 0 (len div 16) h" for h
    using group16_cong [OF assms(1)] by (intro murmur_loop_cong) auto
  moreover have "murmur_tail (drop (len div 16 * 16) p) (len mod 16) h =
      murmur_tail (drop (len div 16 * 16) q) (len mod 16) h" for h
  proof (rule murmur_tail_cong)
    fix i assume "i < len mod 16"
    then have "len div 16 * 16 + i < len" using div_mult_mod_eq [of len 16] by linarith
    then show "drop (len div 16 * 16) p ! i = drop (len div 16 * 16) q ! i"
      using assms(2,3) eq by simp
  qed
  ultimately show ?thesis
    using assms(4) by (simp add: murmurhash3_128_eq_iff MurmurHash3_x64_128_nat)
qed

lemma murmurhash3_128_differs:
  assumes "length p = len" "length q = len" "16 * g + 16 \<le> len"
    and "take (16 * g) p = take (16 * g) q" "drop (16 * g + 16) p = drop (16 * g + 16) q"
    and "p \<noteq> q" "len < 2 ^ 31"
  shows "murmurhash3_128 p len \<noteq> murmurhash3_128 q len"
proof -
  let ?n = "len div 16" and ?s = "(ucast (0 :: u32), ucast (0 :: u32)) :: u64 \<times> u64"
  have g: "g < ?n" using assms(3) by simp
  have ne: "group16 p g \<noteq> group16 q g"
    using assms(4-6) by (metis group16_def append_take_drop_id drop_drop add.commute)
  let ?h = "murmur_loop p 0 g ?s"
  have before: "murmur_loop q 0 g ?s = ?h"
    using assms(4,5) by (intro murmur_loop_cong group16_eq_outside [symmetric]) auto
  have split: "murmur_loop x 0 ?n ?s = murmur_loop x (Suc g) ?n
      (murmur_body (getblock64 x (g * 2 + 0)) (getblock64 x (g * 2 + 1)) (murmur_loop x 0 g ?s))"
    for x
    using g by (subst murmur_loop_split [of 0 g], simp_all) (subst murmur_loop.simps, simp)
  have after: "murmur_loop q (Suc g) ?n h = murmur_loop p (Suc g) ?n h" for h
    using assms(4,5) by (intro murmur_loop_cong group16_eq_outside [symmetric]) auto
  have "murmur_loop p 0 ?n ?s \<noteq> murmur_loop q 0 ?n ?s"
    unfolding split before after
    using ne getblock64_cancel [of g p q] assms(1-3) by auto
  moreover have "drop (?n * 16) p = drop (?n * 16) q"
    using g by (intro drop_eq_later [OF assms(5)]) simp
  ultimately show ?thesis
    using assms(7) by (simp add: murmurhash3_128_eq_iff MurmurHash3_x64_128_nat)
qed

lemma murmurhash3_128_differs_at:
  assumes "len \<le> length p" "len \<le> length q" "16 * g + 16 \<le> len"
    and "\<And>i. i < len \<Longrightarrow> i < 16 * g \<or> 16 * g + 16 \<le> i \<Longrightarrow> p ! i = q ! i"
    and "take len p \<noteq> take len q" "len < 2 ^ 31"
  shows "murmurhash3_128 p len \<noteq> murmurhash3_128 q len"
proof -
  have "take (16 * g) (take len p) = take (16 * g) (take len q)"
    using assms(1-4) by (intro nth_equalityI) auto
  moreover have "drop (16 * g + 16) (take len p) = drop (16 * g + 16) (take len q)"
    using assms(1-4) by (intro nth_equalityI) auto
  ultimately have "murmurhash3_128 (take len p) len \<noteq> murmurhash3_128 (take len q) len"
    using assms by (intro murmurhash3_128_differs) simp_all
  then show ?thesis
    using murmurhash3_128_cong [of len "take len p" p] murmurhash3_128_cong [of len "take len q" q]
      assms(1,2,6) by simp
qed

text \<open>
  C10: two buffers whose first len bytes agree outside one aligned 16-byte group and differ in
  it have different 128-bit hashes, whatever follows, for every length that an int holds; a cache
  block, header or metadata record corrupted in one such group never passes the checksum.
\<close>

theorem murmurhash3_128_detects_corruption:
  assumes "len \<le> length p" "len \<le> length q" "16 * g + 16 \<le> len"
    and "\<And>i. i < len \<Longrightarrow> i < 16 * g \<or> 16 * g + 16 \<le> i \<Longrightarrow> p ! i = q ! i"
    and "take len p \<noteq> take len q" "len < 2 ^ 31"
  shows "uint128_ne (murmurhash3_128 p len) (murmurhash3_128 q len)"
  using murmurhash3_128_differs_at [OF assms] by simp

theorem murmurhash3_128_detects_corruption_witness:
  "replicate 16 0 \<noteq> 1 # replicate 15 (0 :: u8) \<and>
   uint128_ne (murmurhash3_128 (replicate 16 0) 16) (murmurhash3_128 (1 # replicate 15 0) 16)"
proof
  show ne: "replicate 16 0 \<noteq> 1 # replicate 15 (0 :: u8)" by (simp add: numeral_eq_Suc)
  show "uint128_ne (murmurhash3_128 (replicate 16 0) 16) (murmurhash3_128 (1 # replicate 15 0) 16)"
    by (rule murmurhash3_128_detects_corruption [where g = 0]) (use ne in simp_all)
qed

end
