(* ===== verification/Cache_Core.thy ===== *)
theory Cache_Core
  imports Cache_States Murmurhash3 "HOL-Library.Tree"
begin

unbundle bit_operations_syntax

text \<open>
  The sector arithmetic of \<open>bittern_cache.h\<close>, the in-memory block descriptor
  \<open>struct cache_block\<close> and the part of \<open>struct bittern_cache\<close> that the lookup and release
  operations work on, with the primitives of \<open>bittern_cache_main.h\<close>: holding and releasing a
  block, and the state transition macros.  The invariant of the cache (\<open>cache_inv\<close>) is defined
  here and shown to be independent of the statistics.
\<close>

section \<open>Sectors\<close>

definition PAGE_SIZE :: nat where
  "PAGE_SIZE = 4096"

definition SECTOR_SIZE :: nat where
  "SECTOR_SIZE = 512"

definition SECTORS_PER_CACHE_BLOCK :: sector_t where
  "SECTORS_PER_CACHE_BLOCK = of_nat (PAGE_SIZE div SECTOR_SIZE)"

definition SECTOR_NUMBER_INVALID :: sector_t where
  "SECTOR_NUMBER_INVALID = -1"

definition is_sector_number_valid :: "sector_t \<Rightarrow> bool" where
  "is_sector_number_valid s \<longleftrightarrow> 0 \<le> sint s"

definition is_sector_number_invalid :: "sector_t \<Rightarrow> bool" where
  "is_sector_number_invalid s \<longleftrightarrow> \<not> is_sector_number_valid s"

definition is_sector_cache_aligned :: "sector_t \<Rightarrow> bool" where
  "is_sector_cache_aligned s \<longleftrightarrow> s mod SECTORS_PER_CACHE_BLOCK = 0"

definition is_request_cache_block :: "sector_t \<Rightarrow> u32 \<Rightarrow> bool" where
  "is_request_cache_block s len \<longleftrightarrow> is_sector_cache_aligned s \<and> len = of_nat PAGE_SIZE"

definition is_request_single_cache_block :: "sector_t \<Rightarrow> u32 \<Rightarrow> bool" where
  "is_request_single_cache_block s len \<longleftrightarrow>
     (let s_end = s + ucast (len div of_nat SECTOR_SIZE) - 1;
          cache_block = s div SECTORS_PER_CACHE_BLOCK;
          cache_block_end = s_end div SECTORS_PER_CACHE_BLOCK
      in cache_block = cache_block_end)"

definition sector_to_cache_block_sector :: "sector_t \<Rightarrow> sector_t" where
  "sector_to_cache_block_sector s = s AND NOT (SECTORS_PER_CACHE_BLOCK - 1)"

section \<open>Replacement modes, error states and lookup results\<close>

definition CACHE_REPLACEMENT_MODE_FIFO :: int where
  "CACHE_REPLACEMENT_MODE_FIFO = 1"

definition CACHE_REPLACEMENT_MODE_LRU :: int where
  "CACHE_REPLACEMENT_MODE_LRU = 2"

definition CACHE_REPLACEMENT_MODE_RANDOM :: int where
  "CACHE_REPLACEMENT_MODE_RANDOM = 3"

definition cache_replacement_mode_ok :: "int \<Rightarrow> bool" where
  "cache_replacement_mode_ok mode \<longleftrightarrow>
     mode = CACHE_REPLACEMENT_MODE_FIFO \<or> mode = CACHE_REPLACEMENT_MODE_LRU \<or>
     mode = CACHE_REPLACEMENT_MODE_RANDOM"

datatype error_state = ES_NOERROR | ES_ERROR_FAIL_ALL | ES_ERROR_FAIL_READS

datatype cache_get_ret =
    CACHE_GET_RET_HIT_IDLE
  | CACHE_GET_RET_HIT_BUSY
  | CACHE_GET_RET_MISS_INVALID_IDLE
  | CACHE_GET_RET_MISS
  | CACHE_GET_RET_INVALID

section \<open>Block descriptors\<close>

record cache_block =
  bcb_block_id :: nat
  bcb_refcount :: int
  bcb_sector :: sector_t
  bcb_xid :: u64
  bcb_last_modify :: u32
  bcb_hash_data :: uint128_t
  bcb_state :: cache_state
  bcb_cache_transition :: cache_transition

text \<open>
  The kernel the module is linked with: whether the module was built with \<open>ENABLE_ASSERT\<close>,
  and the two functions of the kernel's red-black tree library that rearrange the tree.  They
  are not part of the module, so they are parameters; what the module relies on is
  \<open>rbtree_kernel\<close> below.  A tree is given by the block numbers of its nodes.
\<close>

record kernel_env =
  enable_assert :: bool
  rb_insert_color :: "nat tree \<Rightarrow> nat tree"
  rb_erase :: "nat \<Rightarrow> nat tree \<Rightarrow> nat tree"

text \<open>
  The kernel documents that rebalancing after an insertion keeps the in-order sequence of the
  nodes, and that erasing a node removes it from that sequence and keeps the order of the
  others.
\<close>

definition rbtree_kernel :: "kernel_env \<Rightarrow> bool" where
  "rbtree_kernel k \<longleftrightarrow>
     (\<forall>t. inorder (rb_insert_color k t) = inorder t) \<and>
     (\<forall>n t. distinct (inorder t) \<longrightarrow> inorder (rb_erase k n t) = remove1 n (inorder t))"

text \<open>Statistics: counters that are reported to the user and never read by the cache.\<close>

record cache_stats =
  bc_invalidations :: int
  bc_idle_invalidations :: int
  bc_busy_invalidations :: int
  bc_no_invalidations_all_blocks_busy :: int
  bc_invalidations_map :: int
  bc_invalid_blocks_busy :: int
  bc_dirty_write_clone_alloc_ok :: int
  bc_dirty_write_clone_alloc_fail :: int
  bc_cache_transitions_counters :: "cache_transition \<Rightarrow> int"
  bc_cache_states_counters :: "cache_state \<Rightarrow> int"
  bc_rb_hit_loop_sum :: u64
  bc_rb_hit_loop_count :: u64
  bc_rb_hit_loop_max :: u64
  bc_rb_miss_loop_sum :: u64
  bc_rb_miss_loop_count :: u64
  bc_rb_miss_loop_max :: u64

text \<open>
  The cache: block descriptors are addressed by block number (1 to \<open>bc_total_entries\<close>; the C
  array is indexed by the number minus one), the intrusive lists are the lists of the numbers
  linked in them, in list order.
\<close>

record bittern_cache =
  bc_env :: kernel_env
  bc_error_state :: error_state
  bc_replacement_mode :: int
  bc_cache_mode_writeback :: int
  bc_xid :: u64
  bc_max_pending_requests :: u32
  bc_invalidator_conf_min_invalid_count :: u32
  bc_total_entries :: nat
  bc_lm_cache_blocks :: nat
  bc_invalid_entries :: int
  bc_invalid_entries_list :: "nat list"
  bc_valid_entries :: int
  bc_valid_entries_clean :: int
  bc_valid_entries_dirty :: int
  bc_valid_entries_list :: "nat list"
  bc_valid_entries_clean_list :: "nat list"
  bc_valid_entries_dirty_list :: "nat list"
  bc_cache_blocks :: "nat \<Rightarrow> cache_block"
  bc_rb_root :: "nat tree"
  bc_stats :: cache_stats

abbreviation blk :: "bittern_cache \<Rightarrow> nat \<Rightarrow> cache_block" where
  "blk bc b \<equiv> bc_cache_blocks bc b"

definition upd_block :: "(cache_block \<Rightarrow> cache_block) \<Rightarrow> nat \<Rightarrow> bittern_cache \<Rightarrow> bittern_cache" where
  "upd_block f b bc = bc\<lparr> bc_cache_blocks := (bc_cache_blocks bc)(b := f (blk bc b)) \<rparr>"

definition upd_stats :: "(cache_stats \<Rightarrow> cache_stats) \<Rightarrow> bittern_cache \<Rightarrow> bittern_cache" where
  "upd_stats f bc = bc\<lparr> bc_stats := f (bc_stats bc) \<rparr>"

text \<open>
  Linking a block in the intrusive lists.  The link \<open>bcb_entry\<close> is in the invalid or in the
  valid list, \<open>bcb_entry_cleandirty\<close> in the clean or in the dirty list; \<open>list_del_init\<close> takes a
  link out of the list it is in.
\<close>

definition list_del_entry :: "nat \<Rightarrow> bittern_cache \<Rightarrow> bittern_cache" where
  "list_del_entry b bc =
     bc\<lparr> bc_invalid_entries_list := removeAll b (bc_invalid_entries_list bc),
         bc_valid_entries_list := removeAll b (bc_valid_entries_list bc) \<rparr>"

definition list_del_entry_cleandirty :: "nat \<Rightarrow> bittern_cache \<Rightarrow> bittern_cache" where
  "list_del_entry_cleandirty b bc =
     bc\<lparr> bc_valid_entries_clean_list := removeAll b (bc_valid_entries_clean_list bc),
         bc_valid_entries_dirty_list := removeAll b (bc_valid_entries_dirty_list bc) \<rparr>"

definition add_tail_invalid :: "nat \<Rightarrow> bittern_cache \<Rightarrow> bittern_cache" where
  "add_tail_invalid b bc = bc\<lparr> bc_invalid_entries_list := bc_invalid_entries_list bc @ [b] \<rparr>"

definition add_tail_valid :: "nat \<Rightarrow> bittern_cache \<Rightarrow> bittern_cache" where
  "add_tail_valid b bc = bc\<lparr> bc_valid_entries_list := bc_valid_entries_list bc @ [b] \<rparr>"

definition add_tail_clean :: "nat \<Rightarrow> bittern_cache \<Rightarrow> bittern_cache" where
  "add_tail_clean b bc =
     bc\<lparr> bc_valid_entries_clean_list := bc_valid_entries_clean_list bc @ [b] \<rparr>"

definition add_tail_dirty :: "nat \<Rightarrow> bittern_cache \<Rightarrow> bittern_cache" where
  "add_tail_dirty b bc =
     bc\<lparr> bc_valid_entries_dirty_list := bc_valid_entries_dirty_list bc @ [b] \<rparr>"

lemmas list_link_defs =
  list_del_entry_def list_del_entry_cleandirty_def add_tail_invalid_def add_tail_valid_def
  add_tail_clean_def add_tail_dirty_def

section \<open>Assertion macros\<close>

definition bittern_cache_ok :: "bittern_cache \<Rightarrow> bool" where
  "bittern_cache_ok bc \<longleftrightarrow>
     cache_replacement_mode_ok (bc_replacement_mode bc) \<and>
     (bc_cache_mode_writeback bc = 0 \<or> bc_cache_mode_writeback bc = 1) \<and>
     bc_total_entries bc = bc_lm_cache_blocks bc"

definition cache_block_ok :: "bittern_cache \<Rightarrow> nat \<Rightarrow> bool" where
  "cache_block_ok bc b \<longleftrightarrow>
     1 \<le> b \<and> b \<le> bc_total_entries bc \<and>
     bcb_block_id (blk bc b) = b \<and> 0 \<le> bcb_refcount (blk bc b)"

abbreviation assert_on :: "bittern_cache \<Rightarrow> bool" where
  "assert_on bc \<equiv> enable_assert (bc_env bc)"

definition ASSERT_BITTERN_CACHE :: "bittern_cache \<Rightarrow> unit option" where
  "ASSERT_BITTERN_CACHE bc = ASSERT (assert_on bc) (bittern_cache_ok bc)"

definition ASSERT_CACHE_BLOCK :: "nat \<Rightarrow> bittern_cache \<Rightarrow> unit option" where
  "ASSERT_CACHE_BLOCK b bc = ASSERT (assert_on bc) (cache_block_ok bc b)"

definition is_cache_mode_writeback :: "bittern_cache \<Rightarrow> bool" where
  "is_cache_mode_writeback bc \<longleftrightarrow> bc_cache_mode_writeback bc \<noteq> 0"

definition is_cache_mode_writethru :: "bittern_cache \<Rightarrow> bool" where
  "is_cache_mode_writethru bc \<longleftrightarrow> \<not> is_cache_mode_writeback bc"

definition cache_xid_inc :: "bittern_cache \<Rightarrow> u64 \<times> bittern_cache" where
  "cache_xid_inc bc = (bc_xid bc + 1, bc\<lparr> bc_xid := bc_xid bc + 1 \<rparr>)"

section \<open>Holding and releasing a block\<close>

definition cache_block_hold :: "bittern_cache \<Rightarrow> nat \<Rightarrow> (int \<times> bittern_cache) option" where
  "cache_block_hold bc b =
     do {
       ASSERT_BITTERN_CACHE bc;
       ASSERT_CACHE_BLOCK b bc;
       let ret = bcb_refcount (blk bc b) + 1;
       ASSERT (assert_on bc) (ret > 0);
       Some (ret, upd_block (bcb_refcount_update (\<lambda>_. ret)) b bc)
     }"

definition cache_block_is_held :: "bittern_cache \<Rightarrow> nat \<Rightarrow> bool" where
  "cache_block_is_held bc b \<longleftrightarrow> bcb_refcount (blk bc b) \<noteq> 0"

definition cache_block_release :: "bittern_cache \<Rightarrow> nat \<Rightarrow> (int \<times> bittern_cache) option" where
  "cache_block_release bc b =
     do {
       ASSERT_BITTERN_CACHE bc;
       ASSERT_CACHE_BLOCK b bc;
       let ret = bcb_refcount (blk bc b) - 1;
       ASSERT (assert_on bc) (ret \<ge> 0);
       Some (ret, upd_block (bcb_refcount_update (\<lambda>_. ret)) b bc)
     }"

section \<open>State transitions\<close>

text \<open>
  The validation of the transition is compiled only with \<open>ENABLE_ASSERT\<close>; otherwise its
  result is 0.
\<close>

definition cache_state_transition_gen ::
  "bittern_cache \<Rightarrow> nat \<Rightarrow> cache_transition \<Rightarrow> cache_state \<Rightarrow> cache_transition \<Rightarrow> cache_state
     \<Rightarrow> bittern_cache option" where
  "cache_state_transition_gen bc b p_from s_from p_to s_to =
     do {
       ASSERT_BITTERN_CACHE bc;
       ASSERT_CACHE_BLOCK b bc;
       let ret = (if assert_on bc
                  then cache_validate_state_transition p_from s_from p_to s_to else 0);
       ASSERT (assert_on bc) (p_from = bcb_cache_transition (blk bc b));
       ASSERT (assert_on bc) (s_from = bcb_state (blk bc b));
       let bc = upd_block (\<lambda>c. c\<lparr> bcb_cache_transition := p_to, bcb_state := s_to \<rparr>) b bc;
       ASSERT (assert_on bc) (ret = 0);
       Some (upd_stats (\<lambda>st. st\<lparr>
          bc_cache_transitions_counters := (bc_cache_transitions_counters st)
            (p_to := bc_cache_transitions_counters st p_to + 1),
          bc_cache_states_counters := (bc_cache_states_counters st)
            (s_to := bc_cache_states_counters st s_to + 1) \<rparr>) bc)
     }"

definition cache_state_transition_initial ::
  "bittern_cache \<Rightarrow> nat \<Rightarrow> cache_transition \<Rightarrow> cache_state \<Rightarrow> bittern_cache option" where
  "cache_state_transition_initial bc b p_to s_to =
     do {
       ASSERT (assert_on bc)
         (bcb_state (blk bc b) = S_CLEAN_NO_DATA \<or> bcb_state (blk bc b) = S_DIRTY_NO_DATA \<or>
          bcb_state (blk bc b) = S_CLEAN \<or> bcb_state (blk bc b) = S_DIRTY);
       cache_state_transition_gen bc b
         (bcb_cache_transition (blk bc b)) (bcb_state (blk bc b)) p_to s_to
     }"

definition cache_state_transition3 ::
  "bittern_cache \<Rightarrow> nat \<Rightarrow> cache_transition \<Rightarrow> cache_state \<Rightarrow> cache_state
     \<Rightarrow> bittern_cache option" where
  "cache_state_transition3 bc b p_path s_from s_to =
     cache_state_transition_gen bc b p_path s_from p_path s_to"

definition cache_state_transition2 ::
  "bittern_cache \<Rightarrow> nat \<Rightarrow> cache_state \<Rightarrow> cache_state \<Rightarrow> bittern_cache option" where
  "cache_state_transition2 bc b s_from s_to =
     cache_state_transition_gen bc b
       (bcb_cache_transition (blk bc b)) s_from (bcb_cache_transition (blk bc b)) s_to"

definition cache_state_transition ::
  "bittern_cache \<Rightarrow> nat \<Rightarrow> cache_state \<Rightarrow> bittern_cache option" where
  "cache_state_transition bc b s_to =
     cache_state_transition_gen bc b
       (bcb_cache_transition (blk bc b)) (bcb_state (blk bc b))
       (bcb_cache_transition (blk bc b)) s_to"

definition cache_state_transition_final ::
  "bittern_cache \<Rightarrow> nat \<Rightarrow> cache_transition \<Rightarrow> cache_state \<Rightarrow> bittern_cache option" where
  "cache_state_transition_final bc b p_to s_to =
     do {
       ASSERT (assert_on bc) (p_to = TS_NONE);
       ASSERT (assert_on bc) (s_to = S_INVALID \<or> s_to = S_CLEAN \<or> s_to = S_DIRTY);
       cache_state_transition_gen bc b
         (bcb_cache_transition (blk bc b)) (bcb_state (blk bc b)) p_to s_to
     }"

section \<open>The invariant of the cache\<close>

text \<open>
  What holds of every block: it has its own number, it is idle or held once, an idle block is
  outside every path in a persistent state, and it has an aligned sector number exactly when it
  is not invalid.
\<close>

definition block_wf :: "nat \<Rightarrow> cache_block \<Rightarrow> bool" where
  "block_wf b c \<longleftrightarrow>
     bcb_block_id c = b \<and>
     (bcb_refcount c = 0 \<or> bcb_refcount c = 1) \<and>
     (bcb_refcount c = 0 \<longrightarrow> bcb_cache_transition c = TS_NONE \<and> stable_state (bcb_state c)) \<and>
     (if bcb_state c = S_INVALID
      then bcb_cache_transition c = TS_NONE \<and> bcb_sector c = SECTOR_NUMBER_INVALID
      else is_sector_number_valid (bcb_sector c) \<and> is_sector_cache_aligned (bcb_sector c))"

definition block_ids :: "bittern_cache \<Rightarrow> nat set" where
  "block_ids bc = {1 .. bc_total_entries bc}"

definition members :: "(cache_state \<Rightarrow> bool) \<Rightarrow> bittern_cache \<Rightarrow> nat set" where
  "members P bc = {b \<in> block_ids bc. P (bcb_state (blk bc b))}"

abbreviation valid_members :: "bittern_cache \<Rightarrow> nat set" where
  "valid_members bc \<equiv> members (\<lambda>s. s \<noteq> S_INVALID) bc"

definition list_of :: "nat list \<Rightarrow> nat set \<Rightarrow> bool" where
  "list_of xs A \<longleftrightarrow> distinct xs \<and> set xs = A"

text \<open>The lists hold exactly the blocks their names say, except those being written back.\<close>

definition lists_inv :: "bittern_cache \<Rightarrow> bool" where
  "lists_inv bc \<longleftrightarrow>
     list_of (bc_invalid_entries_list bc) (members (\<lambda>s. s = S_INVALID) bc) \<and>
     list_of (bc_valid_entries_list bc)
       (members (\<lambda>s. s \<noteq> S_INVALID \<and> \<not> writeback_inv_state s) bc) \<and>
     list_of (bc_valid_entries_clean_list bc) (members clean_state bc) \<and>
     list_of (bc_valid_entries_dirty_list bc)
       (members (\<lambda>s. dirty_state s \<and> \<not> writeback_state s) bc)"

definition counters_inv :: "bittern_cache \<Rightarrow> bool" where
  "counters_inv bc \<longleftrightarrow>
     bc_invalid_entries bc = int (card (members (\<lambda>s. s = S_INVALID) bc)) \<and>
     bc_valid_entries bc = int (card (valid_members bc)) \<and>
     bc_valid_entries_clean bc = int (card (members clean_state bc)) \<and>
     bc_valid_entries_dirty bc = int (card (members dirty_state bc))"

text \<open>The red-black tree indexes exactly the blocks that are not invalid, by sector.\<close>

definition index_inv :: "bittern_cache \<Rightarrow> bool" where
  "index_inv bc \<longleftrightarrow>
     list_of (inorder (bc_rb_root bc)) (valid_members bc) \<and>
     sorted (map (\<lambda>b. bcb_sector (blk bc b)) (inorder (bc_rb_root bc)))"

text \<open>
  Two blocks have the same sector only while a write is replacing one by the other: the one that
  is replaced stays held until it is invalid, so at most one block of a sector is idle.
\<close>

definition sectors_inv :: "bittern_cache \<Rightarrow> bool" where
  "sectors_inv bc \<longleftrightarrow>
     (\<forall>b \<in> valid_members bc. \<forall>c \<in> valid_members bc.
        b \<noteq> c \<and> bcb_sector (blk bc b) = bcb_sector (blk bc c) \<longrightarrow>
        bcb_refcount (blk bc b) = 1 \<or> bcb_refcount (blk bc c) = 1)"

definition cache_inv :: "bittern_cache \<Rightarrow> bool" where
  "cache_inv bc \<longleftrightarrow>
     rbtree_kernel (bc_env bc) \<and> bittern_cache_ok bc \<and> 0 < bc_total_entries bc \<and>
     (\<forall>b \<in> block_ids bc. block_wf b (blk bc b)) \<and>
     lists_inv bc \<and> counters_inv bc \<and> index_inv bc \<and> sectors_inv bc"

lemmas cache_inv_defs =
  cache_inv_def lists_inv_def counters_inv_def index_inv_def sectors_inv_def

section \<open>Record updates and the invariant\<close>

lemma upd_block_sel [simp]:
  "bc_env (upd_block f b bc) = bc_env bc"
  "bc_replacement_mode (upd_block f b bc) = bc_replacement_mode bc"
  "bc_total_entries (upd_block f b bc) = bc_total_entries bc"
  "bc_lm_cache_blocks (upd_block f b bc) = bc_lm_cache_blocks bc"
  "bc_invalid_entries (upd_block f b bc) = bc_invalid_entries bc"
  "bc_valid_entries (upd_block f b bc) = bc_valid_entries bc"
  "bc_valid_entries_clean (upd_block f b bc) = bc_valid_entries_clean bc"
  "bc_valid_entries_dirty (upd_block f b bc) = bc_valid_entries_dirty bc"
  "bc_invalid_entries_list (upd_block f b bc) = bc_invalid_entries_list bc"
  "bc_valid_entries_list (upd_block f b bc) = bc_valid_entries_list bc"
  "bc_valid_entries_clean_list (upd_block f b bc) = bc_valid_entries_clean_list bc"
  "bc_valid_entries_dirty_list (upd_block f b bc) = bc_valid_entries_dirty_list bc"
  "bc_rb_root (upd_block f b bc) = bc_rb_root bc"
  "bc_invalidator_conf_min_invalid_count (upd_block f b bc) =
     bc_invalidator_conf_min_invalid_count bc"
  "bc_max_pending_requests (upd_block f b bc) = bc_max_pending_requests bc"
  "bc_cache_mode_writeback (upd_block f b bc) = bc_cache_mode_writeback bc"
  "bc_error_state (upd_block f b bc) = bc_error_state bc"
  "bc_xid (upd_block f b bc) = bc_xid bc"
  "bc_stats (upd_block f b bc) = bc_stats bc"
  "bc_cache_blocks (upd_block f b bc) = (bc_cache_blocks bc)(b := f (blk bc b))"
  by (simp_all add: upd_block_def)

lemma upd_stats_sel [simp]:
  "bc_env (upd_stats g bc) = bc_env bc"
  "bc_replacement_mode (upd_stats g bc) = bc_replacement_mode bc"
  "bc_total_entries (upd_stats g bc) = bc_total_entries bc"
  "bc_lm_cache_blocks (upd_stats g bc) = bc_lm_cache_blocks bc"
  "bc_invalid_entries (upd_stats g bc) = bc_invalid_entries bc"
  "bc_valid_entries (upd_stats g bc) = bc_valid_entries bc"
  "bc_valid_entries_clean (upd_stats g bc) = bc_valid_entries_clean bc"
  "bc_valid_entries_dirty (upd_stats g bc) = bc_valid_entries_dirty bc"
  "bc_invalid_entries_list (upd_stats g bc) = bc_invalid_entries_list bc"
  "bc_valid_entries_list (upd_stats g bc) = bc_valid_entries_list bc"
  "bc_valid_entries_clean_list (upd_stats g bc) = bc_valid_entries_clean_list bc"
  "bc_valid_entries_dirty_list (upd_stats g bc) = bc_valid_entries_dirty_list bc"
  "bc_rb_root (upd_stats g bc) = bc_rb_root bc"
  "bc_invalidator_conf_min_invalid_count (upd_stats g bc) =
     bc_invalidator_conf_min_invalid_count bc"
  "bc_max_pending_requests (upd_stats g bc) = bc_max_pending_requests bc"
  "bc_cache_mode_writeback (upd_stats g bc) = bc_cache_mode_writeback bc"
  "bc_error_state (upd_stats g bc) = bc_error_state bc"
  "bc_xid (upd_stats g bc) = bc_xid bc"
  "bc_cache_blocks (upd_stats g bc) = bc_cache_blocks bc"
  by (simp_all add: upd_stats_def)

lemma cache_inv_upd_stats [simp]: "cache_inv (upd_stats g bc) = cache_inv bc"
  by (simp add: cache_inv_defs members_def block_ids_def bittern_cache_ok_def)

text \<open>
  One block changes at a time.  The lists and the counters change at that block only, and if
  each of them changes as the class of the block does, the invariant is kept.
\<close>

definition list_upd :: "nat \<Rightarrow> bool \<Rightarrow> nat list \<Rightarrow> nat list \<Rightarrow> bool" where
  "list_upd b on xs ys \<longleftrightarrow>
     (distinct xs \<longrightarrow> distinct ys \<and> set ys = (if on then insert b (set xs) else set xs - {b}))"

lemma list_upd_same: "(b \<in> set xs) = on \<Longrightarrow> list_upd b on xs xs"
  by (auto simp: list_upd_def)

lemma list_upd_move [simp]: "list_upd b True xs (removeAll b xs @ [b])"
  by (auto simp: list_upd_def distinct_removeAll)

lemma list_upd_front [simp]: "list_upd b True xs (b # removeAll b xs)"
  by (auto simp: list_upd_def distinct_removeAll)

lemma list_upd_append: "b \<notin> set xs \<Longrightarrow> list_upd b True xs (xs @ [b])"
  by (auto simp: list_upd_def)

lemma list_upd_del [simp]: "list_upd b False xs (removeAll b xs)"
  by (auto simp: list_upd_def distinct_removeAll)

lemma list_upd_list_of:
  "list_upd b on xs ys \<Longrightarrow> list_of xs A \<Longrightarrow> list_of ys (if on then insert b A else A - {b})"
  by (simp add: list_upd_def list_of_def)

definition count_upd :: "bool \<Rightarrow> bool \<Rightarrow> int \<Rightarrow> int \<Rightarrow> bool" where
  "count_upd was is m n \<longleftrightarrow> n = m - of_bool was + of_bool is"

lemma members_upd:
  assumes "b \<in> block_ids bc" "bc_total_entries bc' = bc_total_entries bc"
    and "bc_cache_blocks bc' = (bc_cache_blocks bc)(b := c)"
  shows "members P bc' =
    (if P (bcb_state c) then insert b (members P bc) else members P bc - {b})"
  using assms by (auto simp: members_def block_ids_def)

lemma finite_members [simp]: "finite (members P bc)"
  by (simp add: members_def block_ids_def)

lemma card_members_upd:
  assumes "b \<in> block_ids bc" "bc_total_entries bc' = bc_total_entries bc"
    and "bc_cache_blocks bc' = (bc_cache_blocks bc)(b := c)"
    and "count_upd (P (bcb_state (blk bc b))) (P (bcb_state c)) (int (card (members P bc))) n"
  shows "n = int (card (members P bc'))"
proof -
  have mem: "b \<in> members P bc \<longleftrightarrow> P (bcb_state (blk bc b))"
    using assms(1) by (simp add: members_def)
  then have "P (bcb_state (blk bc b)) \<Longrightarrow> 0 < card (members P bc)"
    by (auto simp: card_gt_0_iff)
  with mem show ?thesis
    using assms(4) unfolding members_upd [OF assms(1-3)] count_upd_def
    by (auto simp: card_Diff_singleton_if insert_absorb of_nat_diff)
qed

lemma cache_inv_update:
  assumes inv: "cache_inv bc" and b: "b \<in> block_ids bc"
    and env: "bc_env bc' = bc_env bc" and ok: "bittern_cache_ok bc'"
    and total: "bc_total_entries bc' = bc_total_entries bc"
    and blocks: "bc_cache_blocks bc' = (bc_cache_blocks bc)(b := c)"
    and wf: "block_wf b c"
    and l1: "list_upd b (bcb_state c = S_INVALID)
      (bc_invalid_entries_list bc) (bc_invalid_entries_list bc')"
    and l2: "list_upd b (bcb_state c \<noteq> S_INVALID \<and> \<not> writeback_inv_state (bcb_state c))
      (bc_valid_entries_list bc) (bc_valid_entries_list bc')"
    and l3: "list_upd b (clean_state (bcb_state c))
      (bc_valid_entries_clean_list bc) (bc_valid_entries_clean_list bc')"
    and l4: "list_upd b (dirty_state (bcb_state c) \<and> \<not> writeback_state (bcb_state c))
      (bc_valid_entries_dirty_list bc) (bc_valid_entries_dirty_list bc')"
    and c1: "count_upd (bcb_state (blk bc b) = S_INVALID) (bcb_state c = S_INVALID)
      (bc_invalid_entries bc) (bc_invalid_entries bc')"
    and c2: "count_upd (bcb_state (blk bc b) \<noteq> S_INVALID) (bcb_state c \<noteq> S_INVALID)
      (bc_valid_entries bc) (bc_valid_entries bc')"
    and c3: "count_upd (clean_state (bcb_state (blk bc b))) (clean_state (bcb_state c))
      (bc_valid_entries_clean bc) (bc_valid_entries_clean bc')"
    and c4: "count_upd (dirty_state (bcb_state (blk bc b))) (dirty_state (bcb_state c))
      (bc_valid_entries_dirty bc) (bc_valid_entries_dirty bc')"
    and i1: "list_upd b (bcb_state c \<noteq> S_INVALID) (inorder (bc_rb_root bc)) (inorder (bc_rb_root bc'))"
    and i2: "sorted (map (\<lambda>d. bcb_sector (blk bc' d)) (inorder (bc_rb_root bc')))"
    and dup: "\<And>d. d \<in> valid_members bc \<Longrightarrow> d \<noteq> b \<Longrightarrow> bcb_state c \<noteq> S_INVALID \<Longrightarrow>
      bcb_sector (blk bc d) = bcb_sector c \<Longrightarrow> bcb_refcount c = 1 \<or> bcb_refcount (blk bc d) = 1"
  shows "cache_inv bc'"
proof -
  note mem = members_upd [OF b total blocks]
  note card = card_members_upd [OF b total blocks]
  have "\<forall>d \<in> block_ids bc'. block_wf d (blk bc' d)"
    using inv wf total blocks by (auto simp: cache_inv_def block_ids_def)
  moreover have "lists_inv bc'"
    using inv list_upd_list_of [OF l1] list_upd_list_of [OF l2] list_upd_list_of [OF l3]
      list_upd_list_of [OF l4]
    unfolding cache_inv_def lists_inv_def mem by blast
  moreover have "counters_inv bc'"
    using inv card [of "\<lambda>s. s = S_INVALID"] card [of "\<lambda>s. s \<noteq> S_INVALID"] card [of clean_state]
      card [of dirty_state] c1 c2 c3 c4
    by (simp add: cache_inv_def counters_inv_def)
  moreover have "index_inv bc'"
    using inv list_upd_list_of [OF i1] i2
    unfolding cache_inv_def index_inv_def mem by blast
  moreover have "sectors_inv bc'"
  proof -
    have val: "d \<in> valid_members bc' \<longleftrightarrow>
        (if d = b then bcb_state c \<noteq> S_INVALID else d \<in> valid_members bc)" for d
      by (simp add: mem)
    have old: "sectors_inv bc" using inv by (simp add: cache_inv_def)
    show ?thesis
      unfolding sectors_inv_def Ball_def val blocks
      using old [unfolded sectors_inv_def] dup by (simp split: if_split) blast
  qed
  ultimately show ?thesis
    using inv env ok total by (simp add: cache_inv_def)
qed

section \<open>Sector arithmetic\<close>

lemma SECTORS_PER_CACHE_BLOCK_eq: "SECTORS_PER_CACHE_BLOCK = 8"
  by (simp add: SECTORS_PER_CACHE_BLOCK_def PAGE_SIZE_def SECTOR_SIZE_def)

lemma and_not_mask: "w AND NOT (mask n) = push_bit n (drop_bit n w)" for w :: "'a::len word"
  by (rule bit_word_eqI)
    (auto simp: bit_and_iff bit_not_iff bit_push_bit_iff bit_drop_bit_eq bit_mask_iff)

lemma sector_to_cache_block_sector_eq:
  "sector_to_cache_block_sector s = s div 8 * 8"
proof -
  have "SECTORS_PER_CACHE_BLOCK - 1 = mask 3"
    by (simp add: SECTORS_PER_CACHE_BLOCK_eq mask_eq_exp_minus_1)
  then show ?thesis
    by (simp only: sector_to_cache_block_sector_def and_not_mask)
      (simp add: push_bit_eq_mult drop_bit_eq_div)
qed

lemma unat_less_exp: "unat (w :: 'a::len word) < 2 ^ LENGTH('a)"
  by (simp add: unsigned_less)

lemma unat_sector_to_cache_block_sector:
  "unat (sector_to_cache_block_sector s) = unat s div 8 * 8"
proof -
  have "unat s div 8 * 8 \<le> unat s" by simp
  then have "unat s div 8 * 8 < 2 ^ 64"
    using unat_less_exp [of s] by (simp add: order_le_less_trans)
  then show ?thesis
    unfolding sector_to_cache_block_sector_eq
    by (simp add: unat_word_ariths unat_div)
qed

lemma is_sector_cache_aligned_unat: "is_sector_cache_aligned s \<longleftrightarrow> unat s mod 8 = 0"
  by (simp add: is_sector_cache_aligned_def SECTORS_PER_CACHE_BLOCK_eq word_unat_eq_iff unat_mod)

lemma bit_top_iff:
  assumes "0 \<le> k" "k < 2 * 2 ^ n"
  shows "bit (k :: int) n \<longleftrightarrow> 2 ^ n \<le> k"
proof (cases "2 ^ n \<le> k")
  case True
  then have "k div 2 ^ n = 1"
    using assms by (intro int_div_pos_eq [where r = "k - 2 ^ n"]) auto
  with True show ?thesis by (simp add: bit_iff_odd)
qed (use assms in \<open>simp add: bit_iff_odd\<close>)

lemma is_sector_number_valid_unat: "is_sector_number_valid s \<longleftrightarrow> unat s < 2 ^ 63"
proof -
  have "uint s < 2 * 2 ^ 63" using uint_lt2p [of s] by simp
  then have "bit (uint s) 63 \<longleftrightarrow> 2 ^ 63 \<le> uint s"
    using bit_top_iff [of "uint s" 63] by simp
  moreover have "0 \<le> sint s \<longleftrightarrow> \<not> bit (uint s) 63"
    by (simp add: sint_uint)
  moreover have "uint s < 2 ^ 63 \<longleftrightarrow> unat s < 2 ^ 63"
    unfolding unat_eq_nat_uint by (subst nat_less_iff) simp_all
  ultimately show ?thesis
    by (auto simp: is_sector_number_valid_def)
qed

lemma sector_to_cache_block_sector_valid [simp]:
  "is_sector_number_valid s \<Longrightarrow> is_sector_number_valid (sector_to_cache_block_sector s)"
  unfolding is_sector_number_valid_unat unat_sector_to_cache_block_sector
  by linarith

lemma sector_to_cache_block_sector_aligned [simp]:
  "is_sector_cache_aligned (sector_to_cache_block_sector s)"
  by (simp add: is_sector_cache_aligned_unat unat_sector_to_cache_block_sector)

lemma aligned_block_sector:
  "is_sector_cache_aligned s \<longleftrightarrow> sector_to_cache_block_sector s = s"
  by (simp add: is_sector_cache_aligned_unat word_unat_eq_iff unat_sector_to_cache_block_sector)
    presburger

lemma sector_to_cache_block_sector_idem [simp]:
  "sector_to_cache_block_sector (sector_to_cache_block_sector s) = sector_to_cache_block_sector s"
  by (simp add: aligned_block_sector [symmetric])

end
