(* ===== verification/Cache_Redblack.thy ===== *)
theory Cache_Redblack
  imports Cache_Core
begin

text \<open>
  The red-black tree index of the cache blocks (\<open>bittern_cache_redblack.c\<close>).  The walk down the
  tree, the place where a new node is linked (duplicates go left) and the statistics are those of
  the source; the rebalancing of the kernel library is the parameter of \<^typ>\<open>kernel_env\<close>.  The
  operations are shown to implement a sorted multimap from sectors to blocks, which is the
  interface \<open>sector_index\<close> that the lookup operations of the cache rely on.
\<close>

section \<open>Operations\<close>

text \<open>\<open>__ASSERT_CACHE_BLOCK\<close>, the variant that does not check the bounds of the array.\<close>

definition cache_block_ok_unbounded :: "bittern_cache \<Rightarrow> nat \<Rightarrow> bool" where
  "cache_block_ok_unbounded bc b \<longleftrightarrow> bcb_block_id (blk bc b) = b \<and> 0 \<le> bcb_refcount (blk bc b)"

definition bittern_cache_ok_unsized :: "bittern_cache \<Rightarrow> bool" where
  "bittern_cache_ok_unsized bc \<longleftrightarrow>
     cache_replacement_mode_ok (bc_replacement_mode bc) \<and>
     (bc_cache_mode_writeback bc = 0 \<or> bc_cache_mode_writeback bc = 1)"

fun rb_walk ::
  "bittern_cache \<Rightarrow> sector_t \<Rightarrow> nat tree \<Rightarrow> nat \<Rightarrow> (nat option \<times> nat) option" where
  "rb_walk bc sector Leaf cc = Some (None, cc)"
| "rb_walk bc sector (Node l n r) cc =
     do {
       ASSERT (assert_on bc) (cache_block_ok_unbounded bc n);
       let cc = cc + 1;
       if sector < bcb_sector (blk bc n) then rb_walk bc sector l cc
       else if sector > bcb_sector (blk bc n) then rb_walk bc sector r cc
       else Some (Some n, cc)
     }"

definition cache_rb_lookup ::
  "bittern_cache \<Rightarrow> sector_t \<Rightarrow> (nat option \<times> bittern_cache) option" where
  "cache_rb_lookup bc sector =
     do {
       ASSERT (assert_on bc) (bittern_cache_ok_unsized bc);
       (found, cc) \<leftarrow> rb_walk bc sector (bc_rb_root bc) 0;
       (case found of
          Some b \<Rightarrow>
            Some (Some b, upd_stats (\<lambda>st. st\<lparr>
              bc_rb_hit_loop_sum := bc_rb_hit_loop_sum st + of_nat cc,
              bc_rb_hit_loop_count := bc_rb_hit_loop_count st + 1,
              bc_rb_hit_loop_max :=
                (if of_nat cc > bc_rb_hit_loop_max st then of_nat cc else bc_rb_hit_loop_max st)
              \<rparr>) bc)
        | None \<Rightarrow>
            Some (None, upd_stats (\<lambda>st. st\<lparr>
              bc_rb_miss_loop_sum := bc_rb_miss_loop_sum st + of_nat cc,
              bc_rb_miss_loop_count := bc_rb_miss_loop_count st + 1,
              bc_rb_miss_loop_max :=
                (if of_nat cc > bc_rb_miss_loop_max st then of_nat cc else bc_rb_miss_loop_max st)
              \<rparr>) bc))
     }"

fun rb_link :: "bittern_cache \<Rightarrow> nat \<Rightarrow> nat tree \<Rightarrow> nat tree option" where
  "rb_link bc b Leaf = Some (Node Leaf b Leaf)"
| "rb_link bc b (Node l tmp r) =
     do {
       ASSERT (assert_on bc) (cache_block_ok_unbounded bc b);
       ASSERT (assert_on bc) (cache_block_ok_unbounded bc tmp);
       if bcb_sector (blk bc b) < bcb_sector (blk bc tmp) then
         map_option (\<lambda>l'. Node l' tmp r) (rb_link bc b l)
       else if bcb_sector (blk bc b) > bcb_sector (blk bc tmp) then
         map_option (\<lambda>r'. Node l tmp r') (rb_link bc b r)
       else
         map_option (\<lambda>l'. Node l' tmp r) (rb_link bc b l)
     }"

definition cache_rb_insert :: "bittern_cache \<Rightarrow> nat \<Rightarrow> bittern_cache option" where
  "cache_rb_insert bc b =
     do {
       ASSERT (assert_on bc) (bittern_cache_ok_unsized bc);
       ASSERT (assert_on bc) (cache_block_ok_unbounded bc b);
       t \<leftarrow> rb_link bc b (bc_rb_root bc);
       let bc = bc\<lparr> bc_rb_root := rb_insert_color (bc_env bc) t \<rparr>;
       ASSERT (assert_on bc) (b \<in> set_tree (bc_rb_root bc));
       ASSERT (assert_on bc) (bc_rb_root bc \<noteq> Leaf);
       Some bc
     }"

definition cache_rb_remove :: "bittern_cache \<Rightarrow> nat \<Rightarrow> bittern_cache option" where
  "cache_rb_remove bc b =
     do {
       ASSERT (assert_on bc) (bittern_cache_ok_unsized bc);
       ASSERT (assert_on bc) (cache_block_ok_unbounded bc b);
       ASSERT (assert_on bc) (b \<in> set_tree (bc_rb_root bc));
       ASSERT (assert_on bc) (bc_rb_root bc \<noteq> Leaf);
       Some (bc\<lparr> bc_rb_root := rb_erase (bc_env bc) b (bc_rb_root bc) \<rparr>)
     }"

text \<open>
  The traversal: the kernel's \<open>rb_first\<close>, \<open>rb_last\<close>, \<open>rb_next\<close> and \<open>rb_prev\<close> follow the sort
  order of the tree, which is its in-order sequence.
\<close>

fun list_next :: "nat \<Rightarrow> nat list \<Rightarrow> nat option" where
  "list_next b [] = None"
| "list_next b [x] = None"
| "list_next b (x # y # ys) = (if x = b then Some y else list_next b (y # ys))"

definition cache_rb_first :: "bittern_cache \<Rightarrow> nat option option" where
  "cache_rb_first bc =
     do {
       ASSERT (assert_on bc) (bittern_cache_ok_unsized bc);
       Some (case inorder (bc_rb_root bc) of [] \<Rightarrow> None | b # _ \<Rightarrow> Some b)
     }"

definition cache_rb_last :: "bittern_cache \<Rightarrow> nat option option" where
  "cache_rb_last bc =
     do {
       ASSERT (assert_on bc) (bittern_cache_ok_unsized bc);
       Some (case rev (inorder (bc_rb_root bc)) of [] \<Rightarrow> None | b # _ \<Rightarrow> Some b)
     }"

definition cache_rb_next :: "bittern_cache \<Rightarrow> nat \<Rightarrow> nat option option" where
  "cache_rb_next bc b =
     do {
       ASSERT (assert_on bc) (bittern_cache_ok_unsized bc);
       ASSERT (assert_on bc) (cache_block_ok_unbounded bc b);
       ASSERT (assert_on bc) (b \<in> set_tree (bc_rb_root bc));
       Some (list_next b (inorder (bc_rb_root bc)))
     }"

definition cache_rb_prev :: "bittern_cache \<Rightarrow> nat \<Rightarrow> nat option option" where
  "cache_rb_prev bc b =
     do {
       ASSERT (assert_on bc) (bittern_cache_ok_unsized bc);
       ASSERT (assert_on bc) (cache_block_ok_unbounded bc b);
       ASSERT (assert_on bc) (b \<in> set_tree (bc_rb_root bc));
       Some (list_next b (rev (inorder (bc_rb_root bc))))
     }"

section \<open>The walk and the link\<close>

abbreviation sector_of :: "bittern_cache \<Rightarrow> nat \<Rightarrow> sector_t" where
  "sector_of bc b \<equiv> bcb_sector (blk bc b)"

lemma rb_walk_correct:
  assumes "sorted (map (sector_of bc) (inorder t))"
    and "\<And>b. b \<in> set_tree t \<Longrightarrow> cache_block_ok_unbounded bc b"
  shows "\<exists>r c. rb_walk bc s t cc = Some (r, c) \<and>
    (case r of Some b \<Rightarrow> b \<in> set_tree t \<and> sector_of bc b = s
             | None \<Rightarrow> \<forall>b \<in> set_tree t. sector_of bc b \<noteq> s)"
  using assms
proof (induction t arbitrary: cc)
  case Leaf
  then show ?case by simp
next
  case (Node l n r)
  have sl: "sorted (map (sector_of bc) (inorder l))" and sr: "sorted (map (sector_of bc) (inorder r))"
    and left: "\<And>b. b \<in> set_tree l \<Longrightarrow> sector_of bc b \<le> sector_of bc n"
    and right: "\<And>b. b \<in> set_tree r \<Longrightarrow> sector_of bc n \<le> sector_of bc b"
    using Node.prems(1) by (auto simp: sorted_append)
  consider "s < sector_of bc n" | "s > sector_of bc n" | "s = sector_of bc n"
    using less_linear by blast
  then show ?case
  proof cases
    case 1
    with Node.IH(1) [OF sl, of "cc + 1"] Node.prems(2) right show ?thesis
      by (fastforce split: option.splits)
  next
    case 2
    with Node.IH(2) [OF sr, of "cc + 1"] Node.prems(2) left show ?thesis
      by (fastforce split: option.splits)
  qed (use Node.prems(2) in auto)
qed

lemma insort_key_append_left:
  "f x \<le> f n \<Longrightarrow> insort_key f x (l @ n # r) = insort_key f x l @ n # r"
  by (induction l) auto

lemma insort_key_append_right:
  "\<forall>y \<in> set l. f y < f x \<Longrightarrow> f n < f x \<Longrightarrow>
   insort_key f x (l @ n # r) = l @ n # insort_key f x r"
  by (induction l) auto

lemma rb_link_correct:
  assumes "sorted (map (sector_of bc) (inorder t))"
    and "\<And>c. c \<in> set_tree t \<Longrightarrow> cache_block_ok_unbounded bc c" "cache_block_ok_unbounded bc b"
  shows "\<exists>t'. rb_link bc b t = Some t' \<and> inorder t' = insort_key (sector_of bc) b (inorder t)"
  using assms(1,2)
proof (induction t)
  case Leaf
  then show ?case by simp
next
  case (Node l n r)
  have sl: "sorted (map (sector_of bc) (inorder l))" and sr: "sorted (map (sector_of bc) (inorder r))"
    and left: "\<And>c. c \<in> set (inorder l) \<Longrightarrow> sector_of bc c \<le> sector_of bc n"
    using Node.prems(1) by (auto simp: sorted_append)
  have ok: "cache_block_ok_unbounded bc n" using Node.prems(2) by simp
  from Node.IH(1) [OF sl] Node.prems(2) obtain l' where
    l': "rb_link bc b l = Some l'" "inorder l' = insort_key (sector_of bc) b (inorder l)" by auto
  from Node.IH(2) [OF sr] Node.prems(2) obtain r' where
    r': "rb_link bc b r = Some r'" "inorder r' = insort_key (sector_of bc) b (inorder r)" by auto
  show ?case
  proof (cases "sector_of bc n < sector_of bc b")
    case True
    then have "\<forall>c \<in> set (inorder l). sector_of bc c < sector_of bc b"
      using left by (meson le_less_trans)
    from insort_key_append_right [OF this True] True ok assms(3) r' show ?thesis
      by auto
  next
    case False
    with ok assms(3) l' show ?thesis
      by (auto simp: insort_key_append_left)
  qed
qed

section \<open>The index as a sorted multimap\<close>

text \<open>The contract of an index: what a lookup finds and what insertion and removal change.\<close>

locale sector_index =
  fixes lookup :: "'s \<Rightarrow> 'k::linorder \<Rightarrow> ('v option \<times> 's) option"
    and insert_entry :: "'s \<Rightarrow> 'v \<Rightarrow> 's option"
    and remove_entry :: "'s \<Rightarrow> 'v \<Rightarrow> 's option"
    and entries :: "'s \<Rightarrow> 'v list"
    and key :: "'s \<Rightarrow> 'v \<Rightarrow> 'k"
    and usable :: "'s \<Rightarrow> 'v \<Rightarrow> bool"
    and invar :: "'s \<Rightarrow> bool"
  assumes lookup_spec: "invar s \<Longrightarrow>
      \<exists>r t. lookup s k = Some (r, t) \<and> invar t \<and> entries t = entries s \<and> key t = key s \<and>
        (case r of Some v \<Rightarrow> v \<in> set (entries s) \<and> key s v = k
                 | None \<Rightarrow> k \<notin> key s ` set (entries s))"
    and insert_spec: "invar s \<Longrightarrow> usable s v \<Longrightarrow> v \<notin> set (entries s) \<Longrightarrow>
      \<exists>t. insert_entry s v = Some t \<and> invar t \<and> key t = key s \<and> usable t = usable s \<and>
        entries t = insort_key (key s) v (entries s)"
    and remove_spec: "invar s \<Longrightarrow> v \<in> set (entries s) \<Longrightarrow>
      \<exists>t. remove_entry s v = Some t \<and> invar t \<and> key t = key s \<and> usable t = usable s \<and>
        entries t = remove1 v (entries s)"
    and invar_distinct: "invar s \<Longrightarrow> distinct (entries s)"
    and invar_sorted: "invar s \<Longrightarrow> sorted (map (key s) (entries s))"
begin

text \<open>The blocks indexed under a sector.\<close>

definition found_at :: "'s \<Rightarrow> 'k \<Rightarrow> 'v set" where
  "found_at s k = {v \<in> set (entries s). key s v = k}"

lemma lookup_found:
  assumes "invar s"
  shows "\<exists>r t. lookup s k = Some (r, t) \<and>
    (case r of Some v \<Rightarrow> v \<in> found_at s k | None \<Rightarrow> found_at s k = {})"
  using lookup_spec [OF assms, of k] by (fastforce simp: found_at_def split: option.splits)

lemma found_at_insert:
  assumes "invar s" "usable s v" "v \<notin> set (entries s)" "insert_entry s v = Some t"
  shows "found_at t k = (if k = key s v then insert v (found_at s k) else found_at s k)"
  using insert_spec [OF assms(1-3)] assms(4) by (auto simp: found_at_def set_insort_key)

lemma found_at_remove:
  assumes "invar s" "v \<in> set (entries s)" "remove_entry s v = Some t"
  shows "found_at t k = found_at s k - {v}"
  using remove_spec [OF assms(1,2)] assms(3) invar_distinct [OF assms(1)]
  by (auto simp: found_at_def set_remove1_eq)

lemma remove_insert:
  assumes "invar s" "usable s v" "v \<notin> set (entries s)" "insert_entry s v = Some t"
  shows "\<exists>u. remove_entry t v = Some u \<and> entries u = entries s"
  using insert_spec [OF assms(1-3)] assms(3,4) remove_spec [of t v]
  by (auto simp: set_insort_key remove1_insort_key)

end

definition rb_inv :: "bittern_cache \<Rightarrow> bool" where
  "rb_inv bc \<longleftrightarrow>
     rbtree_kernel (bc_env bc) \<and> bittern_cache_ok_unsized bc \<and>
     distinct (inorder (bc_rb_root bc)) \<and>
     sorted (map (sector_of bc) (inorder (bc_rb_root bc))) \<and>
     (\<forall>b \<in> set (inorder (bc_rb_root bc)). cache_block_ok_unbounded bc b)"

lemma rb_inv_upd_stats [simp]: "rb_inv (upd_stats f bc) = rb_inv bc"
  by (simp add: rb_inv_def bittern_cache_ok_unsized_def cache_block_ok_unbounded_def)

lemma rb_inv_root_update:
  "rbtree_kernel (bc_env bc) \<Longrightarrow> bittern_cache_ok_unsized bc \<Longrightarrow> distinct (inorder t) \<Longrightarrow>
   sorted (map (sector_of bc) (inorder t)) \<Longrightarrow>
   (\<And>b. b \<in> set (inorder t) \<Longrightarrow> cache_block_ok_unbounded bc b) \<Longrightarrow>
   rb_inv (bc\<lparr> bc_rb_root := t \<rparr>)"
  by (simp add: rb_inv_def bittern_cache_ok_unsized_def cache_block_ok_unbounded_def)

lemma rb_lookup_spec:
  assumes "rb_inv bc"
  shows "\<exists>r bc'. cache_rb_lookup bc k = Some (r, bc') \<and> rb_inv bc' \<and>
    inorder (bc_rb_root bc') = inorder (bc_rb_root bc) \<and> sector_of bc' = sector_of bc \<and>
    (case r of Some v \<Rightarrow> v \<in> set (inorder (bc_rb_root bc)) \<and> sector_of bc v = k
             | None \<Rightarrow> k \<notin> sector_of bc ` set (inorder (bc_rb_root bc)))"
proof -
  from assms rb_walk_correct [of bc "bc_rb_root bc" k 0]
  obtain r c where walk: "rb_walk bc k (bc_rb_root bc) 0 = Some (r, c)"
    and r: "case r of Some b \<Rightarrow> b \<in> set_tree (bc_rb_root bc) \<and> sector_of bc b = k
             | None \<Rightarrow> \<forall>b \<in> set_tree (bc_rb_root bc). sector_of bc b \<noteq> k"
    by (auto simp: rb_inv_def)
  have "bittern_cache_ok_unsized bc" using assms by (simp add: rb_inv_def)
  with assms walk r show ?thesis
    by (auto simp: cache_rb_lookup_def split: option.splits)
qed

lemma rb_insert_spec:
  assumes "rb_inv bc" "cache_block_ok_unbounded bc v" "v \<notin> set (inorder (bc_rb_root bc))"
  shows "\<exists>t. cache_rb_insert bc v = Some (bc\<lparr> bc_rb_root := t \<rparr>) \<and> rb_inv (bc\<lparr> bc_rb_root := t \<rparr>) \<and>
    inorder t = insort_key (sector_of bc) v (inorder (bc_rb_root bc))"
proof -
  let ?l = "inorder (bc_rb_root bc)"
  from assms rb_link_correct [of bc "bc_rb_root bc" v]
  obtain t where t: "rb_link bc v (bc_rb_root bc) = Some t" "inorder t = insort_key (sector_of bc) v ?l"
    by (auto simp: rb_inv_def)
  let ?u = "rb_insert_color (bc_env bc) t"
  have u: "inorder ?u = insort_key (sector_of bc) v ?l"
    using assms(1) t by (simp add: rb_inv_def rbtree_kernel_def)
  then have "v \<in> set_tree ?u"
    by (metis insertI1 set_inorder set_insort_key)
  moreover from this have "?u \<noteq> Leaf" by auto
  moreover have "rb_inv (bc\<lparr> bc_rb_root := ?u \<rparr>)"
    using assms u
    by (intro rb_inv_root_update)
      (auto simp: rb_inv_def distinct_insort sorted_insort_key set_insort_key)
  moreover have "bittern_cache_ok_unsized bc" using assms(1) by (simp add: rb_inv_def)
  ultimately show ?thesis
    using assms t u by (intro exI [of _ ?u]) (simp add: cache_rb_insert_def)
qed

lemma rb_remove_spec:
  assumes "rb_inv bc" "v \<in> set (inorder (bc_rb_root bc))"
  shows "\<exists>t. cache_rb_remove bc v = Some (bc\<lparr> bc_rb_root := t \<rparr>) \<and> rb_inv (bc\<lparr> bc_rb_root := t \<rparr>) \<and>
    inorder t = remove1 v (inorder (bc_rb_root bc))"
proof -
  let ?u = "rb_erase (bc_env bc) v (bc_rb_root bc)"
  have u: "inorder ?u = remove1 v (inorder (bc_rb_root bc))"
    using assms(1) by (simp add: rb_inv_def rbtree_kernel_def)
  moreover have "rb_inv (bc\<lparr> bc_rb_root := ?u \<rparr>)"
    using assms(1) u
    by (intro rb_inv_root_update)
      (auto simp: rb_inv_def distinct_remove1 sorted_map_remove1 dest: notin_set_remove1)
  moreover have "bittern_cache_ok_unsized bc" "cache_block_ok_unbounded bc v"
    using assms by (simp_all add: rb_inv_def)
  moreover have "bc_rb_root bc \<noteq> Leaf" using assms(2) by auto
  ultimately show ?thesis
    using assms u by (intro exI [of _ ?u]) (simp add: cache_rb_remove_def)
qed

interpretation rbi: sector_index cache_rb_lookup cache_rb_insert cache_rb_remove
  "\<lambda>bc. inorder (bc_rb_root bc)" sector_of cache_block_ok_unbounded rb_inv
proof (standard, goal_cases)
  case (1 s k)
  then show ?case using rb_lookup_spec by blast
next
  case (2 s v)
  then show ?case
    using rb_insert_spec [of s v] by (force simp: cache_block_ok_unbounded_def fun_eq_iff)
next
  case (3 s v)
  then show ?case
    using rb_remove_spec [of s v] by (force simp: cache_block_ok_unbounded_def fun_eq_iff)
qed (simp_all add: rb_inv_def)

end
