(* ===== verification/Cache_Getput.thy ===== *)
theory Cache_Getput
  imports Cache_Redblack
begin

unbundle bit_operations_syntax

text \<open>
  Looking up, allocating and releasing cache blocks (\<open>bittern_cache_getput.c\<close>).  Every operation
  runs under the lock of the cache, so it is one step on the state; the random number, the time
  and the block a caller passes are arguments.  The lemmas show that the operations keep the
  invariant of the cache, that no assertion of either build fails in them, and what each branch
  returns.
\<close>

section \<open>Operations\<close>

definition CACHE_FL_HIT :: int where "CACHE_FL_HIT = 1"
definition CACHE_FL_MISS :: int where "CACHE_FL_MISS = 2"
definition CACHE_FL_CLEAN :: int where "CACHE_FL_CLEAN = 4"
definition CACHE_FL_DIRTY :: int where "CACHE_FL_DIRTY = 8"

definition CACHE_FL_MASK :: int where
  "CACHE_FL_MASK = CACHE_FL_HIT OR CACHE_FL_MISS OR CACHE_FL_CLEAN OR CACHE_FL_DIRTY"

definition CACHE_FL_CLEANDIRTY_MASK :: int where
  "CACHE_FL_CLEANDIRTY_MASK = CACHE_FL_CLEAN OR CACHE_FL_DIRTY"

lemmas cache_fl_defs =
  CACHE_FL_HIT_def CACHE_FL_MISS_def CACHE_FL_CLEAN_def CACHE_FL_DIRTY_def CACHE_FL_MASK_def
  CACHE_FL_CLEANDIRTY_MASK_def

definition CACHE_REPLACEMENT_MODE_RANDOM_MAX_SCANS :: nat where
  "CACHE_REPLACEMENT_MODE_RANDOM_MAX_SCANS = 100"

definition cache_get_ret_to_str :: "cache_get_ret \<Rightarrow> string" where
  "cache_get_ret_to_str ret =
     (case ret of
        CACHE_GET_RET_HIT_IDLE \<Rightarrow> ''CACHE_GET_RET_HIT_IDLE''
      | CACHE_GET_RET_HIT_BUSY \<Rightarrow> ''CACHE_GET_RET_HIT_BUSY''
      | CACHE_GET_RET_MISS_INVALID_IDLE \<Rightarrow> ''CACHE_GET_RET_INVALID_IDLE''
      | CACHE_GET_RET_MISS \<Rightarrow> ''CACHE_GET_RET_MISS''
      | CACHE_GET_RET_INVALID \<Rightarrow> ''CACHE_GET_RET_INVALID'')"

definition cache_block_pseudo_random :: "u32 \<Rightarrow> u32" where
  "cache_block_pseudo_random previous_pseudo_random =
     (previous_pseudo_random * 1103515245 + 12345) mod 0x7fffffff"

definition random_cache_block_id :: "bittern_cache \<Rightarrow> u32 \<Rightarrow> nat" where
  "random_cache_block_id bc random_value = unat random_value mod bc_total_entries bc + 1"

text \<open>The scan for a random clean block: at most the given number of blocks is tried.\<close>

fun cache_get_clean_random ::
  "nat \<Rightarrow> bittern_cache \<Rightarrow> u32 \<Rightarrow> nat \<Rightarrow> (nat option \<times> bittern_cache) option" where
  "cache_get_clean_random 0 bc random_value b = Some (None, bc)"
| "cache_get_clean_random (Suc scans) bc random_value b =
     do {
       ASSERT (assert_on bc) (bcb_block_id (blk bc b) = b);
       (block_hold_ret, bc) \<leftarrow> cache_block_hold bc b;
       if block_hold_ret = 1 \<and> bcb_state (blk bc b) = S_CLEAN then
         Some (Some b, upd_stats (\<lambda>st. st\<lparr>
           bc_invalidations := bc_invalidations st + 1,
           bc_idle_invalidations := bc_idle_invalidations st + 1 \<rparr>) bc)
       else do {
         (_, bc) \<leftarrow> cache_block_release bc b;
         let random_value = cache_block_pseudo_random random_value;
         let b = random_cache_block_id bc random_value;
         ASSERT (assert_on bc) (b > 0);
         ASSERT (assert_on bc) (b \<le> bc_total_entries bc);
         cache_get_clean_random scans bc random_value b
       }
     }"

definition cache_get_clean_fifo_lru ::
  "bittern_cache \<Rightarrow> (nat option \<times> bittern_cache) option" where
  "cache_get_clean_fifo_lru bc =
     (case bc_valid_entries_list bc of
        [] \<Rightarrow> Some (None, bc)
      | b # _ \<Rightarrow>
          do {
            ASSERT_CACHE_BLOCK b bc;
            (block_hold_ret, bc) \<leftarrow> cache_block_hold bc b;
            if block_hold_ret = 1 \<and> bcb_state (blk bc b) = S_CLEAN then
              Some (Some b, upd_stats (\<lambda>st. st\<lparr>
                bc_invalidations := bc_invalidations st + 1,
                bc_idle_invalidations := bc_idle_invalidations st + 1 \<rparr>) bc)
            else do {
              (_, bc) \<leftarrow> cache_block_release bc b;
              Some (None, bc)
            }
          })"

text \<open>The last resort: the head of the clean list.\<close>

definition cache_get_clean_last_resort ::
  "bittern_cache \<Rightarrow> (nat option \<times> bittern_cache) option" where
  "cache_get_clean_last_resort bc =
     (case bc_valid_entries_clean_list bc of
        [] \<Rightarrow>
          do {
            let bc = upd_stats (\<lambda>st. st\<lparr> bc_no_invalidations_all_blocks_busy :=
              bc_no_invalidations_all_blocks_busy st + 1 \<rparr>) bc;
            ASSERT_BITTERN_CACHE bc;
            Some (None, bc)
          }
      | b # _ \<Rightarrow>
          do {
            ASSERT_CACHE_BLOCK b bc;
            (block_hold_ret, bc) \<leftarrow> cache_block_hold bc b;
            if block_hold_ret = 1 \<and> bcb_state (blk bc b) = S_CLEAN then
              Some (Some b, upd_stats (\<lambda>st. st\<lparr>
                bc_invalidations := bc_invalidations st + 1,
                bc_busy_invalidations := bc_busy_invalidations st + 1 \<rparr>) bc)
            else do {
              (_, bc) \<leftarrow> cache_block_release bc b;
              let bc = upd_stats (\<lambda>st. st\<lparr> bc_no_invalidations_all_blocks_busy :=
                bc_no_invalidations_all_blocks_busy st + 1 \<rparr>) bc;
              ASSERT_BITTERN_CACHE bc;
              Some (None, bc)
            }
          })"

text \<open>The attempt that the replacement mode asks for.\<close>

definition cache_get_clean_by_mode ::
  "bittern_cache \<Rightarrow> u32 \<Rightarrow> (nat option \<times> bittern_cache) option" where
  "cache_get_clean_by_mode bc random_int =
     (if bc_replacement_mode bc = CACHE_REPLACEMENT_MODE_RANDOM then
        do {
          let b = random_cache_block_id bc random_int;
          ASSERT (assert_on bc) (b > 0);
          ASSERT (assert_on bc) (b \<le> bc_total_entries bc);
          cache_get_clean_random CACHE_REPLACEMENT_MODE_RANDOM_MAX_SCANS bc random_int b
        }
      else if bc_replacement_mode bc = CACHE_REPLACEMENT_MODE_FIFO \<or>
              bc_replacement_mode bc = CACHE_REPLACEMENT_MODE_LRU then
        cache_get_clean_fifo_lru bc
      else Some (None, bc))"

definition cache_get_clean ::
  "bittern_cache \<Rightarrow> u32 \<Rightarrow> ((cache_get_ret \<times> nat option) \<times> bittern_cache) option" where
  "cache_get_clean bc random_int =
     do {
       ASSERT_BITTERN_CACHE bc;
       ASSERT (assert_on bc) (cache_replacement_mode_ok (bc_replacement_mode bc));
       (cache_block, bc) \<leftarrow> cache_get_clean_by_mode bc random_int;
       (cache_block, bc) \<leftarrow>
         (case cache_block of
            Some b \<Rightarrow> Some (Some b, bc)
          | None \<Rightarrow> cache_get_clean_last_resort bc);
       (case cache_block of
          None \<Rightarrow> Some ((CACHE_GET_RET_MISS, None), bc)
        | Some b \<Rightarrow>
            do {
              ASSERT (assert_on bc) (bcb_state (blk bc b) = S_CLEAN);
              ASSERT (assert_on bc) (bcb_refcount (blk bc b) > 0);
              Some ((CACHE_GET_RET_HIT_IDLE, Some b), bc)
            })
     }"

definition cache_get_invalid_block_locked ::
  "bittern_cache \<Rightarrow> sector_t \<Rightarrow> int \<Rightarrow> u32
     \<Rightarrow> ((cache_get_ret \<times> nat option) \<times> bittern_cache) option" where
  "cache_get_invalid_block_locked bc cache_block_sector cleandirty_iflag now =
     do {
       ASSERT_BITTERN_CACHE bc;
       ASSERT (assert_on bc)
         (cleandirty_iflag = CACHE_FL_CLEAN \<or> cleandirty_iflag = CACHE_FL_DIRTY);
       ASSERT (assert_on bc)
         (cache_block_sector = sector_to_cache_block_sector cache_block_sector);
       (case bc_invalid_entries_list bc of
          [] \<Rightarrow>
            do {
              ASSERT_BITTERN_CACHE bc;
              Some ((CACHE_GET_RET_MISS, None), bc)
            }
        | b # _ \<Rightarrow>
            do {
              ASSERT_CACHE_BLOCK b bc;
              (block_hold_ret, bc) \<leftarrow> cache_block_hold bc b;
              if block_hold_ret = 1 then
                do {
                  ASSERT (assert_on bc) (bcb_cache_transition (blk bc b) = TS_NONE);
                  ASSERT (assert_on bc) (bcb_state (blk bc b) = S_INVALID);
                  ASSERT (assert_on bc) (bcb_refcount (blk bc b) > 0);
                  ASSERT (assert_on bc) (is_sector_number_invalid (bcb_sector (blk bc b)));
                  let bc = upd_block (\<lambda>c. c\<lparr> bcb_sector := cache_block_sector,
                    bcb_state := (if cleandirty_iflag = CACHE_FL_CLEAN
                                  then S_CLEAN_NO_DATA else S_DIRTY_NO_DATA) \<rparr>) b bc;
                  ASSERT (assert_on bc) (is_sector_number_valid (bcb_sector (blk bc b)));
                  bc \<leftarrow> cache_rb_insert bc b;
                  let bc = bc\<lparr> bc_valid_entries := bc_valid_entries bc + 1 \<rparr>;
                  let bc = (if cleandirty_iflag = CACHE_FL_CLEAN
                            then bc\<lparr> bc_valid_entries_clean := bc_valid_entries_clean bc + 1 \<rparr>
                            else bc\<lparr> bc_valid_entries_dirty := bc_valid_entries_dirty bc + 1 \<rparr>);
                  let bc = bc\<lparr> bc_invalid_entries := bc_invalid_entries bc - 1 \<rparr>;
                  M_ASSERT (bc_invalid_entries bc \<ge> 0);
                  M_ASSERT (bc_valid_entries_dirty bc \<le> int (bc_total_entries bc));
                  M_ASSERT (bc_valid_entries_clean bc \<le> int (bc_total_entries bc));
                  M_ASSERT (bc_valid_entries bc \<le> int (bc_total_entries bc));
                  M_ASSERT (bc_invalid_entries bc \<le> int (bc_total_entries bc));
                  let bc = add_tail_valid b (list_del_entry b bc);
                  let bc = list_del_entry_cleandirty b bc;
                  let bc = (if bcb_state (blk bc b) = S_CLEAN_NO_DATA
                            then add_tail_clean b bc else add_tail_dirty b bc);
                  let bc = upd_block (\<lambda>c. c\<lparr> bcb_last_modify := now \<rparr>) b bc;
                  ASSERT_CACHE_BLOCK b bc;
                  ASSERT_BITTERN_CACHE bc;
                  Some ((CACHE_GET_RET_MISS_INVALID_IDLE, Some b), bc)
                }
              else
                do {
                  (_, bc) \<leftarrow> cache_block_release bc b;
                  let bc = upd_stats (\<lambda>st. st\<lparr> bc_invalid_blocks_busy :=
                    bc_invalid_blocks_busy st + 1 \<rparr>) bc;
                  ASSERT_BITTERN_CACHE bc;
                  Some ((CACHE_GET_RET_MISS, None), bc)
                }
            })
     }"

definition cache_get_invalid_block ::
  "bittern_cache \<Rightarrow> sector_t \<Rightarrow> int \<Rightarrow> u32
     \<Rightarrow> ((cache_get_ret \<times> nat option) \<times> bittern_cache) option" where
  "cache_get_invalid_block bc cache_block_sector cleandirty_iflag now =
     do {
       ASSERT_BITTERN_CACHE bc;
       cache_get_invalid_block_locked bc cache_block_sector cleandirty_iflag now
     }"

text \<open>A lookup hit, from the block that the index returned.\<close>

definition cache_get_hit ::
  "bittern_cache \<Rightarrow> sector_t \<Rightarrow> nat
     \<Rightarrow> ((cache_get_ret \<times> nat option) \<times> bittern_cache) option" where
  "cache_get_hit bc cache_block_sector b =
     do {
       ASSERT_CACHE_BLOCK b bc;
       ASSERT_BITTERN_CACHE bc;
       ASSERT (assert_on bc) (bcb_state (blk bc b) \<noteq> S_INVALID);
       ASSERT (assert_on bc) (cache_block_sector = bcb_sector (blk bc b));
       (block_hold_ret, bc) \<leftarrow> cache_block_hold bc b;
       if block_hold_ret = 1 then
         do {
           ASSERT (assert_on bc) (bcb_cache_transition (blk bc b) = TS_NONE);
           ASSERT (assert_on bc) (bcb_state (blk bc b) = S_CLEAN \<or> bcb_state (blk bc b) = S_DIRTY);
           ASSERT (assert_on bc) (bcb_refcount (blk bc b) > 0);
           ASSERT (assert_on bc) (is_sector_number_valid (bcb_sector (blk bc b)));
           let bc = (if bc_replacement_mode bc = CACHE_REPLACEMENT_MODE_LRU
                     then add_tail_valid b (list_del_entry b bc) else bc);
           let bc = list_del_entry_cleandirty b bc;
           let bc = (if bcb_state (blk bc b) = S_CLEAN
                     then add_tail_clean b bc else add_tail_dirty b bc);
           ASSERT_CACHE_BLOCK b bc;
           ASSERT_BITTERN_CACHE bc;
           Some ((CACHE_GET_RET_HIT_IDLE, Some b), bc)
         }
       else
         do {
           (_, bc) \<leftarrow> cache_block_release bc b;
           Some ((CACHE_GET_RET_HIT_BUSY, None), bc)
         }
     }"

definition cache_get ::
  "bittern_cache \<Rightarrow> sector_t \<Rightarrow> int \<Rightarrow> u32
     \<Rightarrow> ((cache_get_ret \<times> nat option) \<times> bittern_cache) option" where
  "cache_get bc cache_block_sector iflags now =
     do {
       let cleandirty_iflag = iflags AND CACHE_FL_CLEANDIRTY_MASK;
       ASSERT_BITTERN_CACHE bc;
       let cache_block_sector = sector_to_cache_block_sector cache_block_sector;
       ASSERT (assert_on bc) (cache_replacement_mode_ok (bc_replacement_mode bc));
       ASSERT (assert_on bc) (iflags AND NOT CACHE_FL_MASK = 0);
       ASSERT (assert_on bc) (iflags AND CACHE_FL_HIT \<noteq> 0);
       (if iflags AND CACHE_FL_MISS \<noteq> 0 then
          ASSERT (assert_on bc)
            (cleandirty_iflag = CACHE_FL_CLEAN \<or> cleandirty_iflag = CACHE_FL_DIRTY)
        else ASSERT (assert_on bc) (cleandirty_iflag = 0));
       (cache_block, bc) \<leftarrow> cache_rb_lookup bc cache_block_sector;
       ASSERT_BITTERN_CACHE bc;
       (case cache_block of
          Some b \<Rightarrow> cache_get_hit bc cache_block_sector b
        | None \<Rightarrow>
            if iflags AND CACHE_FL_MISS = 0 then Some ((CACHE_GET_RET_MISS, None), bc)
            else
              do {
                ASSERT_BITTERN_CACHE bc;
                ((ret, cache_block), bc) \<leftarrow>
                  cache_get_invalid_block_locked bc cache_block_sector cleandirty_iflag now;
                ASSERT (assert_on bc)
                  (ret = CACHE_GET_RET_MISS_INVALID_IDLE \<or> ret = CACHE_GET_RET_MISS);
                if ret = CACHE_GET_RET_MISS_INVALID_IDLE then
                  do {
                    let bc = upd_stats (\<lambda>st. st\<lparr> bc_invalidations_map :=
                      bc_invalidations_map st + 1 \<rparr>) bc;
                    ASSERT (assert_on bc) (cache_block \<noteq> None);
                    Some ((ret, cache_block), bc)
                  }
                else
                  do {
                    ASSERT (assert_on bc) (cache_block = None);
                    ASSERT_BITTERN_CACHE bc;
                    Some ((CACHE_GET_RET_MISS, None), bc)
                  }
              })
     }"

definition cache_get_dirty_from_head ::
  "bittern_cache \<Rightarrow> int \<Rightarrow> u32 \<Rightarrow> ((int \<times> nat option) \<times> bittern_cache) option" where
  "cache_get_dirty_from_head bc requested_block_age now =
     do {
       ASSERT_BITTERN_CACHE bc;
       ASSERT (assert_on bc) (requested_block_age \<ge> 0);
       (case bc_valid_entries_dirty_list bc of
          [] \<Rightarrow> Some ((- EAGAIN, None), bc)
        | b # _ \<Rightarrow>
            do {
              ASSERT_CACHE_BLOCK b bc;
              ASSERT_BITTERN_CACHE bc;
              (block_hold_ret, bc) \<leftarrow> cache_block_hold bc b;
              if block_hold_ret = 1 \<and> bcb_state (blk bc b) = S_DIRTY then
                do {
                  let block_age_secs = now - bcb_last_modify (blk bc b);
                  if block_age_secs < of_int requested_block_age then
                    do {
                      (_, bc) \<leftarrow> cache_block_release bc b;
                      Some ((- ETIME, None), bc)
                    }
                  else
                    do {
                      ASSERT (assert_on bc) (bcb_state (blk bc b) = S_DIRTY);
                      ASSERT (assert_on bc) (bcb_refcount (blk bc b) > 0);
                      Some ((0, Some b), bc)
                    }
                }
              else
                do {
                  (_, bc) \<leftarrow> cache_block_release bc b;
                  Some ((- EBUSY, None), bc)
                }
            })
     }"

definition cache_get_clone ::
  "bittern_cache \<Rightarrow> nat \<Rightarrow> bool \<Rightarrow> u32
     \<Rightarrow> ((cache_get_ret \<times> nat option) \<times> bittern_cache) option" where
  "cache_get_clone bc original_cache_block is_dirty now =
     do {
       ASSERT_BITTERN_CACHE bc;
       ASSERT_CACHE_BLOCK original_cache_block bc;
       let cache_fl = (if is_dirty then CACHE_FL_DIRTY else CACHE_FL_CLEAN);
       ((ret, cache_block), bc) \<leftarrow>
         cache_get_invalid_block bc (bcb_sector (blk bc original_cache_block)) cache_fl now;
       ASSERT (assert_on bc) (ret = CACHE_GET_RET_MISS_INVALID_IDLE \<or> ret = CACHE_GET_RET_MISS);
       if ret = CACHE_GET_RET_MISS_INVALID_IDLE then
         do {
           ASSERT (assert_on bc) (cache_block \<noteq> None);
           Some ((ret, cache_block), upd_stats (\<lambda>st. st\<lparr> bc_dirty_write_clone_alloc_ok :=
             bc_dirty_write_clone_alloc_ok st + 1 \<rparr>) bc)
         }
       else
         do {
           ASSERT (assert_on bc) (cache_block = None);
           Some ((ret, cache_block), upd_stats (\<lambda>st. st\<lparr> bc_dirty_write_clone_alloc_fail :=
             bc_dirty_write_clone_alloc_fail st + 1 \<rparr>) bc)
         }
     }"

definition cache_get_by_id ::
  "bittern_cache \<Rightarrow> nat \<Rightarrow> ((cache_get_ret \<times> nat option) \<times> bittern_cache) option" where
  "cache_get_by_id bc cache_block_id =
     do {
       ASSERT_BITTERN_CACHE bc;
       ASSERT (assert_on bc) (cache_block_id > 0);
       ASSERT (assert_on bc) (cache_block_id \<le> bc_total_entries bc);
       let b = cache_block_id;
       ASSERT (assert_on bc) (bcb_block_id (blk bc b) = cache_block_id);
       ASSERT_CACHE_BLOCK b bc;
       (block_hold_ret, bc) \<leftarrow> cache_block_hold bc b;
       if block_hold_ret = 1 then
         if bcb_state (blk bc b) = S_INVALID then
           do {
             (_, bc) \<leftarrow> cache_block_release bc b;
             Some ((CACHE_GET_RET_INVALID, None), bc)
           }
         else
           do {
             ASSERT (assert_on bc) (bcb_cache_transition (blk bc b) = TS_NONE);
             ASSERT (assert_on bc)
               (bcb_state (blk bc b) = S_CLEAN \<or> bcb_state (blk bc b) = S_DIRTY);
             ASSERT (assert_on bc) (bcb_refcount (blk bc b) > 0);
             Some ((CACHE_GET_RET_HIT_IDLE, Some b), bc)
           }
       else
         do {
           (_, bc) \<leftarrow> cache_block_release bc b;
           Some ((CACHE_GET_RET_HIT_BUSY, None), bc)
         }
     }"

definition cache_put_gen ::
  "bittern_cache \<Rightarrow> nat \<Rightarrow> bool \<Rightarrow> bool \<Rightarrow> u32 \<Rightarrow> bittern_cache option" where
  "cache_put_gen bc b is_owner update_age now =
     do {
       ASSERT_BITTERN_CACHE bc;
       ASSERT_CACHE_BLOCK b bc;
       (if is_owner then
          do {
            ASSERT (assert_on bc) (bcb_cache_transition (blk bc b) = TS_NONE);
            ASSERT (assert_on bc)
              (bcb_state (blk bc b) = S_INVALID \<or> bcb_state (blk bc b) = S_CLEAN \<or>
               bcb_state (blk bc b) = S_DIRTY)
          }
        else Some ());
       let bc = (if update_age then upd_block (\<lambda>c. c\<lparr> bcb_last_modify := now \<rparr>) b bc else bc);
       (_, bc) \<leftarrow> cache_block_release bc b;
       ASSERT_BITTERN_CACHE bc;
       ASSERT_CACHE_BLOCK b bc;
       Some bc
     }"

definition cache_put :: "bittern_cache \<Rightarrow> nat \<Rightarrow> bool \<Rightarrow> bittern_cache option" where
  "cache_put bc b is_owner = cache_put_gen bc b is_owner False 0"

definition cache_put_update_age ::
  "bittern_cache \<Rightarrow> nat \<Rightarrow> bool \<Rightarrow> u32 \<Rightarrow> bittern_cache option" where
  "cache_put_update_age bc b is_owner now = cache_put_gen bc b is_owner True now"

definition cache_move_to_invalid :: "bittern_cache \<Rightarrow> nat \<Rightarrow> bool \<Rightarrow> bittern_cache option" where
  "cache_move_to_invalid bc b is_dirty =
     do {
       ASSERT_BITTERN_CACHE bc;
       ASSERT_CACHE_BLOCK b bc;
       ASSERT (assert_on bc) (cache_block_is_held bc b);
       ASSERT (assert_on bc)
         (bcb_state (blk bc b) \<noteq> S_DIRTY \<and> bcb_state (blk bc b) \<noteq> S_CLEAN \<and>
          bcb_state (blk bc b) \<noteq> S_INVALID);
       bc \<leftarrow> cache_rb_remove bc b;
       let bc = list_del_entry_cleandirty b bc;
       let bc = list_del_entry b bc;
       let bc = upd_block (\<lambda>c. c\<lparr> bcb_hash_data := UINT128_ZERO,
         bcb_sector := SECTOR_NUMBER_INVALID \<rparr>) b bc;
       bc \<leftarrow> cache_state_transition_final bc b TS_NONE S_INVALID;
       let bc = (if is_dirty
                 then bc\<lparr> bc_valid_entries_dirty := bc_valid_entries_dirty bc - 1 \<rparr>
                 else bc\<lparr> bc_valid_entries_clean := bc_valid_entries_clean bc - 1 \<rparr>);
       let bc = bc\<lparr> bc_valid_entries := bc_valid_entries bc - 1 \<rparr>;
       let bc = bc\<lparr> bc_invalid_entries := bc_invalid_entries bc + 1 \<rparr>;
       M_ASSERT (bc_valid_entries_dirty bc \<ge> 0);
       M_ASSERT (bc_valid_entries_clean bc \<ge> 0);
       M_ASSERT (bc_valid_entries bc \<ge> 0);
       M_ASSERT (bc_valid_entries_dirty bc \<le> int (bc_total_entries bc));
       M_ASSERT (bc_valid_entries_clean bc \<le> int (bc_total_entries bc));
       M_ASSERT (bc_valid_entries bc \<le> int (bc_total_entries bc));
       M_ASSERT (bc_invalid_entries bc \<le> int (bc_total_entries bc));
       let bc = add_tail_invalid b (list_del_entry b bc);
       cache_put bc b True
     }"

definition cache_move_to_clean :: "bittern_cache \<Rightarrow> nat \<Rightarrow> bittern_cache option" where
  "cache_move_to_clean bc b =
     do {
       ASSERT_BITTERN_CACHE bc;
       ASSERT_CACHE_BLOCK b bc;
       ASSERT (assert_on bc) (cache_block_is_held bc b);
       ASSERT (assert_on bc)
         (bcb_state (blk bc b) \<noteq> S_DIRTY \<and> bcb_state (blk bc b) \<noteq> S_CLEAN \<and>
          bcb_state (blk bc b) \<noteq> S_INVALID);
       bc \<leftarrow> cache_state_transition_final bc b TS_NONE S_CLEAN;
       let bc = add_tail_clean b (list_del_entry_cleandirty b bc);
       let bc = bc\<lparr> bc_valid_entries_dirty := bc_valid_entries_dirty bc - 1 \<rparr>;
       let bc = bc\<lparr> bc_valid_entries_clean := bc_valid_entries_clean bc + 1 \<rparr>;
       M_ASSERT (bc_valid_entries_dirty bc \<ge> 0);
       M_ASSERT (bc_valid_entries_dirty bc \<le> int (bc_total_entries bc));
       M_ASSERT (bc_valid_entries_clean bc \<le> int (bc_total_entries bc));
       M_ASSERT (bc_valid_entries bc \<le> int (bc_total_entries bc));
       M_ASSERT (bc_invalid_entries bc \<le> int (bc_total_entries bc));
       cache_put bc b True
     }"

section \<open>Facts of the invariant\<close>

lemma inv_ok [simp]: "cache_inv bc \<Longrightarrow> bittern_cache_ok bc"
  by (simp add: cache_inv_def)

lemma inv_block_wf: "cache_inv bc \<Longrightarrow> b \<in> block_ids bc \<Longrightarrow> block_wf b (blk bc b)"
  by (simp add: cache_inv_def)

lemma inv_block_ok [simp]: "cache_inv bc \<Longrightarrow> b \<in> block_ids bc \<Longrightarrow> cache_block_ok bc b"
  by (drule (1) inv_block_wf) (auto simp: block_wf_def cache_block_ok_def block_ids_def)

lemma inv_lists:
  assumes "cache_inv bc"
  shows "set (bc_invalid_entries_list bc) = members (\<lambda>s. s = S_INVALID) bc"
    and "set (bc_valid_entries_list bc) = members (\<lambda>s. s \<noteq> S_INVALID \<and> \<not> writeback_inv_state s) bc"
    and "set (bc_valid_entries_clean_list bc) = members clean_state bc"
    and "set (bc_valid_entries_dirty_list bc) = members (\<lambda>s. dirty_state s \<and> \<not> writeback_state s) bc"
    and "set (inorder (bc_rb_root bc)) = valid_members bc"
  using assms by (simp_all add: cache_inv_defs list_of_def)

lemma in_members [simp]: "b \<in> members P bc \<longleftrightarrow> b \<in> block_ids bc \<and> P (bcb_state (blk bc b))"
  by (simp add: members_def)

lemma inv_rb_inv [simp]: "cache_inv bc \<Longrightarrow> rb_inv bc"
proof -
  assume inv: "cache_inv bc"
  have "cache_block_ok_unbounded bc b" if "b \<in> valid_members bc" for b
    using inv_block_ok [OF inv, of b] that
    by (simp add: cache_block_ok_def cache_block_ok_unbounded_def)
  with inv show ?thesis
    by (auto simp: rb_inv_def cache_inv_def index_inv_def list_of_def bittern_cache_ok_def
        bittern_cache_ok_unsized_def)
qed

lemma card_members_le: "int (card (members P bc)) \<le> int (bc_total_entries bc)"
proof -
  have "card (members P bc) \<le> card (block_ids bc)"
    by (rule card_mono) (auto simp: members_def block_ids_def)
  then show ?thesis by (simp add: block_ids_def)
qed

lemma inv_counters:
  assumes "cache_inv bc"
  shows "0 \<le> bc_invalid_entries bc" "bc_invalid_entries bc \<le> int (bc_total_entries bc)"
    and "0 \<le> bc_valid_entries bc" "bc_valid_entries bc \<le> int (bc_total_entries bc)"
    and "0 \<le> bc_valid_entries_clean bc" "bc_valid_entries_clean bc \<le> int (bc_total_entries bc)"
    and "0 \<le> bc_valid_entries_dirty bc" "bc_valid_entries_dirty bc \<le> int (bc_total_entries bc)"
  using assms card_members_le by (simp_all add: cache_inv_def counters_inv_def)

section \<open>Holding and releasing\<close>

definition held :: "nat \<Rightarrow> bittern_cache \<Rightarrow> bittern_cache" where
  "held b bc = upd_block (\<lambda>c. c\<lparr> bcb_refcount := bcb_refcount c + 1 \<rparr>) b bc"

definition released :: "nat \<Rightarrow> bittern_cache \<Rightarrow> bittern_cache" where
  "released b bc = upd_block (\<lambda>c. c\<lparr> bcb_refcount := bcb_refcount c - 1 \<rparr>) b bc"

lemma bittern_cache_ok_upd [simp]:
  "bittern_cache_ok (upd_block f b bc) = bittern_cache_ok bc"
  "bittern_cache_ok (upd_stats g bc) = bittern_cache_ok bc"
  "bittern_cache_ok (held b bc) = bittern_cache_ok bc"
  "bittern_cache_ok (released b bc) = bittern_cache_ok bc"
  "bittern_cache_ok (list_del_entry b bc) = bittern_cache_ok bc"
  "bittern_cache_ok (list_del_entry_cleandirty b bc) = bittern_cache_ok bc"
  "bittern_cache_ok (add_tail_invalid b bc) = bittern_cache_ok bc"
  "bittern_cache_ok (add_tail_valid b bc) = bittern_cache_ok bc"
  "bittern_cache_ok (add_tail_clean b bc) = bittern_cache_ok bc"
  "bittern_cache_ok (add_tail_dirty b bc) = bittern_cache_ok bc"
  by (simp_all add: bittern_cache_ok_def held_def released_def list_link_defs)

lemma released_held [simp]: "released b (held b bc) = bc"
  by (simp add: released_def held_def upd_block_def)

lemma hold_eq:
  "bittern_cache_ok bc \<Longrightarrow> cache_block_ok bc b \<Longrightarrow>
   cache_block_hold bc b = Some (bcb_refcount (blk bc b) + 1, held b bc)"
  by (simp add: cache_block_hold_def ASSERT_BITTERN_CACHE_def ASSERT_CACHE_BLOCK_def Let_def
      cache_block_ok_def held_def upd_block_def)

lemma release_eq:
  "bittern_cache_ok bc \<Longrightarrow> cache_block_ok bc b \<Longrightarrow> 0 < bcb_refcount (blk bc b) \<Longrightarrow>
   cache_block_release bc b = Some (bcb_refcount (blk bc b) - 1, released b bc)"
  by (simp add: cache_block_release_def ASSERT_BITTERN_CACHE_def ASSERT_CACHE_BLOCK_def Let_def
      cache_block_ok_def released_def upd_block_def)

lemma held_sel [simp]:
  "bc_env (held b bc) = bc_env bc"
  "bc_total_entries (held b bc) = bc_total_entries bc"
  "bc_replacement_mode (held b bc) = bc_replacement_mode bc"
  "bc_cache_blocks (held b bc) =
     (bc_cache_blocks bc)(b := (blk bc b)\<lparr> bcb_refcount := bcb_refcount (blk bc b) + 1 \<rparr>)"
  by (simp_all add: held_def)

lemma cache_block_ok_held [simp]:
  "cache_block_ok bc b \<Longrightarrow> cache_block_ok (held b bc) b"
  by (simp add: cache_block_ok_def)

lemma hold_release:
  "bittern_cache_ok bc \<Longrightarrow> cache_block_ok bc b \<Longrightarrow>
   cache_block_release (held b bc) b = Some (bcb_refcount (blk bc b), bc)"
  by (subst release_eq) (auto simp: cache_block_ok_def)

lemma idle_block:
  assumes "cache_inv bc" "b \<in> block_ids bc" "bcb_refcount (blk bc b) = 0"
  shows "bcb_cache_transition (blk bc b) = TS_NONE" "stable_state (bcb_state (blk bc b))"
  using inv_block_wf [OF assms(1,2)] assms(3) by (simp_all add: block_wf_def)

lemma refcount_cases:
  assumes "cache_inv bc" "b \<in> block_ids bc"
  shows "bcb_refcount (blk bc b) = 0 \<or> bcb_refcount (blk bc b) = 1"
  using inv_block_wf [OF assms] by (simp add: block_wf_def)

lemma in_lists:
  assumes "cache_inv bc"  "b \<in> block_ids bc"
  shows "b \<in> set (bc_invalid_entries_list bc) \<longleftrightarrow> bcb_state (blk bc b) = S_INVALID"
    and "b \<in> set (bc_valid_entries_list bc) \<longleftrightarrow>
      bcb_state (blk bc b) \<noteq> S_INVALID \<and> \<not> writeback_inv_state (bcb_state (blk bc b))"
    and "b \<in> set (bc_valid_entries_clean_list bc) \<longleftrightarrow> clean_state (bcb_state (blk bc b))"
    and "b \<in> set (bc_valid_entries_dirty_list bc) \<longleftrightarrow>
      dirty_state (bcb_state (blk bc b)) \<and> \<not> writeback_state (bcb_state (blk bc b))"
    and "b \<in> set_tree (bc_rb_root bc) \<longleftrightarrow> bcb_state (blk bc b) \<noteq> S_INVALID"
  using inv_lists [OF assms(1)] assms(2) by auto

text \<open>A change of a block that keeps its sector, number, class and place in the lists.\<close>

lemma cache_inv_upd_block:
  assumes inv: "cache_inv bc" and b: "b \<in> block_ids bc"
    and wf: "block_wf b (f (blk bc b))"
    and sector: "bcb_sector (f (blk bc b)) = bcb_sector (blk bc b)"
    and state: "(bcb_state (f (blk bc b)) = S_INVALID) = (bcb_state (blk bc b) = S_INVALID)"
      "dirty_state (bcb_state (f (blk bc b))) = dirty_state (bcb_state (blk bc b))"
      "writeback_state (bcb_state (f (blk bc b))) = writeback_state (bcb_state (blk bc b))"
      "writeback_inv_state (bcb_state (f (blk bc b))) = writeback_inv_state (bcb_state (blk bc b))"
    and ref: "bcb_refcount (f (blk bc b)) = 0 \<Longrightarrow> bcb_refcount (blk bc b) = 0 \<or>
      bcb_state (blk bc b) = S_INVALID \<or>
      (\<forall>d \<in> valid_members bc. d \<noteq> b \<longrightarrow> bcb_sector (blk bc d) = bcb_sector (blk bc b) \<longrightarrow>
         bcb_refcount (blk bc d) = 1)"
  shows "cache_inv (upd_block f b bc)"
proof (rule cache_inv_update [OF inv b, where c = "f (blk bc b)"])
  have "sector_of (upd_block f b bc) = sector_of bc"
    by (auto simp: sector)
  then show "sorted (map (\<lambda>d. bcb_sector (blk (upd_block f b bc) d)) (inorder (bc_rb_root (upd_block f b bc))))"
    using inv by (simp only: cache_inv_def index_inv_def upd_block_sel)
next
  fix d assume d: "d \<in> valid_members bc" "d \<noteq> b" "bcb_state (f (blk bc b)) \<noteq> S_INVALID"
    "bcb_sector (blk bc d) = bcb_sector (f (blk bc b))"
  then have "bcb_refcount (blk bc b) = 1 \<or> bcb_refcount (blk bc d) = 1"
    using inv b state(1) sector unfolding cache_inv_def sectors_inv_def by auto
  with d ref wf state(1) sector show
    "bcb_refcount (f (blk bc b)) = 1 \<or> bcb_refcount (blk bc d) = 1"
    by (auto simp: block_wf_def)
qed (use inv b wf state in \<open>auto simp: count_upd_def clean_state_def in_lists intro!: list_upd_same\<close>)

lemma cache_inv_held:
  assumes "cache_inv bc" "b \<in> block_ids bc" "bcb_refcount (blk bc b) = 0"
  shows "cache_inv (held b bc)"
  unfolding held_def using assms inv_block_wf [OF assms(1,2)]
  by (intro cache_inv_upd_block) (auto simp: block_wf_def)

text \<open>The parts of the cache that the lists and the statistics do not touch.\<close>

definition same_blocks :: "bittern_cache \<Rightarrow> bittern_cache \<Rightarrow> bool" where
  "same_blocks bc bc' \<longleftrightarrow>
     bc_cache_blocks bc' = bc_cache_blocks bc \<and> bc_env bc' = bc_env bc \<and>
     bc_total_entries bc' = bc_total_entries bc \<and> bc_lm_cache_blocks bc' = bc_lm_cache_blocks bc \<and>
     bc_replacement_mode bc' = bc_replacement_mode bc \<and>
     bc_cache_mode_writeback bc' = bc_cache_mode_writeback bc \<and>
     bc_error_state bc' = bc_error_state bc \<and> bc_xid bc' = bc_xid bc \<and>
     bc_max_pending_requests bc' = bc_max_pending_requests bc \<and>
     bc_invalidator_conf_min_invalid_count bc' = bc_invalidator_conf_min_invalid_count bc"

lemma same_blocks_refl [simp]: "same_blocks bc bc"
  by (simp add: same_blocks_def)

lemma same_blocks_trans [trans]: "same_blocks a b \<Longrightarrow> same_blocks b c \<Longrightarrow> same_blocks a c"
  by (simp add: same_blocks_def)

lemma same_blocks_link [simp]:
  "same_blocks bc (upd_stats f bc)"
  "same_blocks bc (add_tail_clean b (list_del_entry_cleandirty b bc))"
  "same_blocks bc (add_tail_dirty b (list_del_entry_cleandirty b bc))"
  "same_blocks bc (add_tail_valid b (list_del_entry b bc))"
  by (simp_all add: same_blocks_def list_link_defs)

lemma cache_inv_relink:
  assumes inv: "cache_inv bc" and b: "b \<in> block_ids bc" and same: "same_blocks bc bc'"
    and same': "bc_invalid_entries bc' = bc_invalid_entries bc"
      "bc_valid_entries bc' = bc_valid_entries bc"
      "bc_valid_entries_clean bc' = bc_valid_entries_clean bc"
      "bc_valid_entries_dirty bc' = bc_valid_entries_dirty bc" "bc_rb_root bc' = bc_rb_root bc"
    and l: "list_upd b (bcb_state (blk bc b) = S_INVALID)
        (bc_invalid_entries_list bc) (bc_invalid_entries_list bc')"
      "list_upd b (bcb_state (blk bc b) \<noteq> S_INVALID \<and> \<not> writeback_inv_state (bcb_state (blk bc b)))
        (bc_valid_entries_list bc) (bc_valid_entries_list bc')"
      "list_upd b (clean_state (bcb_state (blk bc b)))
        (bc_valid_entries_clean_list bc) (bc_valid_entries_clean_list bc')"
      "list_upd b (dirty_state (bcb_state (blk bc b)) \<and> \<not> writeback_state (bcb_state (blk bc b)))
        (bc_valid_entries_dirty_list bc) (bc_valid_entries_dirty_list bc')"
  shows "cache_inv bc'"
proof (rule cache_inv_update [OF inv b, where c = "blk bc b"])
  fix d assume "d \<in> valid_members bc" "d \<noteq> b" "bcb_state (blk bc b) \<noteq> S_INVALID"
    "sector_of bc d = sector_of bc b"
  then show "bcb_refcount (blk bc b) = 1 \<or> bcb_refcount (blk bc d) = 1"
    using inv b unfolding cache_inv_def sectors_inv_def by auto
qed (use inv b same same' l in \<open>simp_all add: count_upd_def inv_block_wf in_lists list_upd_same
       bittern_cache_ok_def same_blocks_def cache_inv_def index_inv_def\<close>)

lemma cache_inv_touch_clean:
  assumes "cache_inv bc" "b \<in> block_ids bc" "clean_state (bcb_state (blk bc b))"
  shows "cache_inv (add_tail_clean b (list_del_entry_cleandirty b bc))"
  by (rule cache_inv_relink [OF assms(1,2)])
    (use assms in \<open>simp_all add: list_link_defs in_lists list_upd_same clean_not_dirty same_blocks_def\<close>)

lemma cache_inv_touch_dirty:
  assumes "cache_inv bc" "b \<in> block_ids bc"
    "dirty_state (bcb_state (blk bc b))" "\<not> writeback_state (bcb_state (blk bc b))"
  shows "cache_inv (add_tail_dirty b (list_del_entry_cleandirty b bc))"
  by (rule cache_inv_relink [OF assms(1,2)])
    (use assms in \<open>simp_all add: list_link_defs in_lists list_upd_same clean_state_def same_blocks_def\<close>)

lemma cache_inv_touch_valid:
  assumes "cache_inv bc" "b \<in> block_ids bc"
    "bcb_state (blk bc b) \<noteq> S_INVALID" "\<not> writeback_inv_state (bcb_state (blk bc b))"
  shows "cache_inv (add_tail_valid b (list_del_entry b bc))"
  by (rule cache_inv_relink [OF assms(1,2)])
    (use assms in \<open>simp_all add: list_link_defs in_lists list_upd_same same_blocks_def\<close>)

lemma same_blocks_block_ok: "same_blocks bc bc' \<Longrightarrow> cache_block_ok bc' = cache_block_ok bc"
  by (auto simp: same_blocks_def cache_block_ok_def)

lemmas assert_defs = ASSERT_BITTERN_CACHE_def ASSERT_CACHE_BLOCK_def

text \<open>An idle block is held and moved to the tail of its lists.\<close>

definition touched :: "nat \<Rightarrow> bittern_cache \<Rightarrow> bittern_cache" where
  "touched b bc =
     (let bc = (if bc_replacement_mode bc = CACHE_REPLACEMENT_MODE_LRU
                then add_tail_valid b (list_del_entry b bc) else bc);
          bc = list_del_entry_cleandirty b bc
      in if bcb_state (blk bc b) = S_CLEAN then add_tail_clean b bc else add_tail_dirty b bc)"

lemma touched_same: "same_blocks bc (touched b bc)"
  by (auto simp: touched_def Let_def same_blocks_def list_link_defs)

lemma cache_inv_touched:
  assumes inv: "cache_inv bc" and b: "b \<in> block_ids bc" and s: "bcb_state (blk bc b) = S_CLEAN \<or> bcb_state (blk bc b) = S_DIRTY"
  shows "cache_inv (touched b bc)"
proof -
  let ?bc = "if bc_replacement_mode bc = CACHE_REPLACEMENT_MODE_LRU
             then add_tail_valid b (list_del_entry b bc) else bc"
  have inv': "cache_inv ?bc"
    using inv b s by (auto intro!: cache_inv_touch_valid simp: state_class_defs)
  have same: "bcb_state (blk ?bc b) = bcb_state (blk bc b)" "block_ids ?bc = block_ids bc"
    by (simp_all add: list_link_defs block_ids_def)
  have del: "bcb_state (blk (list_del_entry_cleandirty b ?bc) b) = bcb_state (blk bc b)"
    by (simp add: list_link_defs)
  from s show ?thesis
  proof
    assume s: "bcb_state (blk bc b) = S_CLEAN"
    have "cache_inv (add_tail_clean b (list_del_entry_cleandirty b ?bc))"
      by (rule cache_inv_touch_clean [OF inv']) (simp_all only: same b s, simp add: state_class_defs)
    then show ?thesis unfolding touched_def Let_def del by (simp only: s simp_thms if_True)
  next
    assume s: "bcb_state (blk bc b) = S_DIRTY"
    have "cache_inv (add_tail_dirty b (list_del_entry_cleandirty b ?bc))"
      by (rule cache_inv_touch_dirty [OF inv']) (simp_all only: same b s, simp_all add: state_class_defs)
    then show ?thesis unfolding touched_def Let_def del s by simp
  qed
qed

lemma block_ids_same: "same_blocks bc bc' \<Longrightarrow> block_ids bc' = block_ids bc"
  by (simp add: same_blocks_def block_ids_def)

lemma block_ids_upd [simp]:
  "block_ids (upd_block f b bc) = block_ids bc"
  "block_ids (upd_stats g bc) = block_ids bc"
  "block_ids (held b bc) = block_ids bc"
  by (simp_all add: block_ids_def)

lemma cache_get_hit_touched:
  "cache_get_hit bc s b =
     do {
       ASSERT_CACHE_BLOCK b bc;
       ASSERT_BITTERN_CACHE bc;
       ASSERT (assert_on bc) (bcb_state (blk bc b) \<noteq> S_INVALID);
       ASSERT (assert_on bc) (s = bcb_sector (blk bc b));
       (block_hold_ret, bc) \<leftarrow> cache_block_hold bc b;
       if block_hold_ret = 1 then
         do {
           ASSERT (assert_on bc) (bcb_cache_transition (blk bc b) = TS_NONE);
           ASSERT (assert_on bc) (bcb_state (blk bc b) = S_CLEAN \<or> bcb_state (blk bc b) = S_DIRTY);
           ASSERT (assert_on bc) (bcb_refcount (blk bc b) > 0);
           ASSERT (assert_on bc) (is_sector_number_valid (bcb_sector (blk bc b)));
           ASSERT_CACHE_BLOCK b (touched b bc);
           ASSERT_BITTERN_CACHE (touched b bc);
           Some ((CACHE_GET_RET_HIT_IDLE, Some b), touched b bc)
         }
       else
         do {
           (_, bc) \<leftarrow> cache_block_release bc b;
           Some ((CACHE_GET_RET_HIT_BUSY, None), bc)
         }
     }"
  by (simp only: cache_get_hit_def touched_def Let_def)

lemma cache_get_hit_busy:
  assumes "cache_inv bc" "b \<in> block_ids bc" "bcb_state (blk bc b) \<noteq> S_INVALID"
    and "sector_of bc b = s" "bcb_refcount (blk bc b) = 1"
  shows "cache_get_hit bc s b = Some ((CACHE_GET_RET_HIT_BUSY, None), bc)"
  using assms by (simp add: cache_get_hit_def assert_defs hold_eq hold_release)

lemma cache_get_hit_idle:
  assumes "cache_inv bc" "b \<in> block_ids bc" "bcb_state (blk bc b) \<noteq> S_INVALID"
    and "sector_of bc b = s" "bcb_refcount (blk bc b) = 0"
  shows "cache_get_hit bc s b = Some ((CACHE_GET_RET_HIT_IDLE, Some b), touched b (held b bc))"
    and "cache_inv (touched b (held b bc))"
proof -
  note idle = idle_block [OF assms(1,2,5)]
  have st: "bcb_state (blk bc b) = S_CLEAN \<or> bcb_state (blk bc b) = S_DIRTY"
    using idle(2) assms(3) by (auto simp: stable_state_def)
  have inv: "cache_inv (held b bc)" by (rule cache_inv_held [OF assms(1,2,5)])
  then show inv': "cache_inv (touched b (held b bc))"
    using assms(2) st by (intro cache_inv_touched) auto
  have valid: "is_sector_number_valid s"
    using inv_block_wf [OF assms(1,2)] assms(3,4) by (simp add: block_wf_def)
  have ok: "cache_block_ok (touched b (held b bc)) b" "bittern_cache_ok (touched b (held b bc))"
    using inv' assms(2) by (simp_all add: block_ids_same [OF touched_same])
  have env: "enable_assert (bc_env (touched b (held b bc))) = assert_on bc"
    using touched_same [of "held b bc" b] by (simp add: same_blocks_def)
  show "cache_get_hit bc s b = Some ((CACHE_GET_RET_HIT_IDLE, Some b), touched b (held b bc))"
    using assms st valid idle ok env
    by (simp add: cache_get_hit_touched assert_defs hold_eq)
qed

text \<open>
  Allocation: an idle invalid block takes the sector and the class that is asked for, provided
  that a block that already has the sector is held.
\<close>

definition allocated :: "sector_t \<Rightarrow> cache_state \<Rightarrow> u32 \<Rightarrow> cache_block \<Rightarrow> cache_block" where
  "allocated s st now c =
     c\<lparr> bcb_refcount := 1, bcb_sector := s, bcb_state := st, bcb_last_modify := now \<rparr>"

lemma sector_of_upd_other:
  "b \<notin> set xs \<Longrightarrow> map (\<lambda>d. bcb_sector ((f(b := c)) d)) xs = map (\<lambda>d. bcb_sector (f d)) xs"
  by (rule map_cong) auto

lemma cache_get_invalid_block_empty:
  assumes "cache_inv bc" "bc_invalid_entries_list bc = []"
    and "fl = CACHE_FL_CLEAN \<or> fl = CACHE_FL_DIRTY" "s = sector_to_cache_block_sector s"
  shows "cache_get_invalid_block_locked bc s fl now = Some ((CACHE_GET_RET_MISS, None), bc)"
  using assms by (simp add: cache_get_invalid_block_locked_def assert_defs)

lemma cache_get_invalid_block_busy:
  assumes "cache_inv bc" "bc_invalid_entries_list bc = b # rest" "bcb_refcount (blk bc b) = 1"
    and "fl = CACHE_FL_CLEAN \<or> fl = CACHE_FL_DIRTY" "s = sector_to_cache_block_sector s"
  shows "cache_get_invalid_block_locked bc s fl now = Some ((CACHE_GET_RET_MISS, None),
    upd_stats (\<lambda>st. st\<lparr> bc_invalid_blocks_busy := bc_invalid_blocks_busy st + 1 \<rparr>) bc)"
proof -
  have "b \<in> block_ids bc" using inv_lists(1) [OF assms(1)] assms(2) by auto
  with assms show ?thesis
    by (simp add: cache_get_invalid_block_locked_def assert_defs hold_eq hold_release)
qed

definition block_changed :: "nat \<Rightarrow> cache_block \<Rightarrow> bittern_cache \<Rightarrow> bittern_cache \<Rightarrow> bool" where
  "block_changed b c bc bc' \<longleftrightarrow> same_blocks (upd_block (\<lambda>_. c) b bc) bc'"

lemma block_changedD:
  assumes "block_changed b c bc bc'"
  shows "bc_cache_blocks bc' = (bc_cache_blocks bc)(b := c)" "bc_env bc' = bc_env bc"
    "bc_total_entries bc' = bc_total_entries bc" "block_ids bc' = block_ids bc"
    "bittern_cache_ok bc' = bittern_cache_ok bc"
  using assms by (simp_all add: block_changed_def same_blocks_def block_ids_def bittern_cache_ok_def)

text \<open>The state after an allocation, given the tree after the insertion.\<close>

definition alloc_state :: "nat \<Rightarrow> cache_block \<Rightarrow> bool \<Rightarrow> nat tree \<Rightarrow> bittern_cache \<Rightarrow> bittern_cache" where
  "alloc_state b c clean t bc =
     bc\<lparr> bc_rb_root := t,
        bc_valid_entries := bc_valid_entries bc + 1,
        bc_valid_entries_clean := bc_valid_entries_clean bc + of_bool clean,
        bc_valid_entries_dirty := bc_valid_entries_dirty bc + of_bool (\<not> clean),
        bc_invalid_entries := bc_invalid_entries bc - 1,
        bc_invalid_entries_list := removeAll b (bc_invalid_entries_list bc),
        bc_valid_entries_list := removeAll b (bc_valid_entries_list bc) @ [b],
        bc_valid_entries_clean_list :=
          removeAll b (bc_valid_entries_clean_list bc) @ (if clean then [b] else []),
        bc_valid_entries_dirty_list :=
          removeAll b (bc_valid_entries_dirty_list bc) @ (if clean then [] else [b]),
        bc_cache_blocks := (bc_cache_blocks bc)(b := c) \<rparr>"

lemma alloc_state_inv:
  assumes inv: "cache_inv bc" and b: "b \<in> block_ids bc" "bcb_state (blk bc b) = S_INVALID"
    and c: "block_wf b c" "bcb_refcount c = 1" "bcb_state c = (if clean then S_CLEAN_NO_DATA else S_DIRTY_NO_DATA)"
    and t: "inorder t = insort_key (\<lambda>d. bcb_sector (((bc_cache_blocks bc)(b := c)) d)) b (inorder (bc_rb_root bc))"
  shows "cache_inv (alloc_state b c clean t bc)"
proof (rule cache_inv_update [OF inv b(1), where c = c])
  have nb: "b \<notin> set (inorder (bc_rb_root bc))"
    using inv b by (simp add: in_lists)
  show "list_upd b (bcb_state c \<noteq> S_INVALID) (inorder (bc_rb_root bc))
     (inorder (bc_rb_root (alloc_state b c clean t bc)))"
    using nb c(3) by (simp add: alloc_state_def t list_upd_def distinct_insort set_insort_key)
  have "sorted (map (\<lambda>d. bcb_sector (((bc_cache_blocks bc)(b := c)) d)) (inorder (bc_rb_root bc)))"
    using inv unfolding sector_of_upd_other [OF nb] by (simp add: cache_inv_def index_inv_def)
  then show "sorted (map (\<lambda>d. bcb_sector (blk (alloc_state b c clean t bc) d))
      (inorder (bc_rb_root (alloc_state b c clean t bc))))"
    by (simp add: alloc_state_def t sorted_insort_key)
qed (use inv b c in \<open>auto simp: alloc_state_def count_upd_def state_class_defs bittern_cache_ok_def
       cache_inv_def simp del: in_members\<close>)

lemma rb_inv_cong:
  assumes "rb_inv bc" "bc_env bc' = bc_env bc" "bc_replacement_mode bc' = bc_replacement_mode bc"
    "bc_cache_mode_writeback bc' = bc_cache_mode_writeback bc" "bc_rb_root bc' = bc_rb_root bc"
    and "\<And>d. d \<in> set (inorder (bc_rb_root bc)) \<Longrightarrow> blk bc' d = blk bc d"
  shows "rb_inv bc'"
proof -
  have "map (sector_of bc') (inorder (bc_rb_root bc)) = map (sector_of bc) (inorder (bc_rb_root bc))"
    using assms(6) by (intro map_cong) auto
  moreover have "sorted (map (sector_of bc) (inorder (bc_rb_root bc)))"
    using assms(1) by (simp add: rb_inv_def)
  ultimately have "sorted (map (sector_of bc') (inorder (bc_rb_root bc)))" by (simp only:)
  with assms show ?thesis
    by (auto simp: rb_inv_def bittern_cache_ok_unsized_def cache_block_ok_unbounded_def)
qed

lemma cache_get_invalid_block_alloc:
  fixes now :: u32
  assumes inv: "cache_inv bc" and l: "bc_invalid_entries_list bc = b # rest"
    and idle: "bcb_refcount (blk bc b) = 0"
    and fl: "fl = CACHE_FL_CLEAN \<or> fl = CACHE_FL_DIRTY" and s: "s = sector_to_cache_block_sector s"
      "is_sector_number_valid s" "is_sector_cache_aligned s"
  defines "st \<equiv> if fl = CACHE_FL_CLEAN then S_CLEAN_NO_DATA else S_DIRTY_NO_DATA"
  shows "\<exists>t. cache_get_invalid_block_locked bc s fl now =
      Some ((CACHE_GET_RET_MISS_INVALID_IDLE, Some b),
        alloc_state b (allocated s st now (blk bc b)) (fl = CACHE_FL_CLEAN) t bc) \<and>
    cache_inv (alloc_state b (allocated s st now (blk bc b)) (fl = CACHE_FL_CLEAN) t bc)"
proof -
  let ?c = "allocated s st now (blk bc b)"
  have b: "b \<in> block_ids bc" and inval: "bcb_state (blk bc b) = S_INVALID"
    using inv_lists(1) [OF inv] l by auto
  have wf: "block_wf b (blk bc b)" by (rule inv_block_wf [OF inv b])
  let ?bc1 = "upd_block (\<lambda>c. c\<lparr> bcb_sector := s, bcb_state := st \<rparr>) b (held b bc)"
  have nb: "b \<notin> set (inorder (bc_rb_root bc))" using inv b inval by (simp add: in_lists)
  have rb1: "rb_inv ?bc1"
    using nb by (intro rb_inv_cong [OF inv_rb_inv [OF inv]]) (auto simp: held_def)
  have "cache_block_ok_unbounded ?bc1 b"
    using wf idle by (simp add: cache_block_ok_unbounded_def block_wf_def)
  with rb_insert_spec [OF rb1, of b] nb obtain t where
    ins: "cache_rb_insert ?bc1 b = Some (?bc1\<lparr> bc_rb_root := t \<rparr>)"
    and t: "inorder t = insort_key (sector_of ?bc1) b (inorder (bc_rb_root bc))"
    by (auto simp: held_def)
  have "sector_of ?bc1 = (\<lambda>d. bcb_sector (((bc_cache_blocks bc)(b := ?c)) d))"
    by (auto simp: allocated_def)
  note t = t [unfolded this]
  let ?fin = "alloc_state b ?c (fl = CACHE_FL_CLEAN) t bc"
  have inv': "cache_inv ?fin"
    by (rule alloc_state_inv [OF inv b inval _ _ _ t])
      (use wf s fl in \<open>auto simp: allocated_def block_wf_def st_def cache_fl_defs split: if_splits\<close>)
  have inval_sector: "is_sector_number_invalid (bcb_sector (blk bc b))" "bcb_cache_transition (blk bc b) = TS_NONE"
    using wf inval by (simp_all add: block_wf_def is_sector_number_invalid_def is_sector_number_valid_def
        SECTOR_NUMBER_INVALID_def)
  have ok: "cache_block_ok bc b" using inv b by simp
  have ok': "bittern_cache_ok bc" using inv by simp
  have cnt: "0 < bc_invalid_entries bc" "bc_invalid_entries bc - 1 \<le> int (bc_total_entries bc)"
    "bc_valid_entries bc + 1 \<le> int (bc_total_entries bc)"
    "bc_valid_entries_clean bc + of_bool (fl = CACHE_FL_CLEAN) \<le> int (bc_total_entries bc)"
    "bc_valid_entries_dirty bc + of_bool (fl \<noteq> CACHE_FL_CLEAN) \<le> int (bc_total_entries bc)"
    using inv_counters [OF inv'] by (simp_all add: alloc_state_def)
  have "cache_get_invalid_block_locked bc s fl now = Some ((CACHE_GET_RET_MISS_INVALID_IDLE, Some b), ?fin)"
  proof (cases "fl = CACHE_FL_CLEAN")
    case True
    then show ?thesis
    using inv l idle fl s inval inval_sector ins ok ok' cnt
    by (simp add: cache_get_invalid_block_locked_def assert_defs hold_eq st_def Let_def
        alloc_state_def allocated_def list_link_defs upd_block_def held_def cache_block_ok_def
        bittern_cache_ok_def)
  next
    case False
    then show ?thesis
    using inv l idle fl s inval inval_sector ins ok ok' cnt
    by (simp add: cache_get_invalid_block_locked_def assert_defs hold_eq st_def Let_def
        alloc_state_def allocated_def list_link_defs upd_block_def held_def cache_block_ok_def
        bittern_cache_ok_def)
  qed
  with inv' show ?thesis by blast
qed

end
