(* ===== verification/Cache_Getput_Correct.thy ===== *)
theory Cache_Getput_Correct
  imports Cache_Getput
begin

unbundle bit_operations_syntax

text \<open>
  Correctness of the operations of \<open>bittern_cache_getput.c\<close>: each one, started in a state that
  satisfies the invariant of the cache, runs without a failing assertion, ends in a state that
  satisfies it, and returns what its contract says.
\<close>

section \<open>Lookup\<close>

text \<open>
  What a lookup of a sector returns: the caller owns the block that has the sector if it was
  idle; a block that somebody else owns is not handed out; a sector that is not cached gets an
  idle invalid block if the caller asks for one and the first invalid block is idle.
\<close>

definition cached_at :: "bittern_cache \<Rightarrow> sector_t \<Rightarrow> nat set" where
  "cached_at bc s = {b \<in> valid_members bc. sector_of bc b = sector_to_cache_block_sector s}"

definition cache_get_post ::
  "bittern_cache \<Rightarrow> sector_t \<Rightarrow> int \<Rightarrow> u32 \<Rightarrow> cache_get_ret \<Rightarrow> nat option \<Rightarrow> bittern_cache \<Rightarrow> bool" where
  "cache_get_post bc s iflags now ret ob bc' \<longleftrightarrow>
     (case (ret, ob) of
        (CACHE_GET_RET_HIT_IDLE, Some b) \<Rightarrow>
          b \<in> cached_at bc s \<and> (\<forall>d \<in> cached_at bc s. bcb_refcount (blk bc d) = 0 \<longleftrightarrow> d = b) \<and>
          bc_cache_blocks bc' = (bc_cache_blocks bc)(b := (blk bc b)\<lparr> bcb_refcount := 1 \<rparr>)
      | (CACHE_GET_RET_HIT_BUSY, None) \<Rightarrow>
          (\<exists>b \<in> cached_at bc s. bcb_refcount (blk bc b) = 1) \<and>
          bc_cache_blocks bc' = bc_cache_blocks bc
      | (CACHE_GET_RET_MISS_INVALID_IDLE, Some b) \<Rightarrow>
          cached_at bc s = {} \<and> iflags AND CACHE_FL_MISS \<noteq> 0 \<and>
          bcb_state (blk bc b) = S_INVALID \<and> bcb_refcount (blk bc b) = 0 \<and>
          bc_cache_blocks bc' = (bc_cache_blocks bc)(b :=
            allocated (sector_to_cache_block_sector s)
              (if iflags AND CACHE_FL_CLEAN \<noteq> 0 then S_CLEAN_NO_DATA else S_DIRTY_NO_DATA)
              now (blk bc b))
      | (CACHE_GET_RET_MISS, None) \<Rightarrow>
          cached_at bc s = {} \<and> bc_cache_blocks bc' = bc_cache_blocks bc \<and>
          (iflags AND CACHE_FL_MISS = 0 \<or> bc_invalid_entries_list bc = [] \<or>
           bcb_refcount (blk bc (hd (bc_invalid_entries_list bc))) = 1)
      | _ \<Rightarrow> False)"

lemma rb_lookup_stats:
  "cache_rb_lookup bc s = Some (r, bc') \<Longrightarrow> \<exists>f. bc' = upd_stats f bc"
  unfolding cache_rb_lookup_def ASSERT_def
  by (cases "rb_walk bc s (bc_rb_root bc) 0") (auto split: option.splits if_splits)

lemma cache_rb_lookup_cached:
  assumes "cache_inv bc"
  shows "\<exists>r f. cache_rb_lookup bc (sector_to_cache_block_sector s) = Some (r, upd_stats f bc) \<and>
    (case r of Some b \<Rightarrow> b \<in> cached_at bc s | None \<Rightarrow> cached_at bc s = {})"
proof -
  from rb_lookup_spec [OF inv_rb_inv [OF assms], of "sector_to_cache_block_sector s"]
  obtain r bc' where r: "cache_rb_lookup bc (sector_to_cache_block_sector s) = Some (r, bc')"
    "case r of Some v \<Rightarrow> v \<in> set (inorder (bc_rb_root bc)) \<and> sector_of bc v = sector_to_cache_block_sector s
     | None \<Rightarrow> sector_to_cache_block_sector s \<notin> sector_of bc ` set (inorder (bc_rb_root bc))"
    by blast
  moreover obtain f where "bc' = upd_stats f bc" using rb_lookup_stats [OF r(1)] ..
  ultimately show ?thesis
    unfolding inv_lists(5) [OF assms] cached_at_def
    by (intro exI [of _ r] exI [of _ f]) (auto simp: image_iff Ball_def split: option.splits)
qed

lemma cached_at_idle:
  assumes "cache_inv bc" "b \<in> cached_at bc s" "bcb_refcount (blk bc b) = 0"
  shows "\<forall>d \<in> cached_at bc s. bcb_refcount (blk bc d) = 0 \<longleftrightarrow> d = b"
proof
  fix d assume d: "d \<in> cached_at bc s"
  have "bcb_refcount (blk bc d) = 1" if "d \<noteq> b"
    using that d assms unfolding cached_at_def cache_inv_def sectors_inv_def by force
  with assms(3) show "bcb_refcount (blk bc d) = 0 \<longleftrightarrow> d = b" by (cases "d = b") auto
qed

lemma cache_get_invalid_block_cases:
  assumes inv: "cache_inv bc" and fl: "fl = CACHE_FL_CLEAN \<or> fl = CACHE_FL_DIRTY"
    and s: "s = sector_to_cache_block_sector s" "is_sector_number_valid s"
  obtains (alloc) b bc' where
      "cache_get_invalid_block_locked bc s fl now = Some ((CACHE_GET_RET_MISS_INVALID_IDLE, Some b), bc')"
      "cache_inv bc'" "b \<in> block_ids bc" "bcb_state (blk bc b) = S_INVALID" "bcb_refcount (blk bc b) = 0"
      "block_changed b (allocated s (if fl = CACHE_FL_CLEAN then S_CLEAN_NO_DATA else S_DIRTY_NO_DATA)
         now (blk bc b)) bc bc'"
  | (busy) f where
      "cache_get_invalid_block_locked bc s fl now = Some ((CACHE_GET_RET_MISS, None), upd_stats f bc)"
      "bc_invalid_entries_list bc = [] \<or> bcb_refcount (blk bc (hd (bc_invalid_entries_list bc))) = 1"
proof (cases "bc_invalid_entries_list bc")
  case Nil
  have "upd_stats (\<lambda>st. st) bc = bc" by (simp add: upd_stats_def)
  with cache_get_invalid_block_empty [OF inv Nil fl s(1)] Nil busy [of "\<lambda>st. st"] show thesis by simp
next
  case (Cons b rest)
  then have b: "b \<in> block_ids bc" "bcb_state (blk bc b) = S_INVALID"
    using inv_lists(1) [OF inv] by auto
  from refcount_cases [OF inv b(1)] show thesis
  proof
    assume idle: "bcb_refcount (blk bc b) = 0"
    have al: "is_sector_cache_aligned s" using s(1) by (simp add: aligned_block_sector)
    let ?c = "allocated s (if fl = CACHE_FL_CLEAN then S_CLEAN_NO_DATA else S_DIRTY_NO_DATA) now (blk bc b)"
    from cache_get_invalid_block_alloc [OF inv Cons idle fl s al] obtain t where
      t: "cache_get_invalid_block_locked bc s fl now = Some ((CACHE_GET_RET_MISS_INVALID_IDLE, Some b),
        alloc_state b ?c (fl = CACHE_FL_CLEAN) t bc)" "cache_inv (alloc_state b ?c (fl = CACHE_FL_CLEAN) t bc)"
      by blast
    show thesis
      by (rule alloc [OF t b idle]) (simp add: block_changed_def same_blocks_def alloc_state_def)
  next
    assume "bcb_refcount (blk bc b) = 1"
    with Cons show thesis
      by (intro busy [OF cache_get_invalid_block_busy [OF inv Cons _ fl s(1)]]) simp_all
  qed
qed

definition cache_get_flags_ok :: "int \<Rightarrow> bool" where
  "cache_get_flags_ok iflags \<longleftrightarrow>
     iflags = CACHE_FL_HIT \<or> iflags = (CACHE_FL_HIT OR CACHE_FL_MISS OR CACHE_FL_CLEAN) \<or>
     iflags = (CACHE_FL_HIT OR CACHE_FL_MISS OR CACHE_FL_DIRTY)"

lemma flags_facts:
  assumes "cache_get_flags_ok iflags"
  shows "iflags AND NOT CACHE_FL_MASK = 0" "iflags AND CACHE_FL_HIT \<noteq> 0"
    "if iflags AND CACHE_FL_MISS \<noteq> 0
     then iflags AND CACHE_FL_CLEANDIRTY_MASK = (if iflags AND CACHE_FL_CLEAN \<noteq> 0 then CACHE_FL_CLEAN else CACHE_FL_DIRTY)
     else iflags AND CACHE_FL_CLEANDIRTY_MASK = 0"
  using assms by (auto simp: cache_get_flags_ok_def cache_fl_defs)


lemma cache_get_unfold:
  assumes inv: "cache_inv bc" and fl: "cache_get_flags_ok iflags"
    and look: "cache_rb_lookup bc (sector_to_cache_block_sector s) = Some (r, upd_stats f bc)"
  shows "cache_get bc s iflags now =
    (case r of
       Some b \<Rightarrow> cache_get_hit (upd_stats f bc) (sector_to_cache_block_sector s) b
     | None \<Rightarrow>
         if iflags AND CACHE_FL_MISS = 0 then Some ((CACHE_GET_RET_MISS, None), upd_stats f bc)
         else do {
           ((ret, cache_block), bc') \<leftarrow> cache_get_invalid_block_locked (upd_stats f bc)
             (sector_to_cache_block_sector s)
             (if iflags AND CACHE_FL_CLEAN \<noteq> 0 then CACHE_FL_CLEAN else CACHE_FL_DIRTY) now;
           ASSERT (assert_on bc')
             (ret = CACHE_GET_RET_MISS_INVALID_IDLE \<or> ret = CACHE_GET_RET_MISS);
           if ret = CACHE_GET_RET_MISS_INVALID_IDLE then
             do {
               let bc = upd_stats (\<lambda>st. st\<lparr> bc_invalidations_map :=
                 bc_invalidations_map st + 1 \<rparr>) bc';
               ASSERT (assert_on bc) (cache_block \<noteq> None);
               Some ((ret, cache_block), bc)
             }
           else
             do {
               ASSERT (assert_on bc') (cache_block = None);
               ASSERT_BITTERN_CACHE bc';
               Some ((CACHE_GET_RET_MISS, None), bc')
             }
         })"
proof -
  note flags = flags_facts [OF fl]
  have mode: "cache_replacement_mode_ok (bc_replacement_mode bc)"
    using inv_ok [OF inv] by (simp add: bittern_cache_ok_def)
  show ?thesis
    using flags(3) inv mode
    by (simp add: cache_get_def Let_def assert_defs look flags(1,2) split: option.split if_split_asm)
qed

lemma cache_get_hit_post:
  assumes inv: "cache_inv bc" and b: "b \<in> cached_at bc s"
  shows "\<exists>ret ob bc'. cache_get_hit (upd_stats f bc) (sector_to_cache_block_sector s) b =
      Some ((ret, ob), bc') \<and> cache_inv bc' \<and> cache_get_post bc s iflags now ret ob bc'"
proof -
  let ?s = "sector_to_cache_block_sector s" and ?bc = "upd_stats f bc"
  have inv': "cache_inv ?bc" using inv by simp
  have hit: "b \<in> block_ids ?bc" "bcb_state (blk ?bc b) \<noteq> S_INVALID" "sector_of ?bc b = ?s"
    using b by (simp_all add: cached_at_def)
  from refcount_cases [OF inv' hit(1)] show ?thesis
  proof
    assume idle: "bcb_refcount (blk ?bc b) = 0"
    have "bc_cache_blocks (touched b (held b ?bc)) =
        (bc_cache_blocks bc)(b := (blk bc b)\<lparr> bcb_refcount := 1 \<rparr>)"
      using touched_same [of "held b ?bc" b] idle by (simp add: same_blocks_def)
    then show ?thesis
      using cache_get_hit_idle [OF inv' hit idle] cached_at_idle [OF inv b] idle b
      by (simp add: cache_get_post_def)
  next
    assume "bcb_refcount (blk ?bc b) = 1"
    with cache_get_hit_busy [OF inv' hit this] b inv show ?thesis
      by (auto simp: cache_get_post_def)
  qed
qed

lemma cache_get_spec:
  assumes inv: "cache_inv bc" and s: "is_sector_number_valid s" and fl: "cache_get_flags_ok iflags"
  shows "\<exists>ret ob bc'. cache_get bc s iflags now = Some ((ret, ob), bc') \<and> cache_inv bc' \<and>
    cache_get_post bc s iflags now ret ob bc'"
proof -
  let ?s = "sector_to_cache_block_sector s"
  from cache_rb_lookup_cached [OF inv, of s] obtain r f where
    look: "cache_rb_lookup bc ?s = Some (r, upd_stats f bc)"
    and r: "case r of Some b \<Rightarrow> b \<in> cached_at bc s | None \<Rightarrow> cached_at bc s = {}" by blast
  note get = cache_get_unfold [OF inv fl look, of now]
  show ?thesis
  proof (cases r)
    case (Some b)
    with r have "b \<in> cached_at bc s" by simp
    from cache_get_hit_post [OF inv this] Some show ?thesis by (simp only: get option.case)
  next
    case None
    with r have none: "cached_at bc s = {}" by simp
    let ?bc = "upd_stats f bc"
    let ?fl = "if iflags AND CACHE_FL_CLEAN \<noteq> 0 then CACHE_FL_CLEAN else CACHE_FL_DIRTY"
    have neq: "CACHE_FL_DIRTY \<noteq> CACHE_FL_CLEAN" by (simp add: cache_fl_defs)
    have inv': "cache_inv ?bc" using inv by simp
    have fl': "?fl = CACHE_FL_CLEAN \<or> ?fl = CACHE_FL_DIRTY" by simp
    have s': "?s = sector_to_cache_block_sector ?s" "is_sector_number_valid ?s" using s by simp_all
    show ?thesis
    proof (cases "iflags AND CACHE_FL_MISS = 0")
      case True
      with None inv none show ?thesis unfolding get by (simp add: cache_get_post_def)
    next
      case False
      show ?thesis
      proof (cases rule: cache_get_invalid_block_cases [OF inv' fl' s', of now, case_names alloc busy])
        case (alloc b bc')
        then show ?thesis
          using None False none neq block_changedD(1) [OF alloc(6)]
          by (auto simp: get cache_get_post_def)
      next
        case (busy g)
        with None False none inv show ?thesis
          by (simp add: get cache_get_post_def assert_defs)
      qed
    qed
  qed
qed

text \<open>
  C1: A lookup never fails an assertion and keeps the invariant of the cache, and its result is the
  one of the branch that applies: the idle block of the sector, which the caller then holds; busy, with
  no block returned, no reference taken and no block changed, if the block that was found is held by
  somebody; on a miss an idle invalid block that now has the sector, if the caller asked for one and
  one is available; a miss otherwise.
\<close>

theorem cache_get_correct:
  assumes inv: "cache_inv bc" and s: "is_sector_number_valid s" and fl: "cache_get_flags_ok iflags"
  shows "\<exists>ret ob bc'. cache_get bc s iflags now = Some ((ret, ob), bc') \<and> cache_inv bc' \<and>
    cache_get_post bc s iflags now ret ob bc'"
  using assms by (rule cache_get_spec)

section \<open>Picking a clean block for invalidation\<close>

text \<open>An attempt either takes an idle clean block or changes nothing but statistics.\<close>

definition clean_pick :: "bittern_cache \<Rightarrow> nat option \<Rightarrow> bittern_cache \<Rightarrow> bool" where
  "clean_pick bc ob bc' \<longleftrightarrow>
     (case ob of
        None \<Rightarrow> \<exists>f. bc' = upd_stats f bc
      | Some b \<Rightarrow> b \<in> block_ids bc \<and> bcb_state (blk bc b) = S_CLEAN \<and> bcb_refcount (blk bc b) = 0 \<and>
          (\<exists>f. bc' = upd_stats f (held b bc)))"

lemma clean_pick_same: "clean_pick bc None bc"
  by (auto simp: clean_pick_def upd_stats_def intro: exI [of _ "\<lambda>st. st"])

lemma clean_pick_miss: "clean_pick bc None (upd_stats f bc)"
  by (auto simp: clean_pick_def)

lemma clean_pick_held:
  "b \<in> block_ids bc \<Longrightarrow> bcb_state (blk bc b) = S_CLEAN \<Longrightarrow> bcb_refcount (blk bc b) = 0 \<Longrightarrow>
   clean_pick bc (Some b) (upd_stats f (held b bc))"
  by (auto simp: clean_pick_def)

lemma upd_stats_upd_stats [simp]: "upd_stats f (upd_stats g bc) = upd_stats (f \<circ> g) bc"
  by (simp add: upd_stats_def)

lemma random_cache_block_id_in [simp]:
  "cache_inv bc \<Longrightarrow> random_cache_block_id bc r \<in> block_ids bc"
  by (auto simp: cache_inv_def random_cache_block_id_def block_ids_def Suc_le_eq)

lemma random_cache_block_id_bounds:
  assumes "cache_inv bc"
  shows "0 < random_cache_block_id bc r" "random_cache_block_id bc r \<le> bc_total_entries bc"
  using random_cache_block_id_in [OF assms, of r] by (auto simp: block_ids_def)

lemma cache_get_clean_random_pick:
  assumes inv: "cache_inv bc"
  shows "b \<in> block_ids bc \<Longrightarrow>
    \<exists>ob bc'. cache_get_clean_random n bc r b = Some (ob, bc') \<and> clean_pick bc ob bc'"
proof (induction n arbitrary: r b)
  case 0
  then show ?case by (simp add: clean_pick_same)
next
  case (Suc n)
  have id: "bcb_block_id (blk bc b) = b"
    using inv_block_wf [OF inv Suc.prems] by (simp add: block_wf_def)
  let ?r = "cache_block_pseudo_random r"
  note nxt = Suc.IH [OF random_cache_block_id_in [OF inv], of ?r ?r]
  show ?case
  proof (cases "bcb_refcount (blk bc b) = 0 \<and> bcb_state (blk bc b) = S_CLEAN")
    case True
    with inv Suc.prems id show ?thesis by (simp add: hold_eq clean_pick_held)
  next
    case False
    with inv Suc.prems id nxt show ?thesis
      by (auto simp: hold_eq hold_release random_cache_block_id_bounds)
  qed
qed

lemma cache_get_clean_fifo_lru_pick:
  assumes inv: "cache_inv bc"
  shows "\<exists>ob bc'. cache_get_clean_fifo_lru bc = Some (ob, bc') \<and> clean_pick bc ob bc'"
proof (cases "bc_valid_entries_list bc")
  case Nil
  then show ?thesis by (simp add: cache_get_clean_fifo_lru_def clean_pick_same)
next
  case (Cons b rest)
  then have b: "b \<in> block_ids bc" using inv_lists(2) [OF inv] by auto
  show ?thesis
  proof (cases "bcb_refcount (blk bc b) = 0 \<and> bcb_state (blk bc b) = S_CLEAN")
    case True
    with inv Cons b show ?thesis
      by (simp add: cache_get_clean_fifo_lru_def assert_defs hold_eq clean_pick_held)
  next
    case False
    with inv Cons b show ?thesis
      by (auto simp: cache_get_clean_fifo_lru_def assert_defs hold_eq hold_release clean_pick_same)
  qed
qed

text \<open>The last resort fails only when there is no clean block or the oldest one is busy.\<close>

definition clean_head_busy :: "bittern_cache \<Rightarrow> bool" where
  "clean_head_busy bc \<longleftrightarrow>
     bc_valid_entries_clean_list bc = [] \<or>
     bcb_refcount (blk bc (hd (bc_valid_entries_clean_list bc))) = 1"

lemma idle_clean_state:
  assumes "cache_inv bc" "b \<in> block_ids bc" "clean_state (bcb_state (blk bc b))"
    "bcb_refcount (blk bc b) = 0"
  shows "bcb_state (blk bc b) = S_CLEAN"
  using idle_block(2) [OF assms(1,2,4)] assms(3) by (auto simp: stable_state_def clean_state_def dirty_state_def)

lemma cache_get_clean_last_resort_pick:
  assumes inv: "cache_inv bc"
  shows "\<exists>ob bc'. cache_get_clean_last_resort bc = Some (ob, bc') \<and> clean_pick bc ob bc' \<and>
    (ob = None \<longrightarrow> clean_head_busy bc)"
proof (cases "bc_valid_entries_clean_list bc")
  case Nil
  with inv show ?thesis
    by (simp add: cache_get_clean_last_resort_def assert_defs Let_def clean_pick_miss clean_head_busy_def)
next
  case (Cons b rest)
  then have b: "b \<in> block_ids bc" "clean_state (bcb_state (blk bc b))"
    using inv_lists(3) [OF inv] by auto
  show ?thesis
  proof (cases "bcb_refcount (blk bc b) = 0")
    case True
    with inv Cons b idle_clean_state [OF inv b True] show ?thesis
      by (simp add: cache_get_clean_last_resort_def assert_defs hold_eq clean_pick_held)
  next
    case False
    with refcount_cases [OF inv b(1)] inv Cons b show ?thesis
      by (simp add: cache_get_clean_last_resort_def assert_defs hold_eq hold_release Let_def
          clean_pick_miss clean_head_busy_def)
  qed
qed

definition cache_get_clean_post ::
  "bittern_cache \<Rightarrow> cache_get_ret \<Rightarrow> nat option \<Rightarrow> bittern_cache \<Rightarrow> bool" where
  "cache_get_clean_post bc ret ob bc' \<longleftrightarrow>
     (case (ret, ob) of
        (CACHE_GET_RET_HIT_IDLE, Some b) \<Rightarrow>
          b \<in> block_ids bc \<and> bcb_state (blk bc b) = S_CLEAN \<and> bcb_refcount (blk bc b) = 0 \<and>
          bc_cache_blocks bc' = (bc_cache_blocks bc)(b := (blk bc b)\<lparr> bcb_refcount := 1 \<rparr>)
      | (CACHE_GET_RET_MISS, None) \<Rightarrow>
          clean_head_busy bc \<and> bc_cache_blocks bc' = bc_cache_blocks bc
      | _ \<Rightarrow> False)"

lemma clean_pick_inv:
  "cache_inv bc \<Longrightarrow> clean_pick bc ob bc' \<Longrightarrow> cache_inv bc'"
  by (auto simp: clean_pick_def cache_inv_held split: option.splits)

lemma clean_pick_post:
  "clean_pick bc (Some b) bc' \<Longrightarrow> cache_get_clean_post bc CACHE_GET_RET_HIT_IDLE (Some b) bc'"
  by (auto simp: clean_pick_def cache_get_clean_post_def)

lemma clean_head_busy_stats [simp]: "clean_head_busy (upd_stats f bc) = clean_head_busy bc"
  by (simp add: clean_head_busy_def)

lemma clean_pick_stats: "clean_pick (upd_stats f bc) ob bc' \<Longrightarrow> clean_pick bc ob bc'"
  by (auto simp: clean_pick_def held_def upd_block_def upd_stats_def block_ids_def split: option.splits)

lemma cache_get_clean_by_mode_pick:
  assumes inv: "cache_inv bc"
  shows "\<exists>ob bc'. cache_get_clean_by_mode bc random_int = Some (ob, bc') \<and> clean_pick bc ob bc'"
  using cache_get_clean_random_pick [OF inv random_cache_block_id_in [OF inv]]
    cache_get_clean_fifo_lru_pick [OF inv] random_cache_block_id_bounds [OF inv]
  by (auto simp: cache_get_clean_by_mode_def Let_def clean_pick_same)

lemma cache_get_clean_spec:
  assumes inv: "cache_inv bc"
  shows "\<exists>ret ob bc'. cache_get_clean bc random_int = Some ((ret, ob), bc') \<and> cache_inv bc' \<and>
    cache_get_clean_post bc ret ob bc'"
proof -
  have mode: "cache_replacement_mode_ok (bc_replacement_mode bc)"
    using inv_ok [OF inv] by (simp add: bittern_cache_ok_def)
  from cache_get_clean_by_mode_pick [OF inv] obtain ob1 bc1 where
    first: "cache_get_clean_by_mode bc random_int = Some (ob1, bc1)" "clean_pick bc ob1 bc1"
    by blast
  note get = cache_get_clean_def assert_defs inv mode
  show ?thesis
  proof (cases ob1)
    case (Some b)
    with first have "clean_pick bc (Some b) bc1" by simp
    with clean_pick_inv [OF inv this] clean_pick_post [OF this] first(1) Some show ?thesis
      by (auto simp: get clean_pick_def)
  next
    case None
    with first(2) obtain f where bc1: "bc1 = upd_stats f bc" by (auto simp: clean_pick_def)
    from cache_get_clean_last_resort_pick [of bc1] inv bc1 obtain ob2 bc2 where
      last: "cache_get_clean_last_resort bc1 = Some (ob2, bc2)" "clean_pick bc ob2 bc2"
        "ob2 = None \<Longrightarrow> clean_head_busy bc" by (auto dest: clean_pick_stats)
    show ?thesis
    proof (cases ob2)
      case None
      then show ?thesis
        using first(1) \<open>ob1 = None\<close> last clean_pick_inv [OF inv last(2)]
        by (auto simp: get clean_pick_def cache_get_clean_post_def)
    next
      case (Some b)
      with last have "clean_pick bc (Some b) bc2" by simp
      with clean_pick_inv [OF inv this] clean_pick_post [OF this] first(1) last(1) \<open>ob1 = None\<close> Some
      show ?thesis by (auto simp: get clean_pick_def)
    qed
  qed
qed

text \<open>
  C11: Picking a victim for invalidation, in every replacement mode and for every random number,
  never fails an assertion, keeps the invariant, and hands out an idle clean block that the
  caller then holds alone; it fails only if there is no clean block or the one at the head of the
  clean list is busy.
\<close>

theorem cache_get_clean_correct:
  assumes inv: "cache_inv bc"
  shows "\<exists>ret ob bc'. cache_get_clean bc random_int = Some ((ret, ob), bc') \<and> cache_inv bc' \<and>
    cache_get_clean_post bc ret ob bc'"
  using assms by (rule cache_get_clean_spec)

section \<open>Block by number, oldest dirty block\<close>

definition cache_get_by_id_post ::
  "bittern_cache \<Rightarrow> nat \<Rightarrow> cache_get_ret \<Rightarrow> nat option \<Rightarrow> bittern_cache \<Rightarrow> bool" where
  "cache_get_by_id_post bc b ret ob bc' \<longleftrightarrow>
     (if bcb_refcount (blk bc b) = 1 then
        ret = CACHE_GET_RET_HIT_BUSY \<and> ob = None \<and> bc' = bc
      else if bcb_state (blk bc b) = S_INVALID then
        ret = CACHE_GET_RET_INVALID \<and> ob = None \<and> bc' = bc
      else ret = CACHE_GET_RET_HIT_IDLE \<and> ob = Some b \<and> bc' = held b bc)"

text \<open>
  C14: A lookup by block number hands out the block exactly if it is idle and not invalid.  A block
  that somebody holds gives busy and an idle invalid one gives invalid; in both cases no block is
  returned, no reference is taken and the cache is as it was.
\<close>

theorem cache_get_by_id_correct:
  assumes inv: "cache_inv bc" and b: "b \<in> block_ids bc"
  shows "\<exists>ret ob bc'. cache_get_by_id bc b = Some ((ret, ob), bc') \<and> cache_inv bc' \<and>
    cache_get_by_id_post bc b ret ob bc'"
proof -
  have wf: "block_wf b (blk bc b)" by (rule inv_block_wf [OF inv b])
  have range: "0 < b" "b \<le> bc_total_entries bc" using b by (auto simp: block_ids_def)
  note simps = cache_get_by_id_def cache_get_by_id_post_def assert_defs Let_def hold_eq hold_release
  from refcount_cases [OF inv b] show ?thesis
  proof
    assume idle: "bcb_refcount (blk bc b) = 0"
    with wf have "bcb_state (blk bc b) \<in> {S_INVALID, S_CLEAN, S_DIRTY}" "bcb_cache_transition (blk bc b) = TS_NONE"
      by (auto simp: block_wf_def stable_state_def)
    with inv b wf range idle cache_inv_held [OF inv b idle] show ?thesis
      by (auto simp: simps block_wf_def)
  next
    assume "bcb_refcount (blk bc b) = 1"
    with inv b wf range show ?thesis by (auto simp: simps block_wf_def)
  qed
qed

text \<open>The oldest dirty block, if it is idle and was not modified in the last seconds.\<close>

definition cache_get_dirty_post ::
  "bittern_cache \<Rightarrow> int \<Rightarrow> u32 \<Rightarrow> int \<Rightarrow> nat option \<Rightarrow> bittern_cache \<Rightarrow> bool" where
  "cache_get_dirty_post bc age now ret ob bc' \<longleftrightarrow>
     (case bc_valid_entries_dirty_list bc of
        [] \<Rightarrow> ret = - EAGAIN \<and> ob = None \<and> bc' = bc
      | b # _ \<Rightarrow>
          if bcb_refcount (blk bc b) = 1 then ret = - EBUSY \<and> ob = None \<and> bc' = bc
          else if int (unat (now - bcb_last_modify (blk bc b))) < age then
            ret = - ETIME \<and> ob = None \<and> bc' = bc
          else ret = 0 \<and> ob = Some b \<and> bcb_state (blk bc b) = S_DIRTY \<and> bc' = held b bc)"

lemma word_less_of_int:
  assumes "0 \<le> k" "k < 2 ^ 32"
  shows "(w :: u32) < of_int k \<longleftrightarrow> int (unat w) < k"
  using assms by (simp add: word_less_def uint_word_of_int take_bit_int_eq_self)

lemma idle_dirty_state:
  assumes "cache_inv bc" "b \<in> block_ids bc" "dirty_state (bcb_state (blk bc b))"
    "bcb_refcount (blk bc b) = 0"
  shows "bcb_state (blk bc b) = S_DIRTY"
  using idle_block(2) [OF assms(1,2,4)] assms(3) by (auto simp: stable_state_def dirty_state_def)

lemma cache_get_dirty_from_head_spec:
  assumes inv: "cache_inv bc" and age: "0 \<le> age" "age < 2 ^ 31"
  shows "\<exists>ret ob bc'. cache_get_dirty_from_head bc age now = Some ((ret, ob), bc') \<and> cache_inv bc' \<and>
    cache_get_dirty_post bc age now ret ob bc'"
proof (cases "bc_valid_entries_dirty_list bc")
  case Nil
  with inv age show ?thesis
    by (simp add: cache_get_dirty_from_head_def cache_get_dirty_post_def assert_defs)
next
  case (Cons b rest)
  then have b: "b \<in> block_ids bc" "dirty_state (bcb_state (blk bc b))"
    using inv_lists(4) [OF inv] by auto
  note simps = cache_get_dirty_from_head_def cache_get_dirty_post_def assert_defs Let_def hold_eq
    hold_release word_less_of_int
  from refcount_cases [OF inv b(1)] show ?thesis
  proof
    assume idle: "bcb_refcount (blk bc b) = 0"
    from Cons inv b(1) age idle cache_inv_held [OF inv b(1) idle] idle_dirty_state [OF inv b idle]
    show ?thesis by (simp add: simps)
  next
    assume "bcb_refcount (blk bc b) = 1"
    with Cons inv b age show ?thesis by (simp add: simps)
  qed
qed

text \<open>
  C12: The background writer gets the block at the head of the dirty list exactly if it is idle and
  at least as old as requested, where the age is computed modulo 2 to the 32; the three errors are
  returned in the three other cases and leave the cache as it was.
\<close>

theorem cache_get_dirty_from_head_correct:
  assumes inv: "cache_inv bc" and age: "0 \<le> age" "age < 2 ^ 31"
  shows "\<exists>ret ob bc'. cache_get_dirty_from_head bc age now = Some ((ret, ob), bc') \<and> cache_inv bc' \<and>
    cache_get_dirty_post bc age now ret ob bc'"
  using assms by (rule cache_get_dirty_from_head_spec)

section \<open>Cloning a dirty block\<close>

text \<open>
  A write to a dirty block goes to a second block for the same sector, so that the old contents
  stay valid until the new ones are complete.
\<close>

definition cache_get_clone_post ::
  "bittern_cache \<Rightarrow> nat \<Rightarrow> bool \<Rightarrow> u32 \<Rightarrow> cache_get_ret \<Rightarrow> nat option \<Rightarrow> bittern_cache \<Rightarrow> bool" where
  "cache_get_clone_post bc orig is_dirty now ret ob bc' \<longleftrightarrow>
     (case (ret, ob) of
        (CACHE_GET_RET_MISS_INVALID_IDLE, Some b) \<Rightarrow>
          b \<noteq> orig \<and> bcb_state (blk bc b) = S_INVALID \<and> bcb_refcount (blk bc b) = 0 \<and>
          bc_cache_blocks bc' = (bc_cache_blocks bc)(b :=
            allocated (sector_of bc orig) (if is_dirty then S_DIRTY_NO_DATA else S_CLEAN_NO_DATA)
              now (blk bc b))
      | (CACHE_GET_RET_MISS, None) \<Rightarrow>
          bc_cache_blocks bc' = bc_cache_blocks bc \<and>
          (bc_invalid_entries_list bc = [] \<or>
           bcb_refcount (blk bc (hd (bc_invalid_entries_list bc))) = 1)
      | _ \<Rightarrow> False)"

lemma cache_get_clone_spec:
  assumes inv: "cache_inv bc" and orig: "orig \<in> valid_members bc" "bcb_refcount (blk bc orig) = 1"
  shows "\<exists>ret ob bc'. cache_get_clone bc orig is_dirty now = Some ((ret, ob), bc') \<and> cache_inv bc' \<and>
    cache_get_clone_post bc orig is_dirty now ret ob bc'"
proof -
  let ?s = "sector_of bc orig" and ?fl = "if is_dirty then CACHE_FL_DIRTY else CACHE_FL_CLEAN"
  have id: "orig \<in> block_ids bc" using orig by simp
  from inv_block_wf [OF inv id] orig have s: "?s = sector_to_cache_block_sector ?s"
    "is_sector_number_valid ?s" by (simp_all add: block_wf_def aligned_block_sector)
  have fl: "?fl = CACHE_FL_CLEAN \<or> ?fl = CACHE_FL_DIRTY"
    and neq: "CACHE_FL_DIRTY \<noteq> CACHE_FL_CLEAN" by (simp_all add: cache_fl_defs)
  note simps = cache_get_clone_def cache_get_invalid_block_def assert_defs Let_def inv id
    cache_get_clone_post_def
  show ?thesis
  proof (cases rule: cache_get_invalid_block_cases [OF inv fl s, of now, case_names alloc busy])
    case (alloc b bc')
    moreover have "b \<noteq> orig" using alloc(4) orig(1) by auto
    ultimately show ?thesis
      using neq block_changedD(1,2) [OF alloc(6)] by (auto simp: simps)
  next
    case (busy f)
    then show ?thesis by (auto simp: simps)
  qed
qed

text \<open>
  C13: A clone of a held block is a different, previously invalid block, held by the caller, that has
  the sector of the original; the original is unchanged and the invariant is kept.
\<close>

theorem cache_get_clone_correct:
  assumes inv: "cache_inv bc" and orig: "orig \<in> valid_members bc" "bcb_refcount (blk bc orig) = 1"
  shows "\<exists>ret ob bc'. cache_get_clone bc orig is_dirty now = Some ((ret, ob), bc') \<and> cache_inv bc' \<and>
    cache_get_clone_post bc orig is_dirty now ret ob bc'"
  using assms by (rule cache_get_clone_spec)

section \<open>Releasing a block\<close>

definition sole_idle :: "bittern_cache \<Rightarrow> nat \<Rightarrow> bool" where
  "sole_idle bc b \<longleftrightarrow>
     (\<forall>d \<in> valid_members bc. d \<noteq> b \<longrightarrow> sector_of bc d = sector_of bc b \<longrightarrow>
        bcb_refcount (blk bc d) = 1)"

definition put_block :: "bool \<Rightarrow> u32 \<Rightarrow> cache_block \<Rightarrow> cache_block" where
  "put_block update_age now c =
     c\<lparr> bcb_last_modify := (if update_age then now else bcb_last_modify c), bcb_refcount := 0 \<rparr>"

lemma cache_put_gen_eq:
  assumes inv: "cache_inv bc" and b: "b \<in> block_ids bc" "bcb_refcount (blk bc b) = 1"
    and own: "is_owner \<Longrightarrow> bcb_cache_transition (blk bc b) = TS_NONE \<and> stable_state (bcb_state (blk bc b))"
  shows "cache_put_gen bc b is_owner update_age now = Some (upd_block (put_block update_age now) b bc)"
proof -
  have ok: "bittern_cache_ok bc" "cache_block_ok bc b" using inv b by simp_all
  have rel: "cache_block_release (upd_block f b bc) b =
      Some (0, upd_block (\<lambda>c. (f c)\<lparr> bcb_refcount := 0 \<rparr>) b bc)"
    if "\<And>c. bcb_block_id (f c) = bcb_block_id c" "\<And>c. bcb_refcount (f c) = bcb_refcount c" for f
    using ok b that
    by (subst release_eq) (auto simp: cache_block_ok_def bittern_cache_ok_def released_def upd_block_def)
  have rel0: "cache_block_release bc b = Some (0, upd_block (\<lambda>c. c\<lparr> bcb_refcount := 0 \<rparr>) b bc)"
    using rel [of "\<lambda>c. c"] by (simp add: upd_block_def)
  from ok b own show ?thesis
    by (auto simp: cache_put_gen_def assert_defs Let_def rel rel0 cache_block_ok_def stable_state_def
        put_block_def [abs_def])
qed

text \<open>
  The owner of a block may release it when it is outside every path and every other block
  of the same sector is held.
\<close>

lemma cache_inv_put:
  assumes inv: "cache_inv bc" and b: "b \<in> block_ids bc" "bcb_refcount (blk bc b) = 1"
    and own: "bcb_cache_transition (blk bc b) = TS_NONE" "stable_state (bcb_state (blk bc b))"
    and sole: "bcb_state (blk bc b) = S_INVALID \<or> sole_idle bc b"
  shows "cache_inv (upd_block (put_block update_age now) b bc)"
  using inv_block_wf [OF inv b(1)] own sole
  by (intro cache_inv_upd_block [OF inv b(1)]) (auto simp: block_wf_def put_block_def sole_idle_def)


text \<open>
  Dropping a block: it leaves the index and the valid lists, and ends idle, without a sector,
  at the tail of the invalid list.
\<close>

definition dropped :: "cache_block \<Rightarrow> cache_block" where
  "dropped c = c\<lparr> bcb_hash_data := UINT128_ZERO, bcb_sector := SECTOR_NUMBER_INVALID,
     bcb_cache_transition := TS_NONE, bcb_state := S_INVALID \<rparr>"

definition drop_state :: "nat \<Rightarrow> bool \<Rightarrow> nat tree \<Rightarrow> bittern_cache \<Rightarrow> bittern_cache" where
  "drop_state b is_dirty t bc =
     bc\<lparr> bc_rb_root := t,
        bc_valid_entries := bc_valid_entries bc - 1,
        bc_valid_entries_clean := bc_valid_entries_clean bc - of_bool (\<not> is_dirty),
        bc_valid_entries_dirty := bc_valid_entries_dirty bc - of_bool is_dirty,
        bc_invalid_entries := bc_invalid_entries bc + 1,
        bc_invalid_entries_list := removeAll b (bc_invalid_entries_list bc) @ [b],
        bc_valid_entries_list := removeAll b (bc_valid_entries_list bc),
        bc_valid_entries_clean_list := removeAll b (bc_valid_entries_clean_list bc),
        bc_valid_entries_dirty_list := removeAll b (bc_valid_entries_dirty_list bc),
        bc_cache_blocks := (bc_cache_blocks bc)(b := dropped (blk bc b)) \<rparr>"

lemma drop_state_sel:
  "bc_rb_root (drop_state b is_dirty t bc) = t" "bc_env (drop_state b is_dirty t bc) = bc_env bc"
  "bc_cache_blocks (drop_state b is_dirty t bc) = (bc_cache_blocks bc)(b := dropped (blk bc b))"
  "bc_invalid_entries_list (drop_state b is_dirty t bc) = removeAll b (bc_invalid_entries_list bc) @ [b]"
  "block_ids (drop_state b is_dirty t bc) = block_ids bc"
  by (simp_all add: drop_state_def block_ids_def)

lemma drop_state_inv:
  assumes inv: "cache_inv bc" and b: "b \<in> block_ids bc" "bcb_state (blk bc b) \<noteq> S_INVALID"
    and dirty: "is_dirty = dirty_state (bcb_state (blk bc b))"
    and t: "inorder t = remove1 b (inorder (bc_rb_root bc))"
  shows "cache_inv (drop_state b is_dirty t bc)"
proof (rule cache_inv_update [OF inv b(1), where c = "dropped (blk bc b)"])
  have rb: "rb_inv bc" using inv by simp
  then have d: "distinct (inorder (bc_rb_root bc))" by (simp add: rb_inv_def)
  show "list_upd b (bcb_state (dropped (blk bc b)) \<noteq> S_INVALID) (inorder (bc_rb_root bc))
     (inorder (bc_rb_root (drop_state b is_dirty t bc)))"
    using d by (simp add: drop_state_def t list_upd_def dropped_def)
  have nb: "b \<notin> set (inorder t)" using d by (simp add: t)
  have "sorted (map (sector_of bc) (inorder t))"
    using rb by (simp add: t rb_inv_def sorted_map_remove1)
  then show "sorted (map (\<lambda>d. bcb_sector (blk (drop_state b is_dirty t bc) d))
      (inorder (bc_rb_root (drop_state b is_dirty t bc))))"
    using sector_of_upd_other [OF nb, of "bc_cache_blocks bc" "dropped (blk bc b)"]
    by (simp only: drop_state_sel)
qed (use inv b dirty inv_block_wf [OF inv b(1)] in \<open>auto simp: drop_state_def count_upd_def dropped_def
       block_wf_def bittern_cache_ok_def clean_state_def stable_state_def cache_inv_def\<close>)

lemma cache_put_eq:
  assumes "cache_inv bc" "b \<in> block_ids bc" "bcb_refcount (blk bc b) = 1"
    and "bcb_cache_transition (blk bc b) = TS_NONE" "stable_state (bcb_state (blk bc b))"
    and "bcb_state (blk bc b) = S_INVALID \<or> sole_idle bc b"
  shows "cache_put bc b True = Some (upd_block (\<lambda>c. c\<lparr> bcb_refcount := 0 \<rparr>) b bc)"
    and "cache_inv (upd_block (\<lambda>c. c\<lparr> bcb_refcount := 0 \<rparr>) b bc)"
  using assms cache_put_gen_eq [OF assms(1-3), of True False 0] cache_inv_put [OF assms, of False 0]
  by (auto simp: cache_put_def put_block_def [abs_def] upd_block_def)

text \<open>The effect of a valid transition on a block that is in its path.\<close>

lemma cache_state_transition_final_eq:
  assumes "bittern_cache_ok bc" "cache_block_ok bc b"
    and "stable_state s"
    and "assert_on bc \<Longrightarrow>
      cache_validate_state_transition (bcb_cache_transition (blk bc b)) (bcb_state (blk bc b)) TS_NONE s = 0"
  shows "\<exists>f. cache_state_transition_final bc b TS_NONE s =
    Some (upd_stats f (upd_block (\<lambda>c. c\<lparr> bcb_cache_transition := TS_NONE, bcb_state := s \<rparr>) b bc))"
  using assms
  by (auto simp: cache_state_transition_final_def cache_state_transition_gen_def assert_defs Let_def
      stable_state_def)

lemma cache_move_to_invalid_spec:
  assumes inv: "cache_inv bc" and b: "b \<in> block_ids bc" "bcb_refcount (blk bc b) = 1"
    and st: "bcb_state (blk bc b) \<noteq> S_INVALID" "\<not> stable_state (bcb_state (blk bc b))"
      "cache_validate_state_transition (bcb_cache_transition (blk bc b)) (bcb_state (blk bc b))
         TS_NONE S_INVALID = 0"
    and dirty: "is_dirty = dirty_state (bcb_state (blk bc b))"
  shows "\<exists>bc'. cache_move_to_invalid bc b is_dirty = Some bc' \<and> cache_inv bc' \<and>
    last (bc_invalid_entries_list bc') = b \<and>
    bc_cache_blocks bc' = (bc_cache_blocks bc)(b := (dropped (blk bc b))\<lparr> bcb_refcount := 0 \<rparr>)"
proof -
  have ok: "bittern_cache_ok bc" "cache_block_ok bc b" using inv b by simp_all
  have "b \<in> set (inorder (bc_rb_root bc))" using inv b(1) st(1) by (simp add: in_lists)
  from rb_remove_spec [OF inv_rb_inv [OF inv] this] obtain t where
    rem: "cache_rb_remove bc b = Some (bc\<lparr> bc_rb_root := t \<rparr>)"
    and t: "inorder t = remove1 b (inorder (bc_rb_root bc))" by blast
  let ?fin = "drop_state b is_dirty t bc"
  have inv': "cache_inv ?fin" by (rule drop_state_inv [OF inv b(1) st(1) dirty t])
  let ?bc1 = "upd_block (\<lambda>c. c\<lparr> bcb_hash_data := UINT128_ZERO, bcb_sector := SECTOR_NUMBER_INVALID \<rparr>) b
    (list_del_entry b (list_del_entry_cleandirty b (bc\<lparr> bc_rb_root := t \<rparr>)))"
  have "bittern_cache_ok ?bc1" "cache_block_ok ?bc1 b" "stable_state S_INVALID"
    using ok by (simp_all add: bittern_cache_ok_def cache_block_ok_def list_link_defs stable_state_def)
  moreover have "cache_validate_state_transition (bcb_cache_transition (blk ?bc1 b))
      (bcb_state (blk ?bc1 b)) TS_NONE S_INVALID = 0"
    using st(3) by (simp add: list_link_defs)
  ultimately obtain f where fin: "cache_state_transition_final ?bc1 b TS_NONE S_INVALID =
      Some (upd_stats f (upd_block (\<lambda>c. c\<lparr> bcb_cache_transition := TS_NONE, bcb_state := S_INVALID \<rparr>) b ?bc1))"
    using cache_state_transition_final_eq by blast
  have cnt: "0 \<le> bc_valid_entries bc - 1" "bc_valid_entries bc - 1 \<le> int (bc_total_entries bc)"
    "bc_invalid_entries bc + 1 \<le> int (bc_total_entries bc)"
    "0 \<le> bc_valid_entries_clean bc - of_bool (\<not> is_dirty)"
    "bc_valid_entries_clean bc - of_bool (\<not> is_dirty) \<le> int (bc_total_entries bc)"
    "0 \<le> bc_valid_entries_dirty bc - of_bool is_dirty"
    "bc_valid_entries_dirty bc - of_bool is_dirty \<le> int (bc_total_entries bc)"
    using inv_counters [OF inv'] by (simp_all add: drop_state_def)
  have "cache_move_to_invalid bc b is_dirty = cache_put (upd_stats f ?fin) b True"
  proof -
    note simps = cache_move_to_invalid_def assert_defs Let_def cache_block_is_held_def
      stable_state_def drop_state_def dropped_def list_link_defs upd_block_def upd_stats_def
    show ?thesis
      using ok b st rem fin cnt
      by (cases bc; cases is_dirty) (simp_all add: simps)
  qed
  moreover have "cache_put (upd_stats f ?fin) b True =
      Some (upd_block (\<lambda>c. c\<lparr> bcb_refcount := 0 \<rparr>) b (upd_stats f ?fin))"
    "cache_inv (upd_block (\<lambda>c. c\<lparr> bcb_refcount := 0 \<rparr>) b (upd_stats f ?fin))"
    using inv' b
    by (intro cache_put_eq; simp add: drop_state_sel dropped_def stable_state_def)+
  ultimately show ?thesis by (simp add: drop_state_sel)
qed

text \<open>
  C7: Moving a block to the invalid list at the end of an invalidation path removes it from the
  index, the lists and the counters of its class and leaves it idle and without a sector at the
  tail of the invalid list; the invariant is kept and no assertion fails.
\<close>

theorem cache_move_to_invalid_correct:
  assumes inv: "cache_inv bc" and b: "b \<in> block_ids bc" "bcb_refcount (blk bc b) = 1"
    and st: "bcb_state (blk bc b) \<noteq> S_INVALID" "\<not> stable_state (bcb_state (blk bc b))"
      "cache_validate_state_transition (bcb_cache_transition (blk bc b)) (bcb_state (blk bc b))
         TS_NONE S_INVALID = 0"
    and dirty: "is_dirty = dirty_state (bcb_state (blk bc b))"
  shows "\<exists>bc'. cache_move_to_invalid bc b is_dirty = Some bc' \<and> cache_inv bc' \<and>
    last (bc_invalid_entries_list bc') = b \<and>
    bc_cache_blocks bc' = (bc_cache_blocks bc)(b := (dropped (blk bc b))\<lparr> bcb_refcount := 0 \<rparr>)"
  using assms by (rule cache_move_to_invalid_spec)

text \<open>A block whose write back is complete becomes clean and idle.\<close>

definition clean_state_of :: "nat \<Rightarrow> bittern_cache \<Rightarrow> bittern_cache" where
  "clean_state_of b bc =
     bc\<lparr> bc_valid_entries_clean := bc_valid_entries_clean bc + 1,
        bc_valid_entries_dirty := bc_valid_entries_dirty bc - 1,
        bc_valid_entries_clean_list := removeAll b (bc_valid_entries_clean_list bc) @ [b],
        bc_valid_entries_dirty_list := removeAll b (bc_valid_entries_dirty_list bc),
        bc_cache_blocks := (bc_cache_blocks bc)(b := (blk bc b)
          \<lparr> bcb_cache_transition := TS_NONE, bcb_state := S_CLEAN \<rparr>) \<rparr>"

lemma clean_state_of_sel:
  "bc_env (clean_state_of b bc) = bc_env bc" "block_ids (clean_state_of b bc) = block_ids bc"
  "bc_cache_blocks (clean_state_of b bc) = (bc_cache_blocks bc)(b := (blk bc b)
     \<lparr> bcb_cache_transition := TS_NONE, bcb_state := S_CLEAN \<rparr>)"
  "bc_valid_entries_clean_list (clean_state_of b bc) = removeAll b (bc_valid_entries_clean_list bc) @ [b]"
  by (simp_all add: clean_state_of_def block_ids_def)

lemma clean_state_of_inv:
  assumes inv: "cache_inv bc" and b: "b \<in> block_ids bc" "bcb_refcount (blk bc b) = 1"
    and st: "dirty_state (bcb_state (blk bc b))" "\<not> writeback_inv_state (bcb_state (blk bc b))"
    and sole: "sole_idle bc b"
  shows "cache_inv (clean_state_of b bc)"
proof (rule cache_inv_update [OF inv b(1), where c = "(blk bc b)
    \<lparr> bcb_cache_transition := TS_NONE, bcb_state := S_CLEAN \<rparr>"])
  have "sector_of (clean_state_of b bc) = sector_of bc"
    by (auto simp: clean_state_of_def)
  then show "sorted (map (\<lambda>d. bcb_sector (blk (clean_state_of b bc) d))
      (inorder (bc_rb_root (clean_state_of b bc))))"
    using inv by (simp add: cache_inv_def index_inv_def clean_state_of_def)
  have "bcb_state (blk bc b) \<noteq> S_INVALID" using st(1) by auto
  then show "list_upd b (bcb_state ((blk bc b)\<lparr> bcb_cache_transition := TS_NONE, bcb_state := S_CLEAN \<rparr>) \<noteq> S_INVALID)
      (inorder (bc_rb_root bc)) (inorder (bc_rb_root (clean_state_of b bc)))"
    and "block_wf b ((blk bc b)\<lparr> bcb_cache_transition := TS_NONE, bcb_state := S_CLEAN \<rparr>)"
    using inv b inv_block_wf [OF inv b(1)]
    by (simp_all add: clean_state_of_def in_lists list_upd_same block_wf_def stable_state_def)
qed (use inv inv_ok [OF inv] b st sole in \<open>auto simp: clean_state_of_def count_upd_def bittern_cache_ok_def
       state_class_defs sole_idle_def in_lists intro!: list_upd_same simp del: removeAll_id\<close>)

lemma cache_move_to_clean_spec:
  assumes inv: "cache_inv bc" and b: "b \<in> block_ids bc" "bcb_refcount (blk bc b) = 1"
    and st: "dirty_state (bcb_state (blk bc b))" "\<not> writeback_inv_state (bcb_state (blk bc b))"
      "\<not> stable_state (bcb_state (blk bc b))"
      "cache_validate_state_transition (bcb_cache_transition (blk bc b)) (bcb_state (blk bc b))
         TS_NONE S_CLEAN = 0"
    and sole: "sole_idle bc b"
  shows "\<exists>bc'. cache_move_to_clean bc b = Some bc' \<and> cache_inv bc' \<and>
    last (bc_valid_entries_clean_list bc') = b \<and>
    bc_cache_blocks bc' = (bc_cache_blocks bc)(b := (blk bc b)
      \<lparr> bcb_cache_transition := TS_NONE, bcb_state := S_CLEAN, bcb_refcount := 0 \<rparr>)"
proof -
  have ok: "bittern_cache_ok bc" "cache_block_ok bc b" using inv b by simp_all
  let ?fin = "clean_state_of b bc"
  have inv': "cache_inv ?fin" by (rule clean_state_of_inv [OF inv b st(1,2) sole])
  obtain f where fin: "cache_state_transition_final bc b TS_NONE S_CLEAN =
      Some (upd_stats f (upd_block (\<lambda>c. c\<lparr> bcb_cache_transition := TS_NONE, bcb_state := S_CLEAN \<rparr>) b bc))"
    using cache_state_transition_final_eq [OF ok, of S_CLEAN] st(4) by (auto simp: stable_state_def)
  have cnt: "bc_valid_entries_clean bc + 1 \<le> int (bc_total_entries bc)"
    "0 \<le> bc_valid_entries_dirty bc - 1" "bc_valid_entries_dirty bc - 1 \<le> int (bc_total_entries bc)"
    "bc_valid_entries bc \<le> int (bc_total_entries bc)" "bc_invalid_entries bc \<le> int (bc_total_entries bc)"
    using inv_counters [OF inv'] by (simp_all add: clean_state_of_def)
  have ninv: "bcb_state (blk bc b) \<noteq> S_INVALID" using st(1) by auto
  have "cache_move_to_clean bc b = cache_put (upd_stats f ?fin) b True"
  proof -
    note simps = cache_move_to_clean_def assert_defs Let_def cache_block_is_held_def
      stable_state_def clean_state_of_def list_link_defs upd_block_def upd_stats_def
    show ?thesis
      using ok b st ninv fin cnt by (cases bc) (simp add: simps)
  qed
  moreover have "cache_put (upd_stats f ?fin) b True =
      Some (upd_block (\<lambda>c. c\<lparr> bcb_refcount := 0 \<rparr>) b (upd_stats f ?fin))"
    "cache_inv (upd_block (\<lambda>c. c\<lparr> bcb_refcount := 0 \<rparr>) b (upd_stats f ?fin))"
    using inv' b sole
    by (intro cache_put_eq; auto simp: clean_state_of_sel stable_state_def sole_idle_def)+
  ultimately show ?thesis by (simp add: clean_state_of_sel)
qed

text \<open>
  C8: Moving a block to the clean list at the end of a write back leaves it clean and idle at the
  tail of the clean list with the counters adjusted; the invariant is kept and no assertion fails.
\<close>

theorem cache_move_to_clean_correct:
  assumes inv: "cache_inv bc" and b: "b \<in> block_ids bc" "bcb_refcount (blk bc b) = 1"
    and st: "dirty_state (bcb_state (blk bc b))" "\<not> writeback_inv_state (bcb_state (blk bc b))"
      "\<not> stable_state (bcb_state (blk bc b))"
      "cache_validate_state_transition (bcb_cache_transition (blk bc b)) (bcb_state (blk bc b))
         TS_NONE S_CLEAN = 0"
    and sole: "sole_idle bc b"
  shows "\<exists>bc'. cache_move_to_clean bc b = Some bc' \<and> cache_inv bc' \<and>
    last (bc_valid_entries_clean_list bc') = b \<and>
    bc_cache_blocks bc' = (bc_cache_blocks bc)(b := (blk bc b)
      \<lparr> bcb_cache_transition := TS_NONE, bcb_state := S_CLEAN, bcb_refcount := 0 \<rparr>)"
  using assms by (rule cache_move_to_clean_spec)

end
