(* ===== verification/Pmem_Layout.thy ===== *)
theory Pmem_Layout
  imports Cache_Core
begin

unbundle bit_operations_syntax

text \<open>
  The layout of the cache device: where the two headers, the metadata and the data of every block
  are (\<open>bittern_cache_pmem_header.h\<close>, \<open>bittern_cache_pmem_api.c\<close>,
  \<open>bittern_cache_pmem_api_internal.h\<close>).  Offsets are 64-bit words, as in the code.  The lemmas
  show that the sizes computed for a new cache fit the device, that no assertion of the offset
  functions fails for them, and that no two regions overlap.
\<close>

section \<open>Constants and the header\<close>

definition CACHE_NAND_FLASH_ERASE_BLOCK_SIZE :: u64 where
  "CACHE_NAND_FLASH_ERASE_BLOCK_SIZE = 128 * 1024"

definition CACHE_MEM_HEADER_0_OFFSET_BYTES :: u64 where
  "CACHE_MEM_HEADER_0_OFFSET_BYTES = 0"

definition CACHE_MEM_HEADER_1_OFFSET_BYTES :: u64 where
  "CACHE_MEM_HEADER_1_OFFSET_BYTES = CACHE_NAND_FLASH_ERASE_BLOCK_SIZE"

definition CACHE_MEM_FIRST_OFFSET_BYTES :: u64 where
  "CACHE_MEM_FIRST_OFFSET_BYTES = CACHE_NAND_FLASH_ERASE_BLOCK_SIZE * 2"

definition PAGE_SIZE64 :: u64 where
  "PAGE_SIZE64 = of_nat PAGE_SIZE"

definition PMEM_BLOCK_METADATA_SIZE :: u64 where
  "PMEM_BLOCK_METADATA_SIZE = 64"

definition LM_MAGIC :: u32 where
  "LM_MAGIC = 0xf10c5704"

definition LM_VERSION :: u32 where
  "LM_VERSION = 11"

datatype cache_layout = CACHE_LAYOUT_SEQUENTIAL | CACHE_LAYOUT_INTERLEAVED

text \<open>The properties of a provider of persistent memory that the layout depends on.\<close>

record papi_interface =
  page_size_transfer_only :: bool
  cache_layout :: cache_layout

definition cache_papi_mem :: papi_interface where
  "cache_papi_mem = \<lparr> page_size_transfer_only = False, cache_layout = CACHE_LAYOUT_SEQUENTIAL \<rparr>"

definition cache_papi_block :: papi_interface where
  "cache_papi_block = \<lparr> page_size_transfer_only = True, cache_layout = CACHE_LAYOUT_INTERLEAVED \<rparr>"

text \<open>
  The header.  The fields \<open>lm_alignment_gap\<close> and \<open>lm_tail\<close> are the bytes that the compiler
  inserts for the alignment of the next field and of the structure; they are on the device and the
  gap is hashed.
\<close>

record pmem_header =
  lm_magic :: u32
  lm_version :: u32
  lm_header_size_bytes :: u32
  lm_cache_layout :: u8
  lm_alignment_pad :: "u8 list"
  lm_alignment_gap :: "u8 list"
  lm_cache_blocks :: u64
  lm_cache_block_size :: u64
  lm_mcb_size_bytes :: u64
  lm_cache_size_bytes :: u64
  lm_first_offset_bytes :: u64
  lm_first_data_block_offset_bytes :: u64
  lm_uuid :: "u8 list"
  lm_name :: "u8 list"
  lm_device_uuid :: "u8 list"
  lm_device_name :: "u8 list"
  lm_xid_first :: u64
  lm_xid_current :: u64
  lm_spare :: "u64 list"
  lm_hash :: uint128_t
  lm_tail :: "u8 list"

text \<open>The layouts are stored as the characters S and I.\<close>

definition layout_char :: "cache_layout \<Rightarrow> u8" where
  "layout_char l = (case l of CACHE_LAYOUT_SEQUENTIAL \<Rightarrow> 0x53 | CACHE_LAYOUT_INTERLEAVED \<Rightarrow> 0x49)"

text \<open>The kernel macros, for a power of two as the second argument.\<close>

definition round_down :: "u64 \<Rightarrow> u64 \<Rightarrow> u64" where
  "round_down x y = x AND NOT (y - 1)"

definition round_up :: "u64 \<Rightarrow> u64 \<Rightarrow> u64" where
  "round_up x y = ((x - 1) OR (y - 1)) + 1"

section \<open>Sizes of a new cache\<close>

definition pmem_initialize_pmem_header_sizes ::
  "bool \<Rightarrow> papi_interface \<Rightarrow> pmem_header \<Rightarrow> u64 \<Rightarrow> pmem_header option" where
  "pmem_initialize_pmem_header_sizes dbg papi pm device_cache_size_bytes =
     do {
       ASSERT dbg (device_cache_size_bytes > 0);
       let data_metadata_size = round_down device_cache_size_bytes CACHE_NAND_FLASH_ERASE_BLOCK_SIZE;
       M_ASSERT (data_metadata_size > 0);
       let data_metadata_size = data_metadata_size - CACHE_MEM_FIRST_OFFSET_BYTES;
       M_ASSERT (data_metadata_size > 0);
       let pm = pm\<lparr> lm_cache_block_size := PAGE_SIZE64, lm_header_size_bytes := of_nat PAGE_SIZE,
         lm_first_offset_bytes := CACHE_MEM_FIRST_OFFSET_BYTES \<rparr>;
       (pm, cache_blocks) \<leftarrow>
         (case cache_layout papi of
            CACHE_LAYOUT_SEQUENTIAL \<Rightarrow>
              do {
                let pm = pm\<lparr> lm_cache_layout := layout_char CACHE_LAYOUT_SEQUENTIAL \<rparr>;
                let mcb = (if page_size_transfer_only papi then PAGE_SIZE64
                           else PMEM_BLOCK_METADATA_SIZE);
                let cache_blocks = data_metadata_size div (PAGE_SIZE64 + mcb);
                let first_data = round_up (CACHE_MEM_FIRST_OFFSET_BYTES + cache_blocks * mcb) PAGE_SIZE64;
                ASSERT dbg (CACHE_MEM_FIRST_OFFSET_BYTES < first_data);
                Some (pm\<lparr> lm_mcb_size_bytes := mcb, lm_cache_blocks := cache_blocks,
                  lm_first_offset_bytes := CACHE_MEM_FIRST_OFFSET_BYTES,
                  lm_first_data_block_offset_bytes := first_data,
                  lm_cache_size_bytes := first_data + cache_blocks * PAGE_SIZE64 \<rparr>, cache_blocks)
              }
          | CACHE_LAYOUT_INTERLEAVED \<Rightarrow>
              do {
                let pm = pm\<lparr> lm_cache_layout := layout_char CACHE_LAYOUT_INTERLEAVED \<rparr>;
                ASSERT dbg (page_size_transfer_only papi);
                let cache_blocks = data_metadata_size div (PAGE_SIZE64 * 2);
                Some (pm\<lparr> lm_mcb_size_bytes := PAGE_SIZE64, lm_cache_blocks := cache_blocks,
                  lm_first_offset_bytes := CACHE_MEM_FIRST_OFFSET_BYTES,
                  lm_first_data_block_offset_bytes := CACHE_MEM_FIRST_OFFSET_BYTES,
                  lm_cache_size_bytes :=
                    CACHE_MEM_FIRST_OFFSET_BYTES + cache_blocks * (PAGE_SIZE64 * 2) \<rparr>, cache_blocks)
              });
       ASSERT dbg (cache_blocks > 0);
       ASSERT dbg (lm_first_offset_bytes pm = CACHE_MEM_FIRST_OFFSET_BYTES);
       ASSERT dbg (lm_first_offset_bytes pm \<le> lm_first_data_block_offset_bytes pm);
       ASSERT dbg (lm_first_data_block_offset_bytes pm < lm_cache_size_bytes pm);
       ASSERT dbg (lm_mcb_size_bytes pm = PMEM_BLOCK_METADATA_SIZE \<or> lm_mcb_size_bytes pm = PAGE_SIZE64);
       M_ASSERT (lm_cache_size_bytes pm \<le> device_cache_size_bytes);
       Some pm
     }"

section \<open>Offsets\<close>

definition cache_block_id_2_metadata_pmem_offset_p ::
  "bool \<Rightarrow> pmem_header \<Rightarrow> u64 \<Rightarrow> u64 option" where
  "cache_block_id_2_metadata_pmem_offset_p dbg pm block_id =
     do {
       ASSERT dbg (lm_magic pm = LM_MAGIC);
       ASSERT dbg (lm_cache_block_size pm = PAGE_SIZE64);
       ASSERT dbg (lm_cache_layout pm = layout_char CACHE_LAYOUT_INTERLEAVED \<or>
                   lm_cache_layout pm = layout_char CACHE_LAYOUT_SEQUENTIAL);
       ASSERT dbg (lm_first_offset_bytes pm = CACHE_MEM_FIRST_OFFSET_BYTES);
       ASSERT dbg (lm_cache_blocks pm > 0);
       ASSERT dbg (block_id > 0 \<and> block_id \<le> lm_cache_blocks pm);
       ret \<leftarrow>
         (if lm_cache_layout pm = layout_char CACHE_LAYOUT_SEQUENTIAL then
            do {
              ASSERT dbg (lm_mcb_size_bytes pm = PMEM_BLOCK_METADATA_SIZE \<or>
                          lm_mcb_size_bytes pm = PAGE_SIZE64);
              let m = lm_first_offset_bytes pm + lm_cache_blocks pm * lm_mcb_size_bytes pm;
              let m = round_up m PAGE_SIZE64;
              ASSERT dbg (m = lm_first_data_block_offset_bytes pm);
              Some (lm_first_offset_bytes pm + (block_id - 1) * lm_mcb_size_bytes pm)
            }
          else
            do {
              let ret = lm_first_offset_bytes pm + ((block_id - 1) * (PAGE_SIZE64 * 2) + PAGE_SIZE64);
              ASSERT dbg (lm_mcb_size_bytes pm = PAGE_SIZE64);
              ASSERT dbg (lm_first_data_block_offset_bytes pm = lm_first_offset_bytes pm);
              Some ret
            });
       ASSERT dbg (ret + PAGE_SIZE64 \<le> lm_cache_size_bytes pm);
       Some ret
     }"

definition cache_block_id_2_data_pmem_offset_p ::
  "bool \<Rightarrow> pmem_header \<Rightarrow> u64 \<Rightarrow> u64 option" where
  "cache_block_id_2_data_pmem_offset_p dbg pm block_id =
     do {
       ASSERT dbg (lm_magic pm = LM_MAGIC);
       ASSERT dbg (lm_cache_block_size pm = PAGE_SIZE64);
       ASSERT dbg (lm_cache_layout pm = layout_char CACHE_LAYOUT_INTERLEAVED \<or>
                   lm_cache_layout pm = layout_char CACHE_LAYOUT_SEQUENTIAL);
       ASSERT dbg (lm_first_offset_bytes pm = CACHE_MEM_FIRST_OFFSET_BYTES);
       ASSERT dbg (lm_cache_blocks pm > 0);
       ASSERT dbg (block_id > 0 \<and> block_id \<le> lm_cache_blocks pm);
       ret \<leftarrow>
         (if lm_cache_layout pm = layout_char CACHE_LAYOUT_SEQUENTIAL then
            do {
              let m = lm_first_offset_bytes pm + lm_cache_blocks pm * lm_mcb_size_bytes pm;
              let m = round_up m PAGE_SIZE64;
              ASSERT dbg (m = lm_first_data_block_offset_bytes pm);
              let ret = lm_first_data_block_offset_bytes pm + (block_id - 1) * PAGE_SIZE64;
              ASSERT dbg (lm_first_data_block_offset_bytes pm < lm_cache_size_bytes pm);
              Some ret
            }
          else
            do {
              let ret = lm_first_data_block_offset_bytes pm + (block_id - 1) * (PAGE_SIZE64 * 2);
              ASSERT dbg (lm_first_data_block_offset_bytes pm = lm_first_offset_bytes pm);
              Some ret
            });
       ASSERT dbg (lm_first_data_block_offset_bytes pm < lm_cache_size_bytes pm);
       ASSERT dbg (ret + PAGE_SIZE64 \<le> lm_cache_size_bytes pm);
       Some ret
     }"

text \<open>The variants that also check the size of the device.\<close>

definition cache_block_id_2_metadata_pmem_offset ::
  "bool \<Rightarrow> u64 \<Rightarrow> pmem_header \<Rightarrow> u32 \<Rightarrow> u64 option" where
  "cache_block_id_2_metadata_pmem_offset dbg bdev_size_bytes pm block_id =
     do {
       ASSERT dbg (lm_magic pm = LM_MAGIC);
       ASSERT dbg (lm_cache_blocks pm \<noteq> 0);
       ASSERT dbg (bdev_size_bytes > 0);
       ret \<leftarrow> cache_block_id_2_metadata_pmem_offset_p dbg pm (ucast block_id);
       ASSERT dbg (ret + PAGE_SIZE64 \<le> bdev_size_bytes);
       Some ret
     }"

definition cache_block_id_2_data_pmem_offset ::
  "bool \<Rightarrow> u64 \<Rightarrow> pmem_header \<Rightarrow> u32 \<Rightarrow> u64 option" where
  "cache_block_id_2_data_pmem_offset dbg bdev_size_bytes pm block_id =
     do {
       ASSERT dbg (lm_magic pm = LM_MAGIC);
       ASSERT dbg (lm_cache_blocks pm \<noteq> 0);
       ASSERT dbg (bdev_size_bytes > 0);
       ret \<leftarrow> cache_block_id_2_data_pmem_offset_p dbg pm (ucast block_id);
       ASSERT dbg (ret + PAGE_SIZE64 \<le> bdev_size_bytes);
       Some ret
     }"

text \<open>The self test of the offset functions at start up.\<close>

definition assert_offsets_at :: "bool \<Rightarrow> u64 \<Rightarrow> pmem_header \<Rightarrow> u64 \<Rightarrow> unit option" where
  "assert_offsets_at dbg bdev_size_bytes pm block_id =
     do {
       m \<leftarrow> cache_block_id_2_metadata_pmem_offset dbg bdev_size_bytes pm (ucast block_id);
       d \<leftarrow> cache_block_id_2_data_pmem_offset dbg bdev_size_bytes pm (ucast block_id);
       M_ASSERT (m \<le> lm_cache_size_bytes pm);
       M_ASSERT (d \<le> lm_cache_size_bytes pm)
     }"

definition pmem_assert_offsets :: "bool \<Rightarrow> u64 \<Rightarrow> pmem_header \<Rightarrow> unit option" where
  "pmem_assert_offsets dbg bdev_size_bytes pm =
     do {
       let cache_blocks = lm_cache_blocks pm;
       assert_offsets_at dbg bdev_size_bytes pm 1;
       assert_offsets_at dbg bdev_size_bytes pm 2;
       assert_offsets_at dbg bdev_size_bytes pm (cache_blocks div 2);
       assert_offsets_at dbg bdev_size_bytes pm (cache_blocks div 2 + 1);
       assert_offsets_at dbg bdev_size_bytes pm (cache_blocks - 100);
       assert_offsets_at dbg bdev_size_bytes pm (cache_blocks - 10);
       assert_offsets_at dbg bdev_size_bytes pm (cache_blocks - 2);
       assert_offsets_at dbg bdev_size_bytes pm (cache_blocks - 1);
       assert_offsets_at dbg bdev_size_bytes pm cache_blocks
     }"

section \<open>Words without wrap-around\<close>

lemma unat_add_nowrap: "unat a + unat b < 2 ^ 64 \<Longrightarrow> unat (a + b :: u64) = unat a + unat b"
  by (simp add: unat_word_ariths)

lemma unat_mult_nowrap: "unat a * unat b < 2 ^ 64 \<Longrightarrow> unat (a * b :: u64) = unat a * unat b"
  by (simp add: unat_word_ariths)

lemma unat_sub_nowrap: "unat b \<le> unat a \<Longrightarrow> unat (a - b :: u64) = unat a - unat b"
  by (simp add: unat_sub word_le_nat_alt)

lemma layout_consts [simp]:
  "unat PAGE_SIZE64 = 4096" "unat PMEM_BLOCK_METADATA_SIZE = 64"
  "unat CACHE_NAND_FLASH_ERASE_BLOCK_SIZE = 131072" "unat CACHE_MEM_FIRST_OFFSET_BYTES = 262144"
  "unat CACHE_MEM_HEADER_0_OFFSET_BYTES = 0" "unat CACHE_MEM_HEADER_1_OFFSET_BYTES = 131072"
  by (simp_all add: PAGE_SIZE64_def PAGE_SIZE_def PMEM_BLOCK_METADATA_SIZE_def
      CACHE_NAND_FLASH_ERASE_BLOCK_SIZE_def CACHE_MEM_FIRST_OFFSET_BYTES_def
      CACHE_MEM_HEADER_0_OFFSET_BYTES_def CACHE_MEM_HEADER_1_OFFSET_BYTES_def)

lemma unat_and_not_mask: "unat (w AND NOT (mask n) :: u64) = unat w div 2 ^ n * 2 ^ n"
proof -
  have "unat (w AND NOT (mask n)) = push_bit n (unat (drop_bit n w)) mod 2 ^ 64"
    unfolding and_not_mask by (simp add: unsigned_push_bit_eq take_bit_eq_mod)
  also have "\<dots> = (unat w div 2 ^ n * 2 ^ n) mod 2 ^ 64"
    using unat_less_exp [of w] unfolding unsigned_drop_bit_eq
    by (simp add: push_bit_eq_mult drop_bit_eq_div take_bit_nat_eq_self)
  also have "\<dots> = unat w div 2 ^ n * 2 ^ n"
  proof (rule mod_less)
    have "unat w div 2 ^ n * 2 ^ n \<le> unat w" by (rule div_times_less_eq_dividend)
    also have "\<dots> < 2 ^ 64" using unat_less_exp [of w] by simp
    finally show "unat w div 2 ^ n * 2 ^ n < 2 ^ 64" .
  qed
  finally show ?thesis .
qed

lemma unat_round_down:
  "unat (round_down x CACHE_NAND_FLASH_ERASE_BLOCK_SIZE) = unat x div 131072 * 131072"
proof -
  have "CACHE_NAND_FLASH_ERASE_BLOCK_SIZE - 1 = mask 17"
    by (simp add: CACHE_NAND_FLASH_ERASE_BLOCK_SIZE_def mask_eq_exp_minus_1)
  then show ?thesis by (simp add: round_down_def unat_and_not_mask)
qed

lemma or_mask: "(w :: u64) OR mask n = (w AND NOT (mask n)) + mask n"
  by (subst disjunctive_add) (auto simp: bit_simps intro: bit_word_eqI)

lemma unat_round_up:
  assumes "0 < unat x" "unat x + 4095 < 2 ^ 64"
  shows "unat (round_up x PAGE_SIZE64) = (unat x + 4095) div 4096 * 4096"
proof -
  have m: "PAGE_SIZE64 - 1 = mask 12" "mask 12 = (4095 :: u64)"
    by (simp_all add: PAGE_SIZE64_def PAGE_SIZE_def mask_eq_exp_minus_1)
  have x1: "unat (x - 1) = unat x - 1" using assms(1) by (simp add: unat_sub_nowrap)
  have e: "round_up x PAGE_SIZE64 = ((x - 1) AND NOT (mask 12)) + 4096"
    unfolding round_up_def m(1) or_mask by (simp add: m(2))
  have a: "unat ((x - 1) AND NOT (mask 12)) = (unat x - 1) div 4096 * 4096"
    by (simp add: unat_and_not_mask x1)
  have le: "(unat x - 1) div 4096 * 4096 \<le> unat x - 1" by simp
  have eq: "(unat x + 4095) div 4096 = (unat x - 1) div 4096 + 1"
    using assms(1) by (simp add: div_add_self2 [symmetric, of 4096 "unat x - 1"])
  have "unat (round_up x PAGE_SIZE64) = (unat x - 1) div 4096 * 4096 + 4096"
    unfolding e using a le assms(2) by (subst unat_add_nowrap) auto
  then show ?thesis unfolding eq by simp
qed

section \<open>Well-formed layouts\<close>

abbreviation nblocks :: "pmem_header \<Rightarrow> nat" where
  "nblocks pm \<equiv> unat (lm_cache_blocks pm)"

abbreviation mcb_size :: "pmem_header \<Rightarrow> nat" where
  "mcb_size pm \<equiv> unat (lm_mcb_size_bytes pm)"

abbreviation first_data :: "pmem_header \<Rightarrow> nat" where
  "first_data pm \<equiv> unat (lm_first_data_block_offset_bytes pm)"

abbreviation cache_size :: "pmem_header \<Rightarrow> nat" where
  "cache_size pm \<equiv> unat (lm_cache_size_bytes pm)"

abbreviation sequential :: "pmem_header \<Rightarrow> bool" where
  "sequential pm \<equiv> lm_cache_layout pm = layout_char CACHE_LAYOUT_SEQUENTIAL"

text \<open>What the offset functions rely on, in terms of natural numbers.\<close>

definition layout_wf :: "pmem_header \<Rightarrow> bool" where
  "layout_wf pm \<longleftrightarrow>
     lm_magic pm = LM_MAGIC \<and> lm_cache_block_size pm = PAGE_SIZE64 \<and>
     lm_first_offset_bytes pm = CACHE_MEM_FIRST_OFFSET_BYTES \<and>
     0 < nblocks pm \<and> cache_size pm < 2 ^ 63 \<and>
     (if sequential pm
      then (mcb_size pm = 64 \<or> mcb_size pm = 4096) \<and>
           first_data pm = (262144 + nblocks pm * mcb_size pm + 4095) div 4096 * 4096 \<and>
           first_data pm + nblocks pm * 4096 \<le> cache_size pm
      else lm_cache_layout pm = layout_char CACHE_LAYOUT_INTERLEAVED \<and> mcb_size pm = 4096 \<and>
           first_data pm = 262144 \<and> 262144 + nblocks pm * 8192 \<le> cache_size pm)"

definition metadata_offset :: "pmem_header \<Rightarrow> nat \<Rightarrow> nat" where
  "metadata_offset pm i =
     (if sequential pm then 262144 + (i - 1) * mcb_size pm else 262144 + (i - 1) * 8192 + 4096)"

definition data_offset :: "pmem_header \<Rightarrow> nat \<Rightarrow> nat" where
  "data_offset pm i =
     (if sequential pm then first_data pm + (i - 1) * 4096 else 262144 + (i - 1) * 8192)"

lemma layout_wfD:
  assumes "layout_wf pm"
  shows "lm_magic pm = LM_MAGIC" "lm_cache_block_size pm = PAGE_SIZE64"
    "lm_first_offset_bytes pm = CACHE_MEM_FIRST_OFFSET_BYTES" "0 < nblocks pm" "cache_size pm < 2 ^ 63"
  using assms by (simp_all add: layout_wf_def)

lemma layout_wf_seq:
  assumes "layout_wf pm" "sequential pm"
  shows "mcb_size pm = 64 \<or> mcb_size pm = 4096"
    "first_data pm = (262144 + nblocks pm * mcb_size pm + 4095) div 4096 * 4096"
    "first_data pm + nblocks pm * 4096 \<le> cache_size pm"
    "262144 + nblocks pm * mcb_size pm \<le> first_data pm"
proof -
  show *: "mcb_size pm = 64 \<or> mcb_size pm = 4096"
    "first_data pm = (262144 + nblocks pm * mcb_size pm + 4095) div 4096 * 4096"
    "first_data pm + nblocks pm * 4096 \<le> cache_size pm"
    using assms by (simp_all add: layout_wf_def)
  show "262144 + nblocks pm * mcb_size pm \<le> first_data pm"
    unfolding *(2) using div_mult_mod_eq [of "262144 + nblocks pm * mcb_size pm + 4095" 4096]
      mod_less_divisor [of 4096 "262144 + nblocks pm * mcb_size pm + 4095"] by linarith
qed

lemma layout_wf_int:
  assumes "layout_wf pm" "\<not> sequential pm"
  shows "lm_cache_layout pm = layout_char CACHE_LAYOUT_INTERLEAVED"
    "mcb_size pm = 4096" "first_data pm = 262144" "262144 + nblocks pm * 8192 \<le> cache_size pm"
  using assms by (simp_all add: layout_wf_def)

lemma unat_pred: "0 < unat w \<Longrightarrow> unat (w - 1 :: u64) = unat w - 1"
  by (simp add: unat_sub_nowrap)

lemma mult_pred_le: "1 \<le> i \<Longrightarrow> i \<le> n \<Longrightarrow> (i - 1) * k + k \<le> n * k" for i n k :: nat
  by (metis Suc_diff_1 Suc_le_eq mult_Suc mult_le_mono1 add.commute One_nat_def)

lemma le_after_page:
  assumes "unat r + 4096 \<le> unat s"
  shows "r + PAGE_SIZE64 \<le> s"
proof -
  have "unat r + unat PAGE_SIZE64 < 2 ^ 64" using assms unat_less_exp [of s] by simp
  with assms show ?thesis by (simp add: word_le_nat_alt unat_add_nowrap)
qed

text \<open>The bounds of the offsets, which keep the word arithmetic from wrapping around.\<close>

lemma metadata_offset_bound:
  assumes wf: "layout_wf pm" and i: "1 \<le> i" "i \<le> nblocks pm"
  shows "metadata_offset pm i + 4096 \<le> cache_size pm"
proof (cases "sequential pm")
  case True
  note seq = layout_wf_seq [OF wf True]
  have "(i - 1) * mcb_size pm + mcb_size pm \<le> nblocks pm * mcb_size pm"
    by (rule mult_pred_le [OF i])
  moreover have "4096 \<le> nblocks pm * 4096" using i by simp
  ultimately show ?thesis using True seq by (simp add: metadata_offset_def)
next
  case False
  with mult_pred_le [OF i, of 8192] layout_wf_int [OF wf False] show ?thesis
    by (simp add: metadata_offset_def)
qed

lemma data_offset_bound:
  assumes wf: "layout_wf pm" and i: "1 \<le> i" "i \<le> nblocks pm"
  shows "data_offset pm i + 4096 \<le> cache_size pm"
proof (cases "sequential pm")
  case True
  with mult_pred_le [OF i, of 4096] layout_wf_seq [OF wf True] show ?thesis
    by (simp add: data_offset_def)
next
  case False
  with mult_pred_le [OF i, of 8192] layout_wf_int [OF wf False] show ?thesis
    by (simp add: data_offset_def)
qed

lemma round_up_first_data:
  assumes wf: "layout_wf pm" "sequential pm"
  shows "round_up (lm_first_offset_bytes pm + lm_cache_blocks pm * lm_mcb_size_bytes pm) PAGE_SIZE64
    = lm_first_data_block_offset_bytes pm"
proof -
  note seq = layout_wf_seq [OF wf] and d = layout_wfD [OF wf(1)]
  have mult: "unat (lm_cache_blocks pm * lm_mcb_size_bytes pm) = nblocks pm * mcb_size pm"
    using seq d by (intro unat_mult_nowrap) simp
  have sum: "unat (lm_first_offset_bytes pm + lm_cache_blocks pm * lm_mcb_size_bytes pm) =
      262144 + nblocks pm * mcb_size pm"
    using seq d mult by (subst unat_add_nowrap) simp_all
  have "unat (round_up (lm_first_offset_bytes pm + lm_cache_blocks pm * lm_mcb_size_bytes pm)
      PAGE_SIZE64) = first_data pm"
    unfolding seq(2) sum [symmetric]
    by (rule unat_round_up) (use sum seq(3,4) d(5) in simp)+
  then show ?thesis by (simp only: word_unat_eq_iff)
qed

lemma metadata_offset_eq:
  assumes wf: "layout_wf pm" and i: "1 \<le> unat i" "unat i \<le> nblocks pm"
  shows "\<exists>ret. cache_block_id_2_metadata_pmem_offset_p dbg pm i = Some ret \<and>
    unat ret = metadata_offset pm (unat i)"
proof -
  note d = layout_wfD [OF wf] and bound = metadata_offset_bound [OF wf i]
  have i0: "i > 0" "i \<le> lm_cache_blocks pm" "lm_cache_blocks pm > 0"
    using i d(4) by (simp_all add: word_less_nat_alt word_le_nat_alt)
  show ?thesis
  proof (cases "sequential pm")
    case True
    note seq = layout_wf_seq [OF wf True]
    let ?r = "lm_first_offset_bytes pm + (i - 1) * lm_mcb_size_bytes pm"
    have mcb: "lm_mcb_size_bytes pm = PMEM_BLOCK_METADATA_SIZE \<or> lm_mcb_size_bytes pm = PAGE_SIZE64"
      using seq(1) by (simp add: word_unat_eq_iff)
    have m: "unat ((i - 1) * lm_mcb_size_bytes pm) = (unat i - 1) * mcb_size pm"
      using i bound d(5) True unfolding metadata_offset_def
      by (subst unat_mult_nowrap) (simp_all add: unat_pred)
    have r: "unat ?r = metadata_offset pm (unat i)"
      using bound d(3,5) True unfolding metadata_offset_def
      by (subst unat_add_nowrap) (simp_all add: m)
    have "?r + PAGE_SIZE64 \<le> lm_cache_size_bytes pm"
      using bound r by (intro le_after_page) simp
    with True d i0 mcb r round_up_first_data [OF wf True] show ?thesis
      by (simp add: cache_block_id_2_metadata_pmem_offset_p_def Let_def)
  next
    case False
    note int = layout_wf_int [OF wf False]
    let ?r = "lm_first_offset_bytes pm + ((i - 1) * (PAGE_SIZE64 * 2) + PAGE_SIZE64)"
    have p2: "unat (PAGE_SIZE64 * 2) = 8192" by (simp add: PAGE_SIZE64_def PAGE_SIZE_def)
    have m: "unat ((i - 1) * (PAGE_SIZE64 * 2)) = (unat i - 1) * 8192"
      using i bound d(5) False unfolding metadata_offset_def
      by (subst unat_mult_nowrap) (simp_all add: unat_pred p2)
    have m': "unat ((i - 1) * (PAGE_SIZE64 * 2) + PAGE_SIZE64) = (unat i - 1) * 8192 + 4096"
      using bound d(5) False unfolding metadata_offset_def
      by (subst unat_add_nowrap) (simp_all add: m)
    have r: "unat ?r = metadata_offset pm (unat i)"
      using bound d(3,5) False unfolding metadata_offset_def
      by (subst unat_add_nowrap) (simp_all add: m')
    have "?r + PAGE_SIZE64 \<le> lm_cache_size_bytes pm"
      using bound r by (intro le_after_page) simp
    moreover have "lm_mcb_size_bytes pm = PAGE_SIZE64"
      "lm_first_data_block_offset_bytes pm = lm_first_offset_bytes pm"
      using int d(3) by (simp_all add: word_unat_eq_iff)
    ultimately show ?thesis
      using False d i0 r int(1) by (simp add: cache_block_id_2_metadata_pmem_offset_p_def Let_def)
  qed
qed

lemma data_offset_eq:
  assumes wf: "layout_wf pm" and i: "1 \<le> unat i" "unat i \<le> nblocks pm"
  shows "\<exists>ret. cache_block_id_2_data_pmem_offset_p dbg pm i = Some ret \<and>
    unat ret = data_offset pm (unat i)"
proof -
  note d = layout_wfD [OF wf] and bound = data_offset_bound [OF wf i]
  have i0: "i > 0" "i \<le> lm_cache_blocks pm" "lm_cache_blocks pm > 0"
    using i d(4) by (simp_all add: word_less_nat_alt word_le_nat_alt)
  show ?thesis
  proof (cases "sequential pm")
    case True
    note seq = layout_wf_seq [OF wf True]
    let ?r = "lm_first_data_block_offset_bytes pm + (i - 1) * PAGE_SIZE64"
    have m: "unat ((i - 1) * PAGE_SIZE64) = (unat i - 1) * 4096"
      using i bound d(5) True unfolding data_offset_def
      by (subst unat_mult_nowrap) (simp_all add: unat_pred)
    have r: "unat ?r = data_offset pm (unat i)"
      using bound d(5) True unfolding data_offset_def
      by (subst unat_add_nowrap) (simp_all add: m)
    have "?r + PAGE_SIZE64 \<le> lm_cache_size_bytes pm"
      using bound r by (intro le_after_page) simp
    moreover have "lm_first_data_block_offset_bytes pm < lm_cache_size_bytes pm"
      using seq(3) d(4) by (simp add: word_less_nat_alt)
    ultimately show ?thesis
      using True d i0 r round_up_first_data [OF wf True]
      by (simp add: cache_block_id_2_data_pmem_offset_p_def Let_def)
  next
    case False
    note int = layout_wf_int [OF wf False]
    let ?r = "lm_first_data_block_offset_bytes pm + (i - 1) * (PAGE_SIZE64 * 2)"
    have p2: "unat (PAGE_SIZE64 * 2) = 8192" by (simp add: PAGE_SIZE64_def PAGE_SIZE_def)
    have m: "unat ((i - 1) * (PAGE_SIZE64 * 2)) = (unat i - 1) * 8192"
      using i bound d(5) False unfolding data_offset_def
      by (subst unat_mult_nowrap) (simp_all add: unat_pred p2)
    have r: "unat ?r = data_offset pm (unat i)"
      using bound d(5) int(3) False unfolding data_offset_def
      by (subst unat_add_nowrap) (simp_all add: m)
    have "?r + PAGE_SIZE64 \<le> lm_cache_size_bytes pm"
      using bound r by (intro le_after_page) simp
    moreover have "lm_first_data_block_offset_bytes pm = lm_first_offset_bytes pm"
      using int d(3) by (simp add: word_unat_eq_iff)
    moreover have "lm_first_data_block_offset_bytes pm < lm_cache_size_bytes pm"
      using int(3,4) d(4) by (simp add: word_less_nat_alt)
    ultimately show ?thesis
      using False d i0 r int(1) by (simp add: cache_block_id_2_data_pmem_offset_p_def Let_def)
  qed
qed

section \<open>The layout of a new cache\<close>

lemma unat_data_metadata_size:
  assumes "393216 \<le> unat D"
  shows "unat (round_down D CACHE_NAND_FLASH_ERASE_BLOCK_SIZE - CACHE_MEM_FIRST_OFFSET_BYTES) =
    unat D div 131072 * 131072 - 262144" "393216 \<le> unat D div 131072 * 131072"
proof -
  show *: "393216 \<le> unat D div 131072 * 131072" using assms by simp
  then show "unat (round_down D CACHE_NAND_FLASH_ERASE_BLOCK_SIZE - CACHE_MEM_FIRST_OFFSET_BYTES) =
      unat D div 131072 * 131072 - 262144"
    by (subst unat_sub_nowrap) (simp_all add: unat_round_down)
qed

text \<open>
  With metadata of 64 bytes the metadata area does not end on a page boundary, but rounding its
  end up never costs more than is left, because the size of the device is a multiple of a page.
\<close>

lemma round_up_fits:
  fixes n k d :: nat
  assumes "n * k + n * 4096 \<le> d" "d mod 4096 = 0"
  shows "(262144 + n * k + 4095) div 4096 * 4096 + n * 4096 \<le> 262144 + d"
proof -
  obtain e where d: "d = 4096 * e" using assms(2) by auto
  have "n * k \<le> (e - n) * 4096" using assms(1) unfolding d by (simp add: algebra_simps)
  then have "(262144 + n * k + 4095) div 4096 \<le> 64 + (e - n)" by simp
  moreover have "n \<le> e" using assms(1) unfolding d by simp
  ultimately show ?thesis unfolding d by (simp add: algebra_simps)
qed

lemma unat_sequential_sizes:
  assumes "unat cb * unat mcb + unat cb * 4096 \<le> d" "d mod 4096 = 0" "262144 + d < 2 ^ 63"
  defines "fd \<equiv> round_up (CACHE_MEM_FIRST_OFFSET_BYTES + cb * mcb) PAGE_SIZE64"
  defines "r \<equiv> (262144 + unat cb * unat mcb + 4095) div 4096 * 4096"
  shows "unat fd = r" "unat (fd + cb * PAGE_SIZE64) = r + unat cb * 4096" "r + unat cb * 4096 \<le> 262144 + d"
proof -
  let ?X = "CACHE_MEM_FIRST_OFFSET_BYTES + cb * mcb"
  show fits: "r + unat cb * 4096 \<le> 262144 + d"
    unfolding r_def by (rule round_up_fits [OF assms(1,2)])
  have "unat (cb * mcb) = unat cb * unat mcb"
    using assms(1,3) by (intro unat_mult_nowrap) simp
  then have X: "unat ?X = 262144 + unat cb * unat mcb"
    using assms(1,3) by (subst unat_add_nowrap) simp_all
  show fd: "unat fd = r"
    unfolding fd_def r_def X [symmetric] by (rule unat_round_up) (use X assms(1,3) in simp)+
  have "unat (cb * PAGE_SIZE64) = unat cb * 4096"
    using assms(1,3) by (subst unat_mult_nowrap) simp_all
  then show "unat (fd + cb * PAGE_SIZE64) = r + unat cb * 4096"
    using fits fd assms(3) by (subst unat_add_nowrap) simp_all
qed

lemma data_metadata_size_bounds:
  assumes D: "393216 \<le> unat D"
  defines "d \<equiv> round_down D CACHE_NAND_FLASH_ERASE_BLOCK_SIZE - CACHE_MEM_FIRST_OFFSET_BYTES"
  shows "131072 \<le> unat d" "262144 + unat d \<le> unat D" "unat d mod 4096 = 0"
    "0 < round_down D CACHE_NAND_FLASH_ERASE_BLOCK_SIZE" "0 < d" "0 < D"
  using unat_data_metadata_size [OF D] div_times_less_eq_dividend [of "unat D" 131072] D
  unfolding d_def word_less_nat_alt unat_round_down by (simp_all add: mod_eq_0_iff_dvd)

lemma init_seq:
  assumes D: "393216 \<le> unat D" "unat D < 2 ^ 63" and l: "cache_layout papi = CACHE_LAYOUT_SEQUENTIAL"
    and magic: "lm_magic pm0 = LM_MAGIC"
  shows "\<exists>pm. pmem_initialize_pmem_header_sizes dbg papi pm0 D = Some pm \<and> layout_wf pm \<and>
    cache_size pm \<le> unat D"
proof -
  define mcb where "mcb = (if page_size_transfer_only papi then PAGE_SIZE64 else PMEM_BLOCK_METADATA_SIZE)"
  define d where "d = round_down D CACHE_NAND_FLASH_ERASE_BLOCK_SIZE - CACHE_MEM_FIRST_OFFSET_BYTES"
  define cb where "cb = d div (PAGE_SIZE64 + mcb)"
  define fd where "fd = round_up (CACHE_MEM_FIRST_OFFSET_BYTES + cb * mcb) PAGE_SIZE64"
  note dd = data_metadata_size_bounds [OF D(1), folded d_def]
  have k: "unat mcb = 64 \<or> unat mcb = 4096" by (simp add: mcb_def)
  then have pk: "unat (PAGE_SIZE64 + mcb) = 4096 + unat mcb"
    by (subst unat_add_nowrap) auto
  have n: "unat cb = unat d div (4096 + unat mcb)" by (simp only: unat_div pk cb_def)
  have "0 < unat cb" using k dd(1) by (auto simp: n div_greater_zero_iff)
  have nk: "unat cb * unat mcb + unat cb * 4096 \<le> unat d"
    using div_times_less_eq_dividend [of "unat d" "4096 + unat mcb"] by (simp add: n algebra_simps)
  have "262144 + unat d < 2 ^ 63" using dd(2) D(2) by simp
  note sz = unat_sequential_sizes [OF nk dd(3) this, folded fd_def]
  let ?pm = "pm0\<lparr> lm_cache_block_size := PAGE_SIZE64, lm_header_size_bytes := of_nat PAGE_SIZE,
    lm_cache_layout := layout_char CACHE_LAYOUT_SEQUENTIAL, lm_mcb_size_bytes := mcb,
    lm_cache_blocks := cb, lm_first_offset_bytes := CACHE_MEM_FIRST_OFFSET_BYTES,
    lm_first_data_block_offset_bytes := fd, lm_cache_size_bytes := fd + cb * PAGE_SIZE64 \<rparr>"
  have wf: "layout_wf ?pm"
    using magic sz k dd(2) D(2) \<open>0 < unat cb\<close> by (simp add: layout_wf_def)
  have "262144 < unat fd" using layout_wf_seq(4) [OF wf] k \<open>0 < unat cb\<close> by auto
  then have chk: "0 < cb" "CACHE_MEM_FIRST_OFFSET_BYTES < fd" "CACHE_MEM_FIRST_OFFSET_BYTES \<le> fd"
    "fd < fd + cb * PAGE_SIZE64" "mcb = PMEM_BLOCK_METADATA_SIZE \<or> mcb = PAGE_SIZE64"
    "fd + cb * PAGE_SIZE64 \<le> D"
    using \<open>0 < unat cb\<close> sz dd(2) by (simp_all add: word_less_nat_alt word_le_nat_alt mcb_def)
  have "pmem_initialize_pmem_header_sizes dbg papi pm0 D = Some ?pm"
    using l dd(4-6) chk
    by (simp add: pmem_initialize_pmem_header_sizes_def Let_def
        d_def [symmetric] mcb_def [symmetric] cb_def [symmetric] fd_def [symmetric])
  then show ?thesis using wf sz dd(2) by auto
qed

lemma init_int:
  assumes D: "393216 \<le> unat D" "unat D < 2 ^ 63" and l: "cache_layout papi = CACHE_LAYOUT_INTERLEAVED"
    "page_size_transfer_only papi" and magic: "lm_magic pm0 = LM_MAGIC"
  shows "\<exists>pm. pmem_initialize_pmem_header_sizes dbg papi pm0 D = Some pm \<and> layout_wf pm \<and>
    cache_size pm \<le> unat D"
proof -
  define d where "d = round_down D CACHE_NAND_FLASH_ERASE_BLOCK_SIZE - CACHE_MEM_FIRST_OFFSET_BYTES"
  define cb where "cb = d div (PAGE_SIZE64 * 2)"
  define sz where "sz = CACHE_MEM_FIRST_OFFSET_BYTES + cb * (PAGE_SIZE64 * 2)"
  note dd = data_metadata_size_bounds [OF D(1), folded d_def]
  have p2: "unat (PAGE_SIZE64 * 2) = 8192" by (simp add: PAGE_SIZE64_def PAGE_SIZE_def)
  have n: "unat cb = unat d div 8192" by (simp only: unat_div p2 cb_def)
  then have n0: "0 < unat cb" using dd(1) by (auto simp: div_greater_zero_iff)
  have nk: "unat cb * 8192 \<le> unat d" by (simp add: n)
  have "unat (cb * (PAGE_SIZE64 * 2)) = unat cb * 8192"
    using nk dd(2) D(2) p2 by (subst unat_mult_nowrap) simp_all
  then have sz: "unat sz = 262144 + unat cb * 8192"
    unfolding sz_def using nk dd(2) D(2) by (subst unat_add_nowrap) simp_all
  let ?pm = "pm0\<lparr> lm_cache_block_size := PAGE_SIZE64, lm_header_size_bytes := of_nat PAGE_SIZE,
    lm_cache_layout := layout_char CACHE_LAYOUT_INTERLEAVED, lm_mcb_size_bytes := PAGE_SIZE64,
    lm_cache_blocks := cb, lm_first_offset_bytes := CACHE_MEM_FIRST_OFFSET_BYTES,
    lm_first_data_block_offset_bytes := CACHE_MEM_FIRST_OFFSET_BYTES, lm_cache_size_bytes := sz \<rparr>"
  have wf: "layout_wf ?pm"
    using magic sz nk dd(2) D(2) n0 by (simp add: layout_wf_def layout_char_def)
  have chk: "0 < cb" "CACHE_MEM_FIRST_OFFSET_BYTES < sz" "sz \<le> D"
    using n0 sz nk dd(2) by (simp_all add: word_less_nat_alt word_le_nat_alt)
  have "pmem_initialize_pmem_header_sizes dbg papi pm0 D = Some ?pm"
    using l dd(4-6) chk
    by (simp add: pmem_initialize_pmem_header_sizes_def Let_def
        d_def [symmetric] cb_def [symmetric] sz_def [symmetric])
  then show ?thesis using wf sz nk dd(2) by auto
qed

section \<open>Regions of the device\<close>

text \<open>
  What is stored on the device, and the bytes it occupies according to the offset functions of
  the code.
\<close>

datatype region = Header0 | Header1 | Metadata nat | Data nat

fun region_ok :: "pmem_header \<Rightarrow> region \<Rightarrow> bool" where
  "region_ok pm (Metadata i) \<longleftrightarrow> 1 \<le> i \<and> i \<le> nblocks pm"
| "region_ok pm (Data i) \<longleftrightarrow> 1 \<le> i \<and> i \<le> nblocks pm"
| "region_ok pm _ \<longleftrightarrow> True"

fun region_start :: "pmem_header \<Rightarrow> region \<Rightarrow> nat" where
  "region_start pm Header0 = unat CACHE_MEM_HEADER_0_OFFSET_BYTES"
| "region_start pm Header1 = unat CACHE_MEM_HEADER_1_OFFSET_BYTES"
| "region_start pm (Metadata i) = unat (the (cache_block_id_2_metadata_pmem_offset_p True pm (of_nat i)))"
| "region_start pm (Data i) = unat (the (cache_block_id_2_data_pmem_offset_p True pm (of_nat i)))"

fun region_size :: "pmem_header \<Rightarrow> region \<Rightarrow> nat" where
  "region_size pm (Metadata i) = mcb_size pm"
| "region_size pm _ = PAGE_SIZE"

definition region_bytes :: "pmem_header \<Rightarrow> region \<Rightarrow> nat set" where
  "region_bytes pm r = {region_start pm r ..< region_start pm r + region_size pm r}"

lemma unat_of_nat_block:
  assumes "i \<le> nblocks pm"
  shows "unat (of_nat i :: u64) = i"
  using assms unat_less_exp [of "lm_cache_blocks pm"] by (simp add: unat_of_nat)

lemma region_start_eq:
  assumes wf: "layout_wf pm" and i: "1 \<le> i" "i \<le> nblocks pm"
  shows "region_start pm (Metadata i) = metadata_offset pm i"
    and "region_start pm (Data i) = data_offset pm i"
  using metadata_offset_eq [OF wf, of "of_nat i" True] data_offset_eq [OF wf, of "of_nat i" True] i
  by (auto simp: unat_of_nat_block)

definition before :: "pmem_header \<Rightarrow> region \<Rightarrow> region \<Rightarrow> bool" where
  "before pm r r' \<longleftrightarrow> region_start pm r + region_size pm r \<le> region_start pm r'"

lemma mult_step_le: "1 \<le> i \<Longrightarrow> i < j \<Longrightarrow> (i - 1) * k + k \<le> (j - 1) * k" for i j k :: nat
  by (rule mult_pred_le) auto

lemma metadata_in_area:
  assumes wf: "layout_wf pm" "sequential pm" and i: "1 \<le> i" "i \<le> nblocks pm"
  shows "metadata_offset pm i + mcb_size pm \<le> first_data pm"
  using mult_pred_le [OF i, of "mcb_size pm"] layout_wf_seq [OF wf] wf(2)
  by (simp add: metadata_offset_def)

lemma before_blocks:
  assumes wf: "layout_wf pm" and i: "1 \<le> i" "i \<le> nblocks pm" and j: "1 \<le> j" "j \<le> nblocks pm"
  shows "i < j \<Longrightarrow> before pm (Metadata i) (Metadata j)"
    and "i < j \<Longrightarrow> before pm (Data i) (Data j)"
    and "before pm (Metadata i) (Data j) \<or> before pm (Data j) (Metadata i)"
  using mult_step_le [OF i(1), of j "mcb_size pm"] mult_step_le [OF i(1), of j 4096]
    mult_step_le [OF i(1), of j 8192] mult_step_le [OF j(1), of i 8192] metadata_in_area [OF wf _ i]
    layout_wf_int [OF wf]
  unfolding before_def region_start_eq [OF wf i] region_start_eq [OF wf j]
  by (cases i j rule: linorder_cases; force simp: metadata_offset_def data_offset_def PAGE_SIZE_def)+

lemma before_headers:
  assumes wf: "layout_wf pm"
  shows "before pm Header0 Header1"
    and "region_ok pm (Metadata i) \<Longrightarrow> before pm Header0 (Metadata i) \<and> before pm Header1 (Metadata i)"
    and "region_ok pm (Data i) \<Longrightarrow> before pm Header0 (Data i) \<and> before pm Header1 (Data i)"
  using layout_wf_seq(4) [OF wf] region_start_eq [OF wf, of i]
  by (auto simp: before_def metadata_offset_def data_offset_def PAGE_SIZE_def)

lemma before_either:
  assumes wf: "layout_wf pm" and i: "1 \<le> i" "i \<le> nblocks pm" and j: "1 \<le> j" "j \<le> nblocks pm"
    and ne: "i \<noteq> j"
  shows "before pm (Metadata i) (Metadata j) \<or> before pm (Metadata j) (Metadata i)"
    and "before pm (Data i) (Data j) \<or> before pm (Data j) (Data i)"
  using ne before_blocks(1,2) [OF wf i j] before_blocks(1,2) [OF wf j i]
  by (cases i j rule: linorder_cases; blast)+

lemma regions_ordered:
  assumes wf: "layout_wf pm" and ok: "region_ok pm r" "region_ok pm r'" and ne: "r \<noteq> r'"
  shows "before pm r r' \<or> before pm r' r"
proof (cases r; cases r')
  fix i j assume r: "r = Metadata i" "r' = Metadata j"
  with ok ne before_either(1) [OF wf, of i j] show ?thesis by simp
next
  fix i j assume r: "r = Data i" "r' = Data j"
  with ok ne before_either(2) [OF wf, of i j] show ?thesis by simp
next
  fix i j assume r: "r = Metadata i" "r' = Data j"
  with ok before_blocks(3) [OF wf, of i j] show ?thesis by simp
next
  fix i j assume r: "r = Data i" "r' = Metadata j"
  with ok before_blocks(3) [OF wf, of j i] show ?thesis by auto
qed (use ok ne before_headers [OF wf] in simp_all)

lemma cache_size_lower: "layout_wf pm \<Longrightarrow> 262144 \<le> cache_size pm"
  using layout_wf_seq(3,4) [of pm] layout_wf_int(4) [of pm] by (cases "sequential pm") linarith+

lemma region_in_bounds:
  assumes wf: "layout_wf pm" and ok: "region_ok pm r"
  shows "region_start pm r + region_size pm r \<le> cache_size pm"
proof (cases r)
  case (Metadata i)
  then have i: "1 \<le> i" "i \<le> nblocks pm" using ok by auto
  have "mcb_size pm \<le> 4096"
    using layout_wf_seq(1) [OF wf] layout_wf_int(2) [OF wf] by (cases "sequential pm") auto
  with Metadata i metadata_offset_bound [OF wf i] show ?thesis
    unfolding Metadata region_start_eq [OF wf i] by simp
next
  case (Data i)
  then have i: "1 \<le> i" "i \<le> nblocks pm" using ok by auto
  with data_offset_bound [OF wf i] show ?thesis
    unfolding Data region_start_eq [OF wf i] by (simp add: PAGE_SIZE_def)
qed (use cache_size_lower [OF wf] in \<open>simp_all add: PAGE_SIZE_def\<close>)

lemma regions_disjoint:
  assumes "layout_wf pm" "region_ok pm r" "region_ok pm r'" "r \<noteq> r'"
  shows "region_bytes pm r \<inter> region_bytes pm r' = {}"
  using regions_ordered [OF assms] by (auto simp: before_def region_bytes_def)

text \<open>
  C9: for every device of at least three erase blocks, the header computed for a new cache, with
  either provider, describes a layout in which the two headers and the metadata and the data of
  every block lie within the device and no two of them share a byte.  The computation does not
  wrap around and fails no assertion of either build.
\<close>

theorem new_cache_layout_ok:
  assumes D: "393216 \<le> unat D" "unat D < 2 ^ 63" and papi: "papi \<in> {cache_papi_mem, cache_papi_block}"
    and magic: "lm_magic pm0 = LM_MAGIC"
  shows "\<exists>pm. pmem_initialize_pmem_header_sizes dbg papi pm0 D = Some pm \<and> layout_wf pm \<and>
    (\<forall>r. region_ok pm r \<longrightarrow> region_bytes pm r \<subseteq> {0 ..< unat D}) \<and>
    (\<forall>r r'. region_ok pm r \<and> region_ok pm r' \<and> r \<noteq> r' \<longrightarrow> region_bytes pm r \<inter> region_bytes pm r' = {})"
proof -
  obtain pm where pm: "pmem_initialize_pmem_header_sizes dbg papi pm0 D = Some pm" "layout_wf pm"
      "cache_size pm \<le> unat D"
    using init_seq [OF D, of papi pm0 dbg] init_int [OF D, of papi pm0 dbg] papi magic
    by (auto simp: cache_papi_mem_def cache_papi_block_def)
  have "region_bytes pm r \<subseteq> {0 ..< unat D}" if "region_ok pm r" for r
    using region_in_bounds [OF pm(2) that] pm(3) by (auto simp: region_bytes_def)
  with pm regions_disjoint [OF pm(2)] show ?thesis by blast
qed

definition example_header :: pmem_header where
  "example_header = \<lparr> lm_magic = LM_MAGIC, lm_version = LM_VERSION, lm_header_size_bytes = 0,
     lm_cache_layout = 0, lm_alignment_pad = replicate 7 0, lm_alignment_gap = replicate 4 0,
     lm_cache_blocks = 0, lm_cache_block_size = 0, lm_mcb_size_bytes = 0,
     lm_cache_size_bytes = 0, lm_first_offset_bytes = 0, lm_first_data_block_offset_bytes = 0,
     lm_uuid = replicate 16 0, lm_name = replicate 128 0, lm_device_uuid = replicate 16 0,
     lm_device_name = replicate 128 0, lm_xid_first = 1, lm_xid_current = 1,
     lm_spare = replicate 64 0, lm_hash = UINT128_ZERO, lm_tail = replicate 3192 0 \<rparr>"

theorem new_cache_layout_ok_witness:
  "(\<exists>pm. pmem_initialize_pmem_header_sizes True cache_papi_mem example_header 0x100000 = Some pm \<and>
     layout_wf pm \<and>
     (\<forall>r. region_ok pm r \<longrightarrow> region_bytes pm r \<subseteq> {0 ..< unat (0x100000 :: u64)}) \<and>
     (\<forall>r r'. region_ok pm r \<and> region_ok pm r' \<and> r \<noteq> r' \<longrightarrow> region_bytes pm r \<inter> region_bytes pm r' = {})) \<and>
   map_option lm_cache_blocks
     (pmem_initialize_pmem_header_sizes True cache_papi_mem example_header 0x100000) = Some 189"
proof -
  have "map_option lm_cache_blocks
     (pmem_initialize_pmem_header_sizes True cache_papi_mem example_header 0x100000) = Some 189"
    by code_simp
  with new_cache_layout_ok [of "0x100000" cache_papi_mem example_header True] show ?thesis
    by (simp add: example_header_def)
qed

section \<open>The self test\<close>

lemma ucast_block_id: "unat i < 2 ^ 32 \<Longrightarrow> ucast (ucast i :: u32) = (i :: u64)"
  by (simp add: word_unat_eq_iff unsigned_ucast_eq unsigned_take_bit_eq take_bit_nat_eq_self)

lemma assert_offsets_at_ok:
  assumes wf: "layout_wf pm" and i: "1 \<le> unat i" "unat i \<le> nblocks pm" "nblocks pm < 2 ^ 32"
    and size: "cache_size pm \<le> unat bdev"
  shows "assert_offsets_at dbg bdev pm i = Some ()"
proof -
  note d = layout_wfD [OF wf]
  have id: "ucast (ucast i :: u32) = (i :: u64)" using i by (simp add: ucast_block_id)
  from metadata_offset_eq [OF wf i(1,2), of dbg] obtain m where
    m: "cache_block_id_2_metadata_pmem_offset_p dbg pm i = Some m" "unat m = metadata_offset pm (unat i)"
    by blast
  from data_offset_eq [OF wf i(1,2), of dbg] obtain q where
    q: "cache_block_id_2_data_pmem_offset_p dbg pm i = Some q" "unat q = data_offset pm (unat i)"
    by blast
  note bounds = metadata_offset_bound [OF wf i(1,2)] data_offset_bound [OF wf i(1,2)]
  have "m + PAGE_SIZE64 \<le> bdev" "q + PAGE_SIZE64 \<le> bdev"
    by (rule le_after_page; use bounds m q size in simp)+
  moreover have "m \<le> lm_cache_size_bytes pm" "q \<le> lm_cache_size_bytes pm"
    using bounds m q by (simp_all add: word_le_nat_alt)
  moreover have "lm_cache_blocks pm \<noteq> 0" "0 < bdev"
    using d(4) bounds size by (auto simp: word_less_nat_alt)
  ultimately show ?thesis
    using d m q
    by (simp add: assert_offsets_at_def cache_block_id_2_metadata_pmem_offset_def
        cache_block_id_2_data_pmem_offset_def id)
qed

lemma unat_sub_small: "unat k \<le> nblocks pm \<Longrightarrow> unat (lm_cache_blocks pm - k) = nblocks pm - unat k"
  by (rule unat_sub_nowrap)

text \<open>
  On a well-formed layout with more than 100 blocks the self test that runs whenever a header
  is created or restored passes, in both builds.
\<close>

lemma pmem_assert_offsets_ok:
  assumes wf: "layout_wf pm" and n: "100 < nblocks pm" "nblocks pm < 2 ^ 32"
    and size: "cache_size pm \<le> unat bdev"
  shows "pmem_assert_offsets dbg bdev pm = Some ()"
proof -
  note at = assert_offsets_at_ok [OF wf _ _ n(2) size]
  have "unat (lm_cache_blocks pm div 2) = nblocks pm div 2"
    by (simp add: unat_div)
  moreover from this have "unat (lm_cache_blocks pm div 2 + 1) = nblocks pm div 2 + 1"
    using n by (subst unat_add_nowrap) simp_all
  ultimately show ?thesis
    using n by (simp add: pmem_assert_offsets_def Let_def at unat_sub_small)
qed

lemma small_cache_block_id:
  assumes "nblocks pm < 100"
  shows "nblocks pm < unat (ucast (ucast (lm_cache_blocks pm - 100) :: u32) :: u64)"
proof -
  let ?b = "lm_cache_blocks pm"
  have b: "uint ?b < 100" using assms unfolding unat_eq_nat_uint by (subst (asm) nat_less_iff) simp_all
  have "uint (ucast (ucast (?b - 100) :: u32) :: u64) = uint (?b - 100) mod 2 ^ 32"
    by (simp add: unsigned_ucast_eq unsigned_take_bit_eq) (simp add: take_bit_eq_mod)
  also have "\<dots> = (uint ?b - 100) mod 2 ^ 32"
    by (simp only: uint_word_ariths) (simp add: mod_mod_cancel)
  also have "\<dots> = (uint ?b - 100 + 2 ^ 32) mod 2 ^ 32" by (simp only: mod_add_self2)
  also have "\<dots> = uint ?b - 100 + 2 ^ 32"
    using b uint_ge_0 [of ?b] by (intro mod_pos_pos_trivial) (simp, linarith)
  finally show ?thesis using b unfolding unat_eq_nat_uint by (subst nat_less_eq_zless) simp_all
qed

text \<open>
  C16: the self test of the offsets subtracts 100 from the number of blocks.  On the assertion
  build it therefore stops the kernel for every well-formed layout of at most 100 blocks: the
  number is zero for exactly 100 blocks and wraps around to more than the last block for fewer.
\<close>

theorem small_cache_self_test_fails:
  assumes "layout_wf pm" "nblocks pm \<le> 100"
  shows "pmem_assert_offsets True bdev pm = None"
proof -
  let ?id = "ucast (ucast (lm_cache_blocks pm - 100) :: u32) :: u64"
  have "\<not> (?id > 0 \<and> ?id \<le> lm_cache_blocks pm)"
  proof (cases "nblocks pm = 100")
    case True
    then have "lm_cache_blocks pm = 100" by (simp add: word_unat_eq_iff)
    then show ?thesis by simp
  next
    case False
    then show ?thesis using small_cache_block_id [of pm] assms(2) by (simp add: word_le_nat_alt)
  qed
  then have "assert_offsets_at True bdev pm (lm_cache_blocks pm - 100) = None"
    by (auto simp: assert_offsets_at_def cache_block_id_2_metadata_pmem_offset_def
        cache_block_id_2_metadata_pmem_offset_p_def)
  then show ?thesis
    by (simp add: pmem_assert_offsets_def Let_def Option.bind_eq_None_conv del: not_None_eq)
qed

theorem small_cache_self_test_fails_witness:
  "\<exists>pm. pmem_initialize_pmem_header_sizes True cache_papi_block example_header 0x80000 = Some pm \<and>
     lm_cache_blocks pm = 32 \<and> pmem_assert_offsets True 0x80000 pm = None"
proof -
  have l: "cache_layout cache_papi_block = CACHE_LAYOUT_INTERLEAVED"
    "page_size_transfer_only cache_papi_block" "lm_magic example_header = LM_MAGIC"
    by (simp_all add: cache_papi_block_def example_header_def)
  obtain pm where pm: "pmem_initialize_pmem_header_sizes True cache_papi_block example_header 0x80000 = Some pm"
      "layout_wf pm"
    using init_int [of "0x80000", OF _ _ l] by auto
  have "map_option lm_cache_blocks
      (pmem_initialize_pmem_header_sizes True cache_papi_block example_header 0x80000) = Some 32"
    by code_simp
  with pm(1) have "lm_cache_blocks pm = 32" by simp
  with pm small_cache_self_test_fails [OF pm(2), of "0x80000"] show ?thesis by simp
qed

end
