(* ===== verification/Pmem_Store.thy ===== *)
theory Pmem_Store
  imports Pmem_Layout
begin

unbundle bit_operations_syntax

text \<open>
  The cache device as a sequence of bytes and the synchronous reads and writes of the two
  providers: memory that is mapped (\<open>bittern_cache_pmem_api_mem.c\<close>) and block devices, which
  transfer whole pages (\<open>bittern_cache_pmem_api_block.c\<close>).  Both are shown to implement one
  contract, the interface \<open>pmem_provider\<close>, on which the code that stores headers and metadata
  relies.
\<close>

section \<open>The device\<close>

record pmem_dev =
  pd_bytes :: "nat \<Rightarrow> u8"
  pd_size :: u64

definition dev_read :: "pmem_dev \<Rightarrow> nat \<Rightarrow> nat \<Rightarrow> u8 list" where
  "dev_read d off len = map (pd_bytes d) [off ..< off + len]"

definition dev_write :: "pmem_dev \<Rightarrow> nat \<Rightarrow> u8 list \<Rightarrow> pmem_dev" where
  "dev_write d off bs =
     d\<lparr> pd_bytes := (\<lambda>i. if off \<le> i \<and> i < off + length bs then bs ! (i - off) else pd_bytes d i) \<rparr>"

text \<open>
  What the kernel does for one synchronous transfer: whether direct access maps the whole page,
  whether the allocations succeed, the completion status of the I/O, and the contents that a
  failed transfer leaves in the page it was for.
\<close>

record pmem_io =
  io_dax_ok :: bool
  io_alloc_ok :: bool
  io_err :: int
  io_garbage :: "u8 list"

text \<open>The page as a failed transfer leaves it.\<close>

definition io_page :: "pmem_io \<Rightarrow> u8 list" where
  "io_page io = take PAGE_SIZE (io_garbage io @ replicate PAGE_SIZE 0)"

definition io_healthy :: "pmem_io \<Rightarrow> bool" where
  "io_healthy io \<longleftrightarrow> io_dax_ok io \<and> io_alloc_ok io \<and> io_err io = 0"

definition PAGE_MASK :: u64 where
  "PAGE_MASK = NOT (PAGE_SIZE64 - 1)"

section \<open>Memory provider\<close>

definition pmem_read_sync_mem ::
  "bool \<Rightarrow> pmem_io \<Rightarrow> pmem_dev \<Rightarrow> u64 \<Rightarrow> u8 list \<Rightarrow> nat \<Rightarrow> (int \<times> u8 list) option" where
  "pmem_read_sync_mem dbg io d from_pmem_offset to_buffer sz =
     do {
       let end_offset = from_pmem_offset + of_nat sz - 1;
       ASSERT dbg (sz > 0);
       M_ASSERT (end_offset AND PAGE_MASK = from_pmem_offset AND PAGE_MASK);
       M_ASSERT (io_dax_ok io);
       let dax_addr = unat (from_pmem_offset AND PAGE_MASK);
       Some (0, dev_read d (dax_addr + unat (from_pmem_offset mod PAGE_SIZE64)) sz
                @ drop sz to_buffer)
     }"

definition pmem_write_sync_mem ::
  "bool \<Rightarrow> pmem_io \<Rightarrow> pmem_dev \<Rightarrow> u64 \<Rightarrow> u8 list \<Rightarrow> (int \<times> pmem_dev) option" where
  "pmem_write_sync_mem dbg io d to_pmem_offset from_buffer =
     do {
       let sz = length from_buffer;
       let end_offset = to_pmem_offset + of_nat sz - 1;
       ASSERT dbg (sz > 0);
       M_ASSERT (end_offset AND PAGE_MASK = to_pmem_offset AND PAGE_MASK);
       M_ASSERT (io_dax_ok io);
       let dax_addr = unat (to_pmem_offset AND PAGE_MASK);
       Some (0, dev_write d (dax_addr + unat (to_pmem_offset mod PAGE_SIZE64)) from_buffer)
     }"

section \<open>Block provider\<close>

text \<open>
  A page is transferred through an intermediate buffer; a write of less than a page fills the
  rest with zeros.  The sector number of the transfer is the offset divided by the sector size.
\<close>

definition pmem_read_sync_block ::
  "bool \<Rightarrow> pmem_io \<Rightarrow> pmem_dev \<Rightarrow> u64 \<Rightarrow> u8 list \<Rightarrow> nat \<Rightarrow> (int \<times> u8 list) option" where
  "pmem_read_sync_block dbg io d from_pmem_offset to_buffer sz =
     do {
       ASSERT dbg (sz > 0 \<and> sz \<le> PAGE_SIZE);
       ASSERT dbg (from_pmem_offset mod PAGE_SIZE64 = 0);
       ASSERT dbg (of_nat sz + PAGE_SIZE64 \<le> pd_size d);
       if \<not> io_alloc_ok io then Some (- ENOMEM, to_buffer)
       else do {
         let bi_sector = from_pmem_offset div of_nat SECTOR_SIZE;
         let buffer = (if io_err io = 0 then dev_read d (unat bi_sector * SECTOR_SIZE) PAGE_SIZE
                       else io_page io);
         Some (io_err io, take sz buffer @ drop sz to_buffer)
       }
     }"

definition pmem_write_sync_block ::
  "bool \<Rightarrow> pmem_io \<Rightarrow> pmem_dev \<Rightarrow> u64 \<Rightarrow> u8 list \<Rightarrow> (int \<times> pmem_dev) option" where
  "pmem_write_sync_block dbg io d to_pmem_offset from_buffer =
     do {
       let sz = length from_buffer;
       ASSERT dbg (sz > 0 \<and> sz \<le> PAGE_SIZE);
       ASSERT dbg (to_pmem_offset mod PAGE_SIZE64 = 0);
       ASSERT dbg (of_nat sz + PAGE_SIZE64 \<le> pd_size d);
       if \<not> io_alloc_ok io then Some (- ENOMEM, d)
       else do {
         let buffer = from_buffer @ replicate (PAGE_SIZE - sz) 0;
         let bi_sector = to_pmem_offset div of_nat SECTOR_SIZE;
         Some (io_err io, dev_write d (unat bi_sector * SECTOR_SIZE)
           (if io_err io = 0 then buffer else io_page io))
       }
     }"

section \<open>The interface\<close>

text \<open>The entries of the provider's table that the code of this theory calls.\<close>

record papi_ops = papi_interface +
  read_sync :: "bool \<Rightarrow> pmem_io \<Rightarrow> pmem_dev \<Rightarrow> u64 \<Rightarrow> u8 list \<Rightarrow> nat \<Rightarrow> (int \<times> u8 list) option"
  write_sync :: "bool \<Rightarrow> pmem_io \<Rightarrow> pmem_dev \<Rightarrow> u64 \<Rightarrow> u8 list \<Rightarrow> (int \<times> pmem_dev) option"

definition papi_mem_ops :: papi_ops where
  "papi_mem_ops = papi_interface.extend cache_papi_mem
     \<lparr> read_sync = pmem_read_sync_mem, write_sync = pmem_write_sync_mem \<rparr>"

definition papi_block_ops :: papi_ops where
  "papi_block_ops = papi_interface.extend cache_papi_block
     \<lparr> read_sync = pmem_read_sync_block, write_sync = pmem_write_sync_block \<rparr>"

section \<open>Bytes of words\<close>

fun le_word :: "u8 list \<Rightarrow> 'a::len word" where
  "le_word [] = 0"
| "le_word (b # bs) = ucast b OR push_bit 8 (le_word bs)"

definition le_bytes :: "nat \<Rightarrow> 'a::len word \<Rightarrow> u8 list" where
  "le_bytes n w = map (\<lambda>i. ucast (drop_bit (8 * i) w)) [0 ..< n]"

lemma length_le_bytes [simp]: "length (le_bytes n w) = n"
  by (simp add: le_bytes_def)

lemma bit_le_word:
  "bit (le_word bs :: 'a::len word) n \<longleftrightarrow>
     n < LENGTH('a) \<and> n < 8 * length bs \<and> bit (bs ! (n div 8)) (n mod 8)"
proof (induction bs arbitrary: n)
  case (Cons b bs)
  show ?case
  proof (cases "n < 8")
    case True
    then show ?thesis
      by (auto simp: bit_or_iff bit_push_bit_iff bit_ucast_iff)
  next
    case False
    then have n: "n div 8 = Suc ((n - 8) div 8)" "n mod 8 = (n - 8) mod 8"
      by (simp_all add: le_div_geq le_mod_geq)
    have "\<not> bit b n" using False bit_imp_le_length [of b n] by auto
    with False show ?thesis
      unfolding n by (auto simp: bit_or_iff bit_push_bit_iff bit_ucast_iff Cons)
  qed
qed simp

lemma le_word_le_bytes [simp]:
  assumes "LENGTH('a) \<le> 8 * n"
  shows "le_word (le_bytes n w) = (w :: 'a::len word)"
proof (rule bit_word_eqI)
  fix m assume m: "m < LENGTH('a)"
  then have "m div 8 < n" using assms by auto
  then have "bit (le_bytes n w ! (m div 8)) (m mod 8) = bit w (8 * (m div 8) + m mod 8)"
    by (simp add: le_bytes_def bit_ucast_iff bit_drop_bit_eq)
  with m assms show "bit (le_word (le_bytes n w) :: 'a word) m = bit w m"
    by (simp add: bit_le_word)
qed

lemma le_bytes_le_word [simp]:
  assumes "length bs = n" "8 * n = LENGTH('a)"
  shows "le_bytes n (le_word bs :: 'a::len word) = bs"
proof (rule nth_equalityI)
  fix i assume "i < length (le_bytes n (le_word bs :: 'a word))"
  then have i: "i < n" by simp
  show "le_bytes n (le_word bs :: 'a word) ! i = bs ! i"
  proof (rule bit_word_eqI)
    fix m assume "m < LENGTH(8)"
    with i assms show "bit (le_bytes n (le_word bs :: 'a word) ! i) m = bit (bs ! i) m"
      by (auto simp: le_bytes_def bit_ucast_iff bit_drop_bit_eq bit_le_word)
  qed
qed (use assms in simp)

section \<open>Lemmas on the device\<close>

lemma length_dev_read [simp]: "length (dev_read d off n) = n"
  by (simp add: dev_read_def)

lemma length_io_page [simp]: "length (io_page io) = 4096"
  by (simp add: io_page_def PAGE_SIZE_def)

lemma pd_size_dev_write [simp]: "pd_size (dev_write d off bs) = pd_size d"
  by (simp add: dev_write_def)

lemma pd_bytes_dev_write:
  "pd_bytes (dev_write d off bs) i =
     (if off \<le> i \<and> i < off + length bs then bs ! (i - off) else pd_bytes d i)"
  by (simp add: dev_write_def)

lemma dev_read_dev_write: "dev_read (dev_write d off bs) off (length bs) = bs"
  by (rule nth_equalityI) (auto simp: dev_read_def pd_bytes_dev_write)

lemma dev_read_prefix: "n \<le> m \<Longrightarrow> take n (dev_read d off m) = dev_read d off n"
  by (simp add: dev_read_def take_map)

lemma dev_read_cong:
  "(\<And>i. off \<le> i \<Longrightarrow> i < off + n \<Longrightarrow> pd_bytes d i = pd_bytes d' i) \<Longrightarrow>
     dev_read d off n = dev_read d' off n"
  by (simp add: dev_read_def)

lemma dev_read_dev_write_page:
  assumes "length bs \<le> 4096"
  shows "dev_read (dev_write d off (bs @ replicate (4096 - length bs) 0)) off (length bs) = bs"
proof -
  have "dev_read (dev_write d off (bs @ replicate (4096 - length bs) 0)) off 4096 =
      bs @ replicate (4096 - length bs) 0"
    using dev_read_dev_write [of d off "bs @ replicate (4096 - length bs) 0"] assms by simp
  then have "take (length bs) (dev_read (dev_write d off (bs @ replicate (4096 - length bs) 0)) off 4096) = bs"
    by simp
  then show ?thesis by (simp only: dev_read_prefix [OF assms])
qed

lemma unat_page_base: "unat (off AND PAGE_MASK) = unat off div 4096 * 4096"
proof -
  have m: "PAGE_MASK = NOT (mask 12)"
    by (simp add: PAGE_MASK_def PAGE_SIZE64_def PAGE_SIZE_def mask_eq_exp_minus_1)
  show ?thesis using unat_and_not_mask [of off 12] by (simp add: m del: mask_numeral)
qed

lemma page_address: "unat (off AND PAGE_MASK) + unat (off mod PAGE_SIZE64) = unat off"
  by (simp add: unat_page_base unat_mod)

lemma sector_address:
  assumes "off mod PAGE_SIZE64 = 0"
  shows "unat (off div of_nat SECTOR_SIZE) * SECTOR_SIZE = unat off"
proof -
  have "unat off mod 4096 = 0" using assms by (metis layout_consts(1) unat_mod unat_0)
  then have "4096 dvd unat off" by auto
  then have "512 dvd unat off" by (rule dvd_trans [rotated]) simp
  then show ?thesis by (simp add: SECTOR_SIZE_def unat_div)
qed

section \<open>The contract of a provider\<close>

text \<open>
  What the users of a provider rely on.  An access is allowed when \<open>access_ok\<close> holds; a write
  changes no byte outside \<open>span\<close>.  A transfer that reports success has done its work, and one
  that meets no failure reports success.
\<close>

locale pmem_provider =
  fixes papi :: papi_ops
    and access_ok :: "pmem_dev \<Rightarrow> u64 \<Rightarrow> nat \<Rightarrow> bool"
    and span :: "u64 \<Rightarrow> nat \<Rightarrow> nat set"
  assumes read_returns: "access_ok d off n \<Longrightarrow> io_dax_ok io \<Longrightarrow> length buf = n \<Longrightarrow>
      \<exists>e bs. read_sync papi dbg io d off buf n = Some (e, bs)"
    and read_success: "access_ok d off n \<Longrightarrow> length buf = n \<Longrightarrow>
      read_sync papi dbg io d off buf n = Some (0, bs) \<Longrightarrow> bs = dev_read d (unat off) n"
    and read_length: "access_ok d off n \<Longrightarrow> length buf = n \<Longrightarrow>
      read_sync papi dbg io d off buf n = Some (e, bs) \<Longrightarrow> length bs = n"
    and read_healthy: "access_ok d off n \<Longrightarrow> io_healthy io \<Longrightarrow> length buf = n \<Longrightarrow>
      read_sync papi dbg io d off buf n = Some (0, dev_read d (unat off) n)"
    and write_returns: "access_ok d off (length bs) \<Longrightarrow> io_dax_ok io \<Longrightarrow>
      \<exists>e d'. write_sync papi dbg io d off bs = Some (e, d')"
    and write_success: "access_ok d off (length bs) \<Longrightarrow>
      write_sync papi dbg io d off bs = Some (0, d') \<Longrightarrow> dev_read d' (unat off) (length bs) = bs"
    and write_healthy: "access_ok d off (length bs) \<Longrightarrow> io_healthy io \<Longrightarrow>
      write_sync papi dbg io d off bs = Some (e, d') \<Longrightarrow> e = 0"
    and write_frame: "access_ok d off (length bs) \<Longrightarrow>
      write_sync papi dbg io d off bs = Some (e, d') \<Longrightarrow> i \<notin> span off (length bs) \<Longrightarrow>
      pd_bytes d' i = pd_bytes d i"
    and write_size: "access_ok d off (length bs) \<Longrightarrow>
      write_sync papi dbg io d off bs = Some (e, d') \<Longrightarrow> pd_size d' = pd_size d"

definition mem_access_ok :: "pmem_dev \<Rightarrow> u64 \<Rightarrow> nat \<Rightarrow> bool" where
  "mem_access_ok d off n \<longleftrightarrow> 0 < n \<and> unat off mod 4096 + n \<le> 4096"

definition mem_span :: "u64 \<Rightarrow> nat \<Rightarrow> nat set" where
  "mem_span off n = {unat off ..< unat off + n}"

definition block_access_ok :: "pmem_dev \<Rightarrow> u64 \<Rightarrow> nat \<Rightarrow> bool" where
  "block_access_ok d off n \<longleftrightarrow>
     0 < n \<and> n \<le> 4096 \<and> off mod PAGE_SIZE64 = 0 \<and> 8192 \<le> unat (pd_size d)"

definition block_span :: "u64 \<Rightarrow> nat \<Rightarrow> nat set" where
  "block_span off n = {unat off ..< unat off + 4096}"

lemma mem_same_page:
  assumes "mem_access_ok d off n"
  shows "(off + of_nat n - 1) AND PAGE_MASK = off AND PAGE_MASK"
proof -
  have n: "0 < n" "unat off mod 4096 + n \<le> 4096" using assms by (auto simp: mem_access_ok_def)
  have off: "unat off = unat off div 4096 * 4096 + unat off mod 4096" by simp
  have lt: "unat off div 4096 * 4096 + 4095 < 2 ^ 64"
  proof -
    have "unat off div 4096 < 2 ^ 52" using unat_less_exp [of off] by (simp add: div_less_iff_less_mult)
    then have "unat off div 4096 + 1 \<le> 2 ^ 52" by linarith
    then have "(unat off div 4096 + 1) * 4096 \<le> 2 ^ 52 * 4096" by (rule mult_right_mono) simp
    then show ?thesis by simp
  qed
  have un: "unat (of_nat (n - 1) :: u64) = n - 1"
    using n by (subst unat_of_nat) simp
  have le: "unat off + (n - 1) \<le> unat off div 4096 * 4096 + 4095" using n off by linarith
  have e: "off + of_nat n - 1 = off + of_nat (n - 1)" using n(1) by (cases n) simp_all
  have u: "unat (off + of_nat (n - 1)) = unat off + (n - 1)"
    using le lt un by (subst unat_add_nowrap) linarith+
  have "(unat off + (n - 1)) div 4096 = unat off div 4096"
    by (rule div_nat_eqI) (use n off le in \<open>simp_all add: mult.commute\<close>)
  then have "unat ((off + of_nat n - 1) AND PAGE_MASK) = unat (off AND PAGE_MASK)"
    by (simp only: unat_page_base e u)
  then show ?thesis by (rule word_unat_eq_iff [THEN iffD2])
qed

lemma read_sync_mem_eq:
  assumes "mem_access_ok d off n" "n = length buf"
  shows "pmem_read_sync_mem dbg io d off buf n =
      (if io_dax_ok io then Some (0, dev_read d (unat off) n) else None)"
  using assms mem_same_page [OF assms(1)]
  by (simp add: pmem_read_sync_mem_def Let_def page_address mem_access_ok_def)

lemma write_sync_mem_eq:
  assumes "mem_access_ok d off (length bs)"
  shows "pmem_write_sync_mem dbg io d off bs =
      (if io_dax_ok io then Some (0, dev_write d (unat off) bs) else None)"
  using assms mem_same_page [OF assms(1)]
  by (simp add: pmem_write_sync_mem_def Let_def page_address mem_access_ok_def)

lemma block_access_asserts:
  assumes "block_access_ok d off n"
  shows "0 < n \<and> n \<le> PAGE_SIZE" "off mod PAGE_SIZE64 = 0" "of_nat n + PAGE_SIZE64 \<le> pd_size d"
proof -
  show "0 < n \<and> n \<le> PAGE_SIZE" "off mod PAGE_SIZE64 = 0"
    using assms by (auto simp: block_access_ok_def PAGE_SIZE_def)
  have n: "n \<le> 4096" "8192 \<le> unat (pd_size d)" using assms by (auto simp: block_access_ok_def)
  have "unat (of_nat n :: u64) = n" using n by (simp add: unat_of_nat)
  then have "unat (of_nat n + PAGE_SIZE64) = n + 4096"
    using n by (subst unat_add_nowrap) simp_all
  then show "of_nat n + PAGE_SIZE64 \<le> pd_size d" using n by (simp add: word_le_nat_alt)
qed

lemma read_sync_block_eq:
  assumes "block_access_ok d off n" "n = length buf"
  shows "pmem_read_sync_block dbg io d off buf n =
      (if \<not> io_alloc_ok io then Some (- ENOMEM, buf)
       else if io_err io = 0 then Some (0, dev_read d (unat off) n)
       else Some (io_err io, take n (io_page io)))"
  using block_access_asserts [OF assms(1)] assms(2)
  by (simp add: pmem_read_sync_block_def Let_def sector_address dev_read_prefix)

lemma write_sync_block_eq:
  assumes "block_access_ok d off (length bs)"
  shows "pmem_write_sync_block dbg io d off bs =
      (if \<not> io_alloc_ok io then Some (- ENOMEM, d)
       else Some (io_err io, dev_write d (unat off)
         (if io_err io = 0 then bs @ replicate (4096 - length bs) 0 else io_page io)))"
  using block_access_asserts [OF assms(1)]
  by (simp add: pmem_write_sync_block_def Let_def sector_address PAGE_SIZE_def)

lemma papi_ops_simps [simp]:
  "read_sync papi_mem_ops = pmem_read_sync_mem" "write_sync papi_mem_ops = pmem_write_sync_mem"
  "cache_layout papi_mem_ops = CACHE_LAYOUT_SEQUENTIAL" "\<not> page_size_transfer_only papi_mem_ops"
  "read_sync papi_block_ops = pmem_read_sync_block" "write_sync papi_block_ops = pmem_write_sync_block"
  "cache_layout papi_block_ops = CACHE_LAYOUT_INTERLEAVED" "page_size_transfer_only papi_block_ops"
  by (simp_all add: papi_mem_ops_def papi_block_ops_def cache_papi_mem_def cache_papi_block_def
      papi_interface.defs)

interpretation mem: pmem_provider papi_mem_ops mem_access_ok mem_span
proof unfold_locales
  fix d :: pmem_dev and off :: u64 and bs :: "u8 list" and dbg io e d'
  assume ok: "mem_access_ok d off (length bs)"
  { assume w: "write_sync papi_mem_ops dbg io d off bs = Some (0, d')"
    then show "dev_read d' (unat off) (length bs) = bs"
      by (auto simp: write_sync_mem_eq [OF ok] dev_read_dev_write split: if_splits) }
  { fix i assume "write_sync papi_mem_ops dbg io d off bs = Some (e, d')" "i \<notin> mem_span off (length bs)"
    then show "pd_bytes d' i = pd_bytes d i"
      by (auto simp: write_sync_mem_eq [OF ok] pd_bytes_dev_write mem_span_def split: if_splits) }
qed (auto simp: read_sync_mem_eq write_sync_mem_eq io_healthy_def split: if_splits)

interpretation block: pmem_provider papi_block_ops block_access_ok block_span
proof unfold_locales
  fix d :: pmem_dev and off :: u64 and bs :: "u8 list" and dbg io e d'
  assume ok: "block_access_ok d off (length bs)"
  then have le: "length bs \<le> 4096" by (simp add: block_access_ok_def)
  { assume "write_sync papi_block_ops dbg io d off bs = Some (0, d')"
    then show "dev_read d' (unat off) (length bs) = bs"
      by (auto simp: write_sync_block_eq [OF ok] dev_read_dev_write_page [OF le] ENOMEM_def
          split: if_splits) }
  { fix i assume "write_sync papi_block_ops dbg io d off bs = Some (e, d')"
      "i \<notin> block_span off (length bs)"
    then show "pd_bytes d' i = pd_bytes d i"
      using le by (auto simp: write_sync_block_eq [OF ok] pd_bytes_dev_write block_span_def
          split: if_splits) }
qed (auto simp: read_sync_block_eq write_sync_block_eq io_healthy_def ENOMEM_def block_access_ok_def
    split: if_splits)

end
