(* ===== verification/Pmem_Metadata.thy ===== *)
theory Pmem_Metadata
  imports Pmem_Store
begin

text \<open>
  The persistent structures of the cache device: the two copies of the header and the metadata of
  the blocks, with the functions that initialise, update and restore them
  (\<open>bittern_cache_pmem_api.c\<close>).  The structures are written to the device as they are in memory;
  the model encodes them to bytes and decodes them, with the fields that the compiler pads.
\<close>

section \<open>Structures as bytes\<close>

fun split_at :: "nat list \<Rightarrow> 'a list \<Rightarrow> 'a list list" where
  "split_at [] xs = []"
| "split_at (n # ns) xs = take n xs # split_at ns (drop n xs)"

definition uint128_bytes :: "uint128_t \<Rightarrow> u8 list" where
  "uint128_bytes a = le_bytes 8 (lo64 a) @ le_bytes 8 (hi64 a)"

definition uint128_of_bytes :: "u8 list \<Rightarrow> uint128_t" where
  "uint128_of_bytes bs = \<lparr> hi64 = le_word (drop 8 bs), lo64 = le_word (take 8 bs) \<rparr>"

definition header_field_sizes :: "nat list" where
  "header_field_sizes =
     [4, 4, 4, 1, 7, 4, 8, 8, 8, 8, 8, 8, 16, 128, 16, 128, 8, 8, 512, 16, 3192]"

definition header_fields :: "pmem_header \<Rightarrow> u8 list list" where
  "header_fields pm =
     [le_bytes 4 (lm_magic pm), le_bytes 4 (lm_version pm), le_bytes 4 (lm_header_size_bytes pm),
      [lm_cache_layout pm], lm_alignment_pad pm, lm_alignment_gap pm,
      le_bytes 8 (lm_cache_blocks pm), le_bytes 8 (lm_cache_block_size pm),
      le_bytes 8 (lm_mcb_size_bytes pm), le_bytes 8 (lm_cache_size_bytes pm),
      le_bytes 8 (lm_first_offset_bytes pm), le_bytes 8 (lm_first_data_block_offset_bytes pm),
      lm_uuid pm, lm_name pm, lm_device_uuid pm, lm_device_name pm,
      le_bytes 8 (lm_xid_first pm), le_bytes 8 (lm_xid_current pm),
      concat (map (le_bytes 8) (lm_spare pm)), uint128_bytes (lm_hash pm), lm_tail pm]"

definition header_bytes :: "pmem_header \<Rightarrow> u8 list" where
  "header_bytes pm = concat (header_fields pm)"

definition header_of_bytes :: "u8 list \<Rightarrow> pmem_header" where
  "header_of_bytes bs =
     (let f = (\<lambda>i. split_at header_field_sizes bs ! i) in
      \<lparr> lm_magic = le_word (f 0), lm_version = le_word (f 1), lm_header_size_bytes = le_word (f 2),
        lm_cache_layout = hd (f 3), lm_alignment_pad = f 4, lm_alignment_gap = f 5,
        lm_cache_blocks = le_word (f 6), lm_cache_block_size = le_word (f 7),
        lm_mcb_size_bytes = le_word (f 8), lm_cache_size_bytes = le_word (f 9),
        lm_first_offset_bytes = le_word (f 10), lm_first_data_block_offset_bytes = le_word (f 11),
        lm_uuid = f 12, lm_name = f 13, lm_device_uuid = f 14, lm_device_name = f 15,
        lm_xid_first = le_word (f 16), lm_xid_current = le_word (f 17),
        lm_spare = map le_word (split_at (replicate 64 8) (f 18)),
        lm_hash = uint128_of_bytes (f 19), lm_tail = f 20 \<rparr>)"

definition PMEM_HEADER_HASHING_SIZE :: nat where
  "PMEM_HEADER_HASHING_SIZE = 888"

definition header_hash :: "pmem_header \<Rightarrow> uint128_t" where
  "header_hash pm = murmurhash3_128 (header_bytes pm) PMEM_HEADER_HASHING_SIZE"

definition MCBM_MAGIC :: u32 where
  "MCBM_MAGIC = 0xf10c8a0f"

record pmem_block_metadata =
  pmbm_magic :: u32
  pmbm_block_id :: u32
  pmbm_device_sector :: u64
  pmbm_xid :: u64
  pmbm_status :: u32
  pmbm_alignment_gap :: "u8 list"
  pmbm_hash_data :: uint128_t
  pmbm_hash_metadata :: uint128_t

definition metadata_field_sizes :: "nat list" where
  "metadata_field_sizes = [4, 4, 8, 8, 4, 4, 16, 16]"

definition metadata_fields :: "pmem_block_metadata \<Rightarrow> u8 list list" where
  "metadata_fields p =
     [le_bytes 4 (pmbm_magic p), le_bytes 4 (pmbm_block_id p), le_bytes 8 (pmbm_device_sector p),
      le_bytes 8 (pmbm_xid p), le_bytes 4 (pmbm_status p), pmbm_alignment_gap p,
      uint128_bytes (pmbm_hash_data p), uint128_bytes (pmbm_hash_metadata p)]"

definition metadata_bytes :: "pmem_block_metadata \<Rightarrow> u8 list" where
  "metadata_bytes p = concat (metadata_fields p)"

definition metadata_of_bytes :: "u8 list \<Rightarrow> pmem_block_metadata" where
  "metadata_of_bytes bs =
     (let f = (\<lambda>i. split_at metadata_field_sizes bs ! i) in
      \<lparr> pmbm_magic = le_word (f 0), pmbm_block_id = le_word (f 1),
        pmbm_device_sector = le_word (f 2), pmbm_xid = le_word (f 3), pmbm_status = le_word (f 4),
        pmbm_alignment_gap = f 5, pmbm_hash_data = uint128_of_bytes (f 6),
        pmbm_hash_metadata = uint128_of_bytes (f 7) \<rparr>)"

definition PMEM_BLOCK_METADATA_HASHING_SIZE :: nat where
  "PMEM_BLOCK_METADATA_HASHING_SIZE = 48"

definition metadata_hash :: "pmem_block_metadata \<Rightarrow> uint128_t" where
  "metadata_hash p = murmurhash3_128 (metadata_bytes p) PMEM_BLOCK_METADATA_HASHING_SIZE"

text \<open>The number of a state as it is stored in the metadata.\<close>

definition pmbm_status_of :: "cache_state \<Rightarrow> u32" where
  "pmbm_status_of s = of_nat (cache_state_num s)"

definition CACHE_STATE_VALID :: "u32 \<Rightarrow> bool" where
  "CACHE_STATE_VALID n \<longleftrightarrow> unat n < length cache_states"

definition cache_state_of_num :: "u32 \<Rightarrow> cache_state" where
  "cache_state_of_num n = cache_states ! unat n"

section \<open>State of the persistent memory interface\<close>

text \<open>The counters that the restore reports, and which copies of the header it found valid.\<close>

record pmem_info =
  restore_header_valid :: bool
  restore_header0_valid :: bool
  restore_header1_valid :: bool
  restore_corrupt_metadata_blocks :: u32
  restore_valid_clean_metadata_blocks :: u32
  restore_valid_dirty_metadata_blocks :: u32
  restore_invalid_metadata_blocks :: u32
  restore_pending_metadata_blocks :: u32
  restore_invalid_data_blocks :: u32
  restore_valid_clean_data_blocks :: u32
  restore_valid_dirty_data_blocks :: u32
  restore_hash_corrupt_metadata_blocks :: u32
  restore_hash_corrupt_data_blocks :: u32

definition pmem_info_initialize :: pmem_info where
  "pmem_info_initialize =
     \<lparr> restore_header_valid = False, restore_header0_valid = False, restore_header1_valid = False,
       restore_corrupt_metadata_blocks = 0, restore_valid_clean_metadata_blocks = 0,
       restore_valid_dirty_metadata_blocks = 0, restore_invalid_metadata_blocks = 0,
       restore_pending_metadata_blocks = 0, restore_invalid_data_blocks = 0,
       restore_valid_clean_data_blocks = 0, restore_valid_dirty_data_blocks = 0,
       restore_hash_corrupt_metadata_blocks = 0, restore_hash_corrupt_data_blocks = 0 \<rparr>"

record pmem_api =
  papi_stats :: pmem_info
  papi_hdr :: pmem_header
  papi_hdr_updated_last :: int

definition upd_papi_stats :: "(pmem_info \<Rightarrow> pmem_info) \<Rightarrow> pmem_api \<Rightarrow> pmem_api" where
  "upd_papi_stats f pa = pa\<lparr> papi_stats := f (papi_stats pa) \<rparr>"

text \<open>
  The kernel during a sequence of transfers and allocations: the transfer with number \<open>i\<close> meets
  \<open>pe_io i\<close>, the allocation with number \<open>i\<close> succeeds if \<open>pe_alloc i\<close>.
\<close>

record pmem_env =
  pe_io :: "nat \<Rightarrow> pmem_io"
  pe_alloc :: "nat \<Rightarrow> bool"

definition env_healthy :: "pmem_env \<Rightarrow> bool" where
  "env_healthy env \<longleftrightarrow> (\<forall>i. io_healthy (pe_io env i) \<and> pe_alloc env i)"

definition pmem_read_sync ::
  "bool \<Rightarrow> papi_ops \<Rightarrow> pmem_io \<Rightarrow> pmem_dev \<Rightarrow> u64 \<Rightarrow> u8 list \<Rightarrow> nat \<Rightarrow> (int \<times> u8 list) option" where
  "pmem_read_sync dbg papi io d from_pmem_offset to_buffer sz =
     do {
       ASSERT dbg (pd_size d > 0);
       read_sync papi dbg io d from_pmem_offset to_buffer sz
     }"

definition pmem_write_sync ::
  "bool \<Rightarrow> papi_ops \<Rightarrow> pmem_io \<Rightarrow> pmem_dev \<Rightarrow> u64 \<Rightarrow> u8 list \<Rightarrow> (int \<times> pmem_dev) option" where
  "pmem_write_sync dbg papi io d to_pmem_offset from_buffer =
     do {
       ASSERT dbg (pd_size d > 0);
       write_sync papi dbg io d to_pmem_offset from_buffer
     }"

section \<open>Restoring the header\<close>

text \<open>
  \<open>__pmem_header_restore\<close> loads one copy into the in-memory header and checks magic number,
  version and hash.  On success the transaction id of the copy is returned.
\<close>

definition pmem_header_restore_copy ::
  "bool \<Rightarrow> papi_ops \<Rightarrow> pmem_io \<Rightarrow> pmem_dev \<Rightarrow> nat \<Rightarrow> u64 \<Rightarrow> pmem_api \<Rightarrow> (int \<times> u64 \<times> pmem_api) option" where
  "pmem_header_restore_copy dbg papi io d header_block_number out_xid pa =
     do {
       M_ASSERT (header_block_number = 0 \<or> header_block_number = 1);
       ASSERT dbg (pd_size d > 0);
       let header_block_offset_bytes =
         (if header_block_number = 0 then CACHE_MEM_HEADER_0_OFFSET_BYTES
          else CACHE_MEM_HEADER_1_OFFSET_BYTES);
       (ret, bytes) \<leftarrow> pmem_read_sync dbg papi io d header_block_offset_bytes
                         (header_bytes (papi_hdr pa)) PAGE_SIZE;
       let pa = pa\<lparr> papi_hdr := header_of_bytes bytes \<rparr>;
       let pm = papi_hdr pa;
       if ret \<noteq> 0 then do { ASSERT dbg (ret < 0); Some (ret, out_xid, pa) }
       else if lm_magic pm \<noteq> LM_MAGIC then Some (- EBADMSG, out_xid, pa)
       else if lm_version pm \<noteq> LM_VERSION then Some (- EBADMSG, out_xid, pa)
       else if uint128_ne (header_hash pm) (lm_hash pm) then Some (- EBADMSG, out_xid, pa)
       else Some (0, lm_xid_current pm, pa)
     }"

text \<open>The checks of the fields of the copy that was chosen.\<close>

definition pmem_header_check ::
  "bool \<Rightarrow> papi_ops \<Rightarrow> pmem_dev \<Rightarrow> pmem_header \<Rightarrow> int option" where
  "pmem_header_check dbg papi d pm =
     (if lm_header_size_bytes pm \<noteq> of_nat PAGE_SIZE then Some (- EBADMSG)
      else if lm_cache_block_size pm \<noteq> PAGE_SIZE64 then Some (- EBADMSG)
      else if lm_cache_layout pm \<noteq> layout_char (cache_layout papi) then Some (- EBADMSG)
      else if lm_mcb_size_bytes pm \<noteq> PMEM_BLOCK_METADATA_SIZE \<and> lm_mcb_size_bytes pm \<noteq> PAGE_SIZE64
        then Some (- EBADMSG)
      else if page_size_transfer_only papi \<and> lm_mcb_size_bytes pm \<noteq> PAGE_SIZE64 then Some (- EINVAL)
      else if \<not> page_size_transfer_only papi \<and> lm_mcb_size_bytes pm \<noteq> PMEM_BLOCK_METADATA_SIZE
        then Some (- EINVAL)
      else if lm_first_offset_bytes pm \<noteq> CACHE_MEM_FIRST_OFFSET_BYTES then Some (- EBADMSG)
      else do {
        ret \<leftarrow>
          (if lm_cache_layout pm = layout_char CACHE_LAYOUT_SEQUENTIAL then
             let m = lm_first_offset_bytes pm;
                 m = m + lm_cache_blocks pm * lm_mcb_size_bytes pm;
                 m = round_up m PAGE_SIZE64
             in if m \<noteq> lm_first_data_block_offset_bytes pm then Some (- EBADMSG)
                else let m = m + lm_cache_blocks pm * PAGE_SIZE64
                     in if m > lm_cache_size_bytes pm then Some (- EBADMSG) else Some 0
           else do {
             let m = lm_first_offset_bytes pm;
             let m = m + lm_cache_blocks pm * (PAGE_SIZE64 * 2);
             ASSERT dbg (lm_cache_layout pm = layout_char CACHE_LAYOUT_INTERLEAVED);
             if lm_first_data_block_offset_bytes pm \<noteq> CACHE_MEM_FIRST_OFFSET_BYTES
             then Some (- EBADMSG)
             else if m > lm_cache_size_bytes pm then Some (- EBADMSG) else Some 0
           });
        if ret \<noteq> 0 then Some ret
        else do {
          ASSERT dbg (pd_size d > 0);
          if lm_cache_size_bytes pm > pd_size d then Some (- EBADMSG) else Some 0
        }
      })"

text \<open>The chosen copy is read again and checked; the transaction id of the cache continues from it.\<close>

definition pmem_header_restore_chosen ::
  "bool \<Rightarrow> papi_ops \<Rightarrow> pmem_env \<Rightarrow> pmem_dev \<Rightarrow> nat \<Rightarrow> u64 \<Rightarrow> pmem_api \<Rightarrow> (int \<times> pmem_api \<times> u64) option" where
  "pmem_header_restore_chosen dbg papi env d header_block_number xid pa =
     do {
       (ret, xid, pa) \<leftarrow> pmem_header_restore_copy dbg papi (pe_io env 2) d header_block_number xid pa;
       let cache_xid = xid + 1;
       if ret \<noteq> 0 then Some (ret, pa, cache_xid)
       else do {
         M_ASSERT (restore_header0_valid (papi_stats pa) \<or> restore_header1_valid (papi_stats pa));
         let cache_xid = cache_xid + 1;
         let pm = papi_hdr pa;
         ret \<leftarrow> pmem_header_check dbg papi d pm;
         if ret \<noteq> 0 then Some (ret, pa, cache_xid)
         else do {
           pmem_assert_offsets dbg (pd_size d) pm;
           Some (0, upd_papi_stats (\<lambda>s. s\<lparr> restore_header_valid := True \<rparr>) pa, cache_xid)
         }
       }
     }"

definition pmem_header_restore ::
  "bool \<Rightarrow> papi_ops \<Rightarrow> pmem_env \<Rightarrow> pmem_dev \<Rightarrow> pmem_api \<times> u64 \<Rightarrow> (int \<times> pmem_api \<times> u64) option" where
  "pmem_header_restore dbg papi env d = (\<lambda>(pa, cache_xid).
     do {
       ASSERT dbg (pd_size d > 0);
       (ret0, hdr_0_xid, pa) \<leftarrow> pmem_header_restore_copy dbg papi (pe_io env 0) d 0 0 pa;
       let pa = (if ret0 = 0 then upd_papi_stats (\<lambda>s. s\<lparr> restore_header0_valid := True \<rparr>) pa else pa);
       (ret1, hdr_1_xid, pa) \<leftarrow> pmem_header_restore_copy dbg papi (pe_io env 1) d 1 0 pa;
       let pa = (if ret1 = 0 then upd_papi_stats (\<lambda>s. s\<lparr> restore_header1_valid := True \<rparr>) pa else pa);
       let valid0 = restore_header0_valid (papi_stats pa);
       let valid1 = restore_header1_valid (papi_stats pa);
       if \<not> valid0 \<and> \<not> valid1 then do { M_ASSERT (ret1 < 0); Some (ret1, pa, cache_xid) }
       else if \<not> valid1 then pmem_header_restore_chosen dbg papi env d 0 hdr_0_xid pa
       else if \<not> valid0 then pmem_header_restore_chosen dbg papi env d 1 hdr_1_xid pa
       else if hdr_0_xid > hdr_1_xid then pmem_header_restore_chosen dbg papi env d 0 hdr_0_xid pa
       else pmem_header_restore_chosen dbg papi env d 1 hdr_1_xid pa
     })"

section \<open>Restoring a block\<close>

text \<open>
  The result is negative for corrupt data, 1 for a block that was restored and 0 when the crash
  was in the middle of a transaction.
\<close>

definition pmem_block_restore_data ::
  "bool \<Rightarrow> papi_ops \<Rightarrow> pmem_env \<Rightarrow> pmem_dev \<Rightarrow> pmem_block_metadata \<Rightarrow> pmem_api \<times> cache_block \<Rightarrow>
     (int \<times> pmem_api \<times> cache_block) option" where
  "pmem_block_restore_data dbg papi env d pmbm = (\<lambda>(pa, cb).
     do {
       let block_id = of_nat (bcb_block_id cb);
       let is_clean = (pmbm_status pmbm = pmbm_status_of S_CLEAN);
       ASSERT dbg (is_clean \<or> pmbm_status pmbm = pmbm_status_of S_DIRTY);
       let pa = upd_papi_stats (\<lambda>s.
         if is_clean
         then s\<lparr> restore_valid_clean_metadata_blocks := restore_valid_clean_metadata_blocks s + 1 \<rparr>
         else s\<lparr> restore_valid_dirty_metadata_blocks := restore_valid_dirty_metadata_blocks s + 1 \<rparr>) pa;
       ASSERT dbg (block_id = pmbm_block_id pmbm);
       ASSERT dbg (is_sector_cache_aligned (pmbm_device_sector pmbm));
       if \<not> pe_alloc env 1 then Some (- ENOMEM, pa, cb)
       else do {
         off \<leftarrow> cache_block_id_2_data_pmem_offset dbg (pd_size d) (papi_hdr pa) block_id;
         (ret, buffer) \<leftarrow> pmem_read_sync dbg papi (pe_io env 1) d off (replicate PAGE_SIZE 0) PAGE_SIZE;
         if ret \<noteq> 0 then do { ASSERT dbg (ret < 0); Some (ret, pa, cb) }
         else if uint128_ne (murmurhash3_128 buffer PAGE_SIZE) (pmbm_hash_data pmbm) then
           Some (- EHWPOISON, upd_papi_stats (\<lambda>s.
             s\<lparr> restore_hash_corrupt_data_blocks := restore_hash_corrupt_data_blocks s + 1 \<rparr>) pa, cb)
         else do {
           let pa = upd_papi_stats (\<lambda>s.
             if is_clean
             then s\<lparr> restore_valid_clean_data_blocks := restore_valid_clean_data_blocks s + 1 \<rparr>
             else s\<lparr> restore_valid_dirty_data_blocks := restore_valid_dirty_data_blocks s + 1 \<rparr>) pa;
           let cb = cb\<lparr> bcb_sector := pmbm_device_sector pmbm,
             bcb_state := cache_state_of_num (pmbm_status pmbm), bcb_xid := pmbm_xid pmbm,
             bcb_hash_data := pmbm_hash_data pmbm \<rparr>;
           ASSERT dbg (bcb_state cb = S_CLEAN \<or> bcb_state cb = S_DIRTY);
           ASSERT dbg (bcb_sector cb \<noteq> - 1);
           ASSERT dbg (is_sector_number_valid (bcb_sector cb));
           Some (1, pa, cb)
         }
       }
     })"

definition pmem_block_restore ::
  "bool \<Rightarrow> papi_ops \<Rightarrow> pmem_env \<Rightarrow> pmem_dev \<Rightarrow> pmem_api \<times> cache_block \<Rightarrow>
     (int \<times> pmem_api \<times> cache_block) option" where
  "pmem_block_restore dbg papi env d = (\<lambda>(pa, cb).
     do {
       ASSERT dbg (pd_size d > 0);
       let block_id = of_nat (bcb_block_id cb);
       ASSERT dbg (lm_cache_blocks (papi_hdr pa) \<noteq> 0);
       ASSERT dbg (block_id \<ge> 1 \<and> ucast block_id \<le> lm_cache_blocks (papi_hdr pa));
       if \<not> pe_alloc env 0 then Some (- ENOMEM, pa, cb)
       else do {
         off \<leftarrow> cache_block_id_2_metadata_pmem_offset dbg (pd_size d) (papi_hdr pa) block_id;
         (ret, bytes) \<leftarrow> pmem_read_sync dbg papi (pe_io env 0) d off (replicate 64 0) 64;
         let pmbm = metadata_of_bytes bytes;
         if ret \<noteq> 0 then do { ASSERT dbg (ret < 0); Some (ret, pa, cb) }
         else if pmbm_magic pmbm \<noteq> MCBM_MAGIC then
           Some (- EHWPOISON, upd_papi_stats (\<lambda>s.
             s\<lparr> restore_corrupt_metadata_blocks := restore_corrupt_metadata_blocks s + 1 \<rparr>) pa, cb)
         else if uint128_ne (metadata_hash pmbm) (pmbm_hash_metadata pmbm) then
           Some (- EHWPOISON, upd_papi_stats (\<lambda>s.
             s\<lparr> restore_hash_corrupt_metadata_blocks := restore_hash_corrupt_metadata_blocks s + 1 \<rparr>) pa, cb)
         else if \<not> CACHE_STATE_VALID (pmbm_status pmbm) then
           Some (- EHWPOISON, upd_papi_stats (\<lambda>s.
             s\<lparr> restore_corrupt_metadata_blocks := restore_corrupt_metadata_blocks s + 1 \<rparr>) pa, cb)
         else if pmbm_status pmbm = pmbm_status_of S_INVALID then
           Some (1, upd_papi_stats (\<lambda>s.
             s\<lparr> restore_invalid_metadata_blocks := restore_invalid_metadata_blocks s + 1,
                restore_invalid_data_blocks := restore_invalid_data_blocks s + 1 \<rparr>) pa, cb)
         else if pmbm_status pmbm \<noteq> pmbm_status_of S_CLEAN \<and>
                 pmbm_status pmbm \<noteq> pmbm_status_of S_DIRTY then
           Some (0, upd_papi_stats (\<lambda>s.
             s\<lparr> restore_pending_metadata_blocks := restore_pending_metadata_blocks s + 1 \<rparr>) pa, cb)
         else pmem_block_restore_data dbg papi env d pmbm (pa, cb)
       }
     })"

section \<open>Initialising and updating\<close>

text \<open>The header after it is cleared, and \<open>snprintf\<close> of a zero terminated name into a field.\<close>

definition zero_header :: pmem_header where
  "zero_header =
     \<lparr> lm_magic = 0, lm_version = 0, lm_header_size_bytes = 0, lm_cache_layout = 0,
       lm_alignment_pad = replicate 7 0, lm_alignment_gap = replicate 4 0, lm_cache_blocks = 0,
       lm_cache_block_size = 0, lm_mcb_size_bytes = 0, lm_cache_size_bytes = 0,
       lm_first_offset_bytes = 0, lm_first_data_block_offset_bytes = 0, lm_uuid = replicate 16 0,
       lm_name = replicate 128 0, lm_device_uuid = replicate 16 0, lm_device_name = replicate 128 0,
       lm_xid_first = 0, lm_xid_current = 0, lm_spare = replicate 64 0, lm_hash = UINT128_ZERO,
       lm_tail = replicate 3192 0 \<rparr>"

definition name_field :: "u8 list \<Rightarrow> u8 list" where
  "name_field s = take 127 s @ replicate (128 - min 127 (length s)) 0"

text \<open>The names and the two random identifiers of a new cache.\<close>

record cache_names =
  cn_name :: "u8 list"
  cn_device_name :: "u8 list"
  cn_uuid :: "u8 list"
  cn_device_uuid :: "u8 list"

definition pmem_header_initialize ::
  "bool \<Rightarrow> papi_ops \<Rightarrow> pmem_env \<Rightarrow> cache_names \<Rightarrow> pmem_dev \<times> pmem_api \<times> u64 \<Rightarrow>
     (int \<times> pmem_dev \<times> pmem_api \<times> u64) option" where
  "pmem_header_initialize dbg papi env names = (\<lambda>(d, pa, cache_xid).
     do {
       ASSERT dbg (pd_size d > 0);
       let pm = zero_header\<lparr> lm_magic := LM_MAGIC, lm_version := LM_VERSION,
         lm_cache_block_size := PAGE_SIZE64 \<rparr>;
       pm \<leftarrow> pmem_initialize_pmem_header_sizes dbg (papi_interface.truncate papi) pm (pd_size d);
       let pm = pm\<lparr> lm_uuid := cn_uuid names, lm_name := name_field (cn_name names),
         lm_device_uuid := cn_device_uuid names, lm_device_name := name_field (cn_device_name names),
         lm_xid_first := 1, lm_xid_current := 1 \<rparr>;
       pmem_assert_offsets dbg (pd_size d) pm;
       let pm = pm\<lparr> lm_xid_current := lm_xid_current pm + 1 \<rparr>;
       let pm = pm\<lparr> lm_hash := header_hash pm \<rparr>;
       (ret, d) \<leftarrow> pmem_write_sync dbg papi (pe_io env 0) d CACHE_MEM_HEADER_0_OFFSET_BYTES
                     (header_bytes pm);
       if ret \<noteq> 0 then do { ASSERT dbg (ret < 0); Some (ret, d, pa\<lparr> papi_hdr := pm \<rparr>, cache_xid) }
       else do {
         let pm = pm\<lparr> lm_xid_current := lm_xid_current pm + 1 \<rparr>;
         let pm = pm\<lparr> lm_hash := header_hash pm \<rparr>;
         (ret, d) \<leftarrow> pmem_write_sync dbg papi (pe_io env 1) d CACHE_MEM_HEADER_1_OFFSET_BYTES
                       (header_bytes pm);
         if ret \<noteq> 0 then do { ASSERT dbg (ret < 0); Some (ret, d, pa\<lparr> papi_hdr := pm \<rparr>, cache_xid) }
         else Some (0, d, pa\<lparr> papi_hdr := pm \<rparr>, lm_xid_current pm + 1)
       }
     })"

definition pmem_metadata_initialize ::
  "bool \<Rightarrow> papi_ops \<Rightarrow> pmem_env \<Rightarrow> pmem_api \<Rightarrow> u32 \<Rightarrow> pmem_dev \<Rightarrow> (int \<times> pmem_dev) option" where
  "pmem_metadata_initialize dbg papi env pa block_id d =
     do {
       ASSERT dbg (lm_cache_blocks (papi_hdr pa) \<noteq> 0);
       ASSERT dbg (pd_size d > 0);
       if \<not> pe_alloc env 0 then Some (- ENOMEM, d)
       else do {
         let pmbm = \<lparr> pmbm_magic = MCBM_MAGIC, pmbm_block_id = block_id, pmbm_device_sector = - 1,
           pmbm_xid = 0, pmbm_status = pmbm_status_of S_INVALID, pmbm_alignment_gap = replicate 4 0,
           pmbm_hash_data = UINT128_ZERO, pmbm_hash_metadata = UINT128_ZERO \<rparr>;
         let pmbm = pmbm\<lparr> pmbm_hash_metadata := metadata_hash pmbm \<rparr>;
         off \<leftarrow> cache_block_id_2_metadata_pmem_offset dbg (pd_size d) (papi_hdr pa) block_id;
         (ret, d) \<leftarrow> pmem_write_sync dbg papi (pe_io env 0) d off (metadata_bytes pmbm);
         if ret \<noteq> 0 then do { ASSERT dbg (ret < 0); Some (ret, d) } else Some (0, d)
       }
     }"

text \<open>One of the two copies is written, in turn, or both; the argument is the cache's transaction id.\<close>

definition pmem_header_update ::
  "bool \<Rightarrow> papi_ops \<Rightarrow> pmem_env \<Rightarrow> u64 \<Rightarrow> bool \<Rightarrow> pmem_dev \<times> pmem_api \<Rightarrow>
     (int \<times> pmem_dev \<times> pmem_api) option" where
  "pmem_header_update dbg papi env cache_xid update_both = (\<lambda>(d, pa).
     do {
       ASSERT dbg (pd_size d > 0);
       M_ASSERT (lm_xid_current (papi_hdr pa) \<le> cache_xid);
       if lm_xid_current (papi_hdr pa) = cache_xid then Some (0, d, pa)
       else do {
         let pm = (papi_hdr pa)\<lparr> lm_xid_current := cache_xid \<rparr>;
         (ret, d, pm) \<leftarrow>
           (if papi_hdr_updated_last pa = 1 \<or> update_both then do {
              let pm = pm\<lparr> lm_hash := header_hash pm \<rparr>;
              (ret, d) \<leftarrow> pmem_write_sync dbg papi (pe_io env 0) d CACHE_MEM_HEADER_0_OFFSET_BYTES
                            (header_bytes pm);
              ASSERT dbg (ret \<le> 0);
              Some (ret, d, pm)
            } else Some (0, d, pm));
         if ret \<noteq> 0 then Some (ret, d, pa\<lparr> papi_hdr := pm \<rparr>)
         else do {
           (ret, d, pm) \<leftarrow>
             (if papi_hdr_updated_last pa = 0 \<or> update_both then do {
                let pm = pm\<lparr> lm_hash := header_hash pm \<rparr>;
                (ret, d) \<leftarrow> pmem_write_sync dbg papi (pe_io env 1) d CACHE_MEM_HEADER_1_OFFSET_BYTES
                              (header_bytes pm);
                ASSERT dbg (ret \<le> 0);
                Some (ret, d, pm)
              } else Some (0, d, pm));
           if ret \<noteq> 0 then Some (ret, d, pa\<lparr> papi_hdr := pm \<rparr>)
           else Some (0, d, pa\<lparr> papi_hdr := pm,
             papi_hdr_updated_last := (papi_hdr_updated_last pa + 1) mod 2 \<rparr>)
         }
       }
     })"

text \<open>The periodic work item: a failing update makes the cache fail all further requests.\<close>

definition pmem_header_update_worker ::
  "bool \<Rightarrow> papi_ops \<Rightarrow> pmem_env \<Rightarrow> u64 \<Rightarrow> pmem_dev \<times> pmem_api \<times> error_state \<Rightarrow>
     (pmem_dev \<times> pmem_api \<times> error_state) option" where
  "pmem_header_update_worker dbg papi env cache_xid = (\<lambda>(d, pa, es).
     if es = ES_NOERROR then do {
       (ret, d, pa) \<leftarrow> pmem_header_update dbg papi env cache_xid False (d, pa);
       Some (d, pa, if ret \<noteq> 0 then ES_ERROR_FAIL_ALL else es)
     }
     else Some (d, pa, es))"

section \<open>Encoding and decoding\<close>

lemma length_split_at [simp]: "length (split_at ns xs) = length ns"
  by (induction ns xs rule: split_at.induct) simp_all

lemma split_at_concat [simp]: "map length xss = ns \<Longrightarrow> split_at ns (concat xss) = xss"
  by (induction xss arbitrary: ns) auto

lemma concat_split_at: "sum_list ns = length xs \<Longrightarrow> concat (split_at ns xs) = xs"
  by (induction ns xs rule: split_at.induct) auto

lemma map_length_split_at: "sum_list ns = length xs \<Longrightarrow> map length (split_at ns xs) = ns"
  by (induction ns xs rule: split_at.induct) auto

lemma length_uint128_bytes [simp]: "length (uint128_bytes a) = 16"
  by (simp add: uint128_bytes_def)

lemma uint128_of_bytes_bytes [simp]: "uint128_of_bytes (uint128_bytes a) = a"
  by (cases a) (simp add: uint128_bytes_def uint128_of_bytes_def)

lemma uint128_bytes_of_bytes [simp]: "length bs = 16 \<Longrightarrow> uint128_bytes (uint128_of_bytes bs) = bs"
  by (simp add: uint128_bytes_def uint128_of_bytes_def)

lemma length_concat_le_bytes [simp]: "length (concat (map (le_bytes n) ws)) = n * length ws"
  by (induction ws) simp_all

lemma le_words_concat:
  "length ws = n \<Longrightarrow>
     map le_word (split_at (replicate n 8) (concat (map (le_bytes 8) ws))) = (ws :: u64 list)"
  by (induction ws arbitrary: n) auto

lemma concat_le_words:
  assumes "length bs = 8 * n"
  shows "concat (map (le_bytes 8) (map (le_word :: _ \<Rightarrow> u64) (split_at (replicate n 8) bs))) = bs"
  using assms
proof (induction n arbitrary: bs)
  case (Suc n)
  from Suc.prems have l: "length (take 8 bs) = 8" "length (drop 8 bs) = 8 * n" by simp_all
  have "concat (map (le_bytes 8) (map (le_word :: _ \<Rightarrow> u64) (split_at (replicate (Suc n) 8) bs))) =
      take 8 bs @ drop 8 bs"
    using Suc.IH [OF l(2)] l(1) by (simp del: length_take)
  then show ?case by simp
qed simp

text \<open>A header whose array fields have their sizes.\<close>

definition header_sized :: "pmem_header \<Rightarrow> bool" where
  "header_sized pm \<longleftrightarrow> map length (header_fields pm) = header_field_sizes"

lemma sum_header_field_sizes: "sum_list header_field_sizes = 4096"
  by (simp add: header_field_sizes_def)

lemma header_sized_iff:
  "header_sized pm \<longleftrightarrow>
     length (lm_alignment_pad pm) = 7 \<and> length (lm_alignment_gap pm) = 4 \<and>
     length (lm_uuid pm) = 16 \<and> length (lm_name pm) = 128 \<and> length (lm_device_uuid pm) = 16 \<and>
     length (lm_device_name pm) = 128 \<and> length (lm_spare pm) = 64 \<and> length (lm_tail pm) = 3192"
  by (auto simp: header_sized_def header_fields_def header_field_sizes_def)

lemma length_header_bytes: "header_sized pm \<Longrightarrow> length (header_bytes pm) = 4096"
  by (simp add: header_bytes_def header_sized_def length_concat sum_header_field_sizes)

lemma header_of_bytes_bytes:
  assumes "header_sized pm"
  shows "header_of_bytes (header_bytes pm) = pm"
proof -
  have s: "split_at header_field_sizes (header_bytes pm) = header_fields pm"
    using assms by (simp add: header_sized_def header_bytes_def)
  have "length (lm_spare pm) = 64" using assms by (simp add: header_sized_iff)
  then show ?thesis
    unfolding header_of_bytes_def s by (cases pm) (simp add: header_fields_def le_words_concat)
qed

lemma header_fields_of_bytes:
  assumes "length bs = 4096"
  shows "header_fields (header_of_bytes bs) = split_at header_field_sizes bs"
proof -
  define f where "f = split_at header_field_sizes bs"
  have l: "length f = 21" by (simp add: f_def header_field_sizes_def)
  have m: "map length f = header_field_sizes"
    using assms unfolding f_def by (intro map_length_split_at) (simp add: sum_header_field_sizes)
  have len: "length (f ! i) = header_field_sizes ! i" if "i < 21" for i
    using m l that by (metis nth_map)
  have "length (f ! 3) = Suc 0" using len [of 3] by (simp add: header_field_sizes_def)
  then have one: "[hd (f ! 3)] = f ! 3" by (auto simp: length_Suc_conv)
  have spare: "concat (map (le_bytes 8) (map (le_word :: _ \<Rightarrow> u64) (split_at (replicate 64 8) (f ! 18)))) = f ! 18"
    using len [of 18] by (intro concat_le_words) (simp add: header_field_sizes_def)
  have idx: "[0 ..< 21] = [0, 1, 2, 3, 4, 5, 6, 7, 8, 9, 10, 11, 12, 13, 14, 15, 16, 17, 18, 19, 20]"
    by (simp add: upt_rec)
  have "header_fields (header_of_bytes bs) = map (\<lambda>i. f ! i) [0 ..< 21]"
    unfolding header_of_bytes_def f_def [symmetric] Let_def idx header_fields_def
    by (simp only: pmem_header.simps spare one list.map)
      (simp add: len header_field_sizes_def)
  also have "\<dots> = f" using l by (metis map_nth)
  finally show ?thesis by (simp add: f_def)
qed

lemma header_bytes_of_bytes:
  assumes "length bs = 4096"
  shows "header_bytes (header_of_bytes bs) = bs" "header_sized (header_of_bytes bs)"
  using assms header_fields_of_bytes [OF assms] map_length_split_at [of header_field_sizes bs]
  by (simp_all add: header_bytes_def header_sized_def concat_split_at sum_header_field_sizes)

definition metadata_sized :: "pmem_block_metadata \<Rightarrow> bool" where
  "metadata_sized p \<longleftrightarrow> length (pmbm_alignment_gap p) = 4"

lemma metadata_sized_fields:
  "metadata_sized p \<Longrightarrow> map length (metadata_fields p) = metadata_field_sizes"
  by (simp add: metadata_sized_def metadata_fields_def metadata_field_sizes_def)

lemma length_metadata_bytes: "metadata_sized p \<Longrightarrow> length (metadata_bytes p) = 64"
  using metadata_sized_fields [of p]
  by (simp add: metadata_bytes_def length_concat metadata_field_sizes_def)

lemma metadata_of_bytes_bytes: "metadata_sized p \<Longrightarrow> metadata_of_bytes (metadata_bytes p) = p"
  by (cases p) (simp add: metadata_of_bytes_def metadata_bytes_def metadata_fields_def
      metadata_field_sizes_def metadata_sized_def uint128_bytes_def uint128_of_bytes_def)

lemma metadata_bytes_of_bytes:
  assumes "length bs = 64"
  shows "metadata_bytes (metadata_of_bytes bs) = bs" "metadata_sized (metadata_of_bytes bs)"
proof -
  have f: "metadata_fields (metadata_of_bytes bs) = split_at metadata_field_sizes bs"
    using assms by (simp add: metadata_of_bytes_def metadata_fields_def metadata_field_sizes_def)
  show "metadata_bytes (metadata_of_bytes bs) = bs"
    unfolding metadata_bytes_def f using assms
    by (intro concat_split_at) (simp add: metadata_field_sizes_def)
  show "metadata_sized (metadata_of_bytes bs)"
    using assms by (simp add: metadata_sized_def metadata_of_bytes_def metadata_field_sizes_def)
qed

section \<open>Devices with a header\<close>

text \<open>
  The provider's contract at the offsets of the layout: the two headers, the metadata and the data
  of every block can be transferred, and a transfer stays in its region.
\<close>

locale pmem_device = pmem_provider papi access_ok span
  for papi :: papi_ops
    and access_ok :: "pmem_dev \<Rightarrow> u64 \<Rightarrow> nat \<Rightarrow> bool"
    and span :: "u64 \<Rightarrow> nat \<Rightarrow> nat set" +
  assumes header_access: "262144 \<le> unat (pd_size d) \<Longrightarrow>
      access_ok d CACHE_MEM_HEADER_0_OFFSET_BYTES 4096 \<and> access_ok d CACHE_MEM_HEADER_1_OFFSET_BYTES 4096"
    and header_span: "span CACHE_MEM_HEADER_0_OFFSET_BYTES 4096 = {0 ..< 4096}"
      "span CACHE_MEM_HEADER_1_OFFSET_BYTES 4096 = {131072 ..< 135168}"
    and metadata_access: "layout_wf pm \<Longrightarrow> lm_cache_layout pm = layout_char (cache_layout papi) \<Longrightarrow>
      1 \<le> i \<Longrightarrow> i \<le> nblocks pm \<Longrightarrow> 262144 \<le> unat (pd_size d) \<Longrightarrow> unat off = metadata_offset pm i \<Longrightarrow>
      access_ok d off 64 \<and> span off 64 \<subseteq> {metadata_offset pm i ..< metadata_offset pm i + mcb_size pm}"
    and data_access: "layout_wf pm \<Longrightarrow> lm_cache_layout pm = layout_char (cache_layout papi) \<Longrightarrow>
      1 \<le> i \<Longrightarrow> i \<le> nblocks pm \<Longrightarrow> 262144 \<le> unat (pd_size d) \<Longrightarrow> unat off = data_offset pm i \<Longrightarrow>
      access_ok d off 4096 \<and> span off 4096 \<subseteq> {data_offset pm i ..< data_offset pm i + 4096}"

lemma layout_char_inj [simp]: "layout_char l = layout_char l' \<longleftrightarrow> l = l'"
  by (cases l; cases l') (simp_all add: layout_char_def)

lemma sequential_first_data_aligned:
  assumes "layout_wf pm" "sequential pm"
  shows "first_data pm mod 4096 = 0"
  using assms by (simp add: layout_wf_def)

lemma mod_page_64: "(262144 + k * 64) mod 4096 + 64 \<le> (4096 :: nat)"
proof -
  have "(262144 + k * 64) mod 4096 = (k * 64) mod 4096"
    using mod_mult_self4 [of 4096 64 "k * 64"] by simp
  also have "\<dots> = 64 * (k mod 64)" using mult_mod_right [of 64 k 64] by (simp add: mult.commute)
  finally show ?thesis using mod_less_divisor [of 64 k] by simp
qed

lemma page_aligned_word: "unat off mod 4096 = 0 \<Longrightarrow> off mod PAGE_SIZE64 = 0"
  by (simp add: word_unat_eq_iff unat_mod)

interpretation mem_dev: pmem_device papi_mem_ops mem_access_ok mem_span
proof unfold_locales
  fix pm :: pmem_header and i :: nat and d :: pmem_dev and off :: u64
  assume wf: "layout_wf pm" and l: "lm_cache_layout pm = layout_char (cache_layout papi_mem_ops)"
    and i: "1 \<le> i" "i \<le> nblocks pm"
  from l have seq: "sequential pm" by simp
  { assume off: "unat off = metadata_offset pm i"
    have "unat off mod 4096 + 64 \<le> 4096" "64 \<le> mcb_size pm"
      using layout_wf_seq(1) [OF wf seq] mod_page_64 [of "i - 1"] seq
        mod_mult_self4 [of 4096 "64 + (i - 1)" 0]
      by (auto simp: off metadata_offset_def algebra_simps)
    then show "mem_access_ok d off 64 \<and>
        mem_span off 64 \<subseteq> {metadata_offset pm i ..< metadata_offset pm i + mcb_size pm}"
      by (auto simp: mem_access_ok_def mem_span_def off) }
  { assume off: "unat off = data_offset pm i"
    have "unat off mod 4096 = 0"
      using seq sequential_first_data_aligned [OF wf seq] by (simp add: off data_offset_def)
    then show "mem_access_ok d off 4096 \<and>
        mem_span off 4096 \<subseteq> {data_offset pm i ..< data_offset pm i + 4096}"
      by (auto simp: mem_access_ok_def mem_span_def off) }
qed (simp_all add: mem_access_ok_def mem_span_def)

interpretation block_dev: pmem_device papi_block_ops block_access_ok block_span
proof unfold_locales
  fix pm :: pmem_header and i :: nat and d :: pmem_dev and off :: u64
  assume wf: "layout_wf pm" and l: "lm_cache_layout pm = layout_char (cache_layout papi_block_ops)"
    and i: "1 \<le> i" "i \<le> nblocks pm" and d: "262144 \<le> unat (pd_size d)"
  from l have seq: "\<not> sequential pm" by simp
  have al: "(262144 + (i - 1) * 8192 + 4096) mod 4096 = 0" "(262144 + (i - 1) * 8192) mod 4096 = 0"
    using mod_mult_self4 [of 4096 "65 + (i - 1) * 2" 0] mod_mult_self4 [of 4096 "64 + (i - 1) * 2" 0]
    by (simp_all add: algebra_simps)
  have mcb: "mcb_size pm = 4096" using layout_wf_int [OF wf seq] by simp
  { assume off: "unat off = metadata_offset pm i"
    have "off mod PAGE_SIZE64 = 0"
      by (rule page_aligned_word) (simp add: off metadata_offset_def seq al)
    then show "block_access_ok d off 64 \<and>
        block_span off 64 \<subseteq> {metadata_offset pm i ..< metadata_offset pm i + mcb_size pm}"
      using d by (auto simp: block_access_ok_def block_span_def off mcb) }
  { assume off: "unat off = data_offset pm i"
    have "off mod PAGE_SIZE64 = 0"
      by (rule page_aligned_word) (simp add: off data_offset_def seq al)
    then show "block_access_ok d off 4096 \<and>
        block_span off 4096 \<subseteq> {data_offset pm i ..< data_offset pm i + 4096}"
      using d by (auto simp: block_access_ok_def block_span_def off) }
qed (simp_all add: block_access_ok_def block_span_def page_aligned_word)

end
