(* ===== verification/Pmem_Header.thy ===== *)
theory Pmem_Header
  imports Pmem_Metadata
begin

text \<open>
  Correctness of the persistent header: which of the two copies a restore uses, that the header of
  a new cache is restored as it was written, and that an update that is interrupted at any byte
  leaves a device from which the header can be restored.  The lemmas are proved once for every
  provider that meets the contract \<open>pmem_device\<close>.
\<close>

section \<open>Restoring the newest valid header\<close>

definition header_copy :: "pmem_dev \<Rightarrow> nat \<Rightarrow> pmem_header" where
  "header_copy d k = header_of_bytes (dev_read d (131072 * k) 4096)"

definition header_valid :: "pmem_header \<Rightarrow> bool" where
  "header_valid pm \<longleftrightarrow>
     lm_magic pm = LM_MAGIC \<and> lm_version pm = LM_VERSION \<and> header_hash pm = lm_hash pm"

text \<open>The copy that the restore uses, when one is valid.\<close>

definition newest_header :: "pmem_dev \<Rightarrow> pmem_header" where
  "newest_header d =
     (if header_valid (header_copy d 0) \<and>
         (header_valid (header_copy d 1) \<longrightarrow>
            lm_xid_current (header_copy d 1) < lm_xid_current (header_copy d 0))
      then header_copy d 0 else header_copy d 1)"

text \<open>A header that describes a cache that the provider and the device can hold.\<close>

definition header_fits :: "papi_ops \<Rightarrow> pmem_dev \<Rightarrow> pmem_header \<Rightarrow> bool" where
  "header_fits papi d pm \<longleftrightarrow>
     layout_wf pm \<and> lm_header_size_bytes pm = of_nat PAGE_SIZE \<and>
     lm_cache_layout pm = layout_char (cache_layout papi) \<and>
     mcb_size pm = (if page_size_transfer_only papi then 4096 else 64) \<and>
     100 < nblocks pm \<and> nblocks pm < 2 ^ 32 \<and> cache_size pm \<le> unat (pd_size d)"

lemma header_sized_copy [simp]: "header_sized (header_copy d k)"
  by (simp add: header_copy_def header_bytes_of_bytes)

lemma layout_wf_size: "layout_wf pm \<Longrightarrow> 262144 \<le> cache_size pm"
  using layout_wf_seq(4) [of pm] by (cases "sequential pm") (auto simp: layout_wf_def)

lemma round_up_wf_first_data:
  assumes "layout_wf pm" "sequential pm"
  shows "round_up (CACHE_MEM_FIRST_OFFSET_BYTES + lm_cache_blocks pm * lm_mcb_size_bytes pm) PAGE_SIZE64 =
      lm_first_data_block_offset_bytes pm"
  using round_up_first_data [OF assms] layout_wfD(3) [OF assms(1)] by simp

lemma layout_wf_nowrap:
  assumes "layout_wf pm"
  shows "sequential pm \<Longrightarrow>
      unat (lm_first_data_block_offset_bytes pm + lm_cache_blocks pm * PAGE_SIZE64) =
      first_data pm + nblocks pm * 4096"
    and "\<not> sequential pm \<Longrightarrow>
      unat (CACHE_MEM_FIRST_OFFSET_BYTES + lm_cache_blocks pm * (PAGE_SIZE64 * 2)) =
      262144 + nblocks pm * 8192"
proof -
  have p2: "unat (PAGE_SIZE64 * 2) = 8192" by (simp add: PAGE_SIZE64_def PAGE_SIZE_def)
  note w = assms [unfolded layout_wf_def]
  { assume "sequential pm"
    with w have le: "first_data pm + nblocks pm * 4096 < 2 ^ 63" by auto
    then have "unat (lm_cache_blocks pm * PAGE_SIZE64) = nblocks pm * 4096"
      by (subst unat_mult_nowrap) simp_all
    with le show "unat (lm_first_data_block_offset_bytes pm + lm_cache_blocks pm * PAGE_SIZE64) =
        first_data pm + nblocks pm * 4096"
      by (subst unat_add_nowrap) simp_all }
  { assume "\<not> sequential pm"
    with w have le: "262144 + nblocks pm * 8192 < 2 ^ 63" by auto
    then have "unat (lm_cache_blocks pm * (PAGE_SIZE64 * 2)) = nblocks pm * 8192"
      by (subst unat_mult_nowrap) (simp_all add: p2)
    with le show "unat (CACHE_MEM_FIRST_OFFSET_BYTES + lm_cache_blocks pm * (PAGE_SIZE64 * 2)) =
        262144 + nblocks pm * 8192"
      by (subst unat_add_nowrap) simp_all }
qed

lemma header_check_ok:
  assumes "header_fits papi d pm"
  shows "pmem_header_check dbg papi d pm = Some 0"
proof -
  have wf: "layout_wf pm" and f: "lm_header_size_bytes pm = of_nat PAGE_SIZE"
    "lm_cache_layout pm = layout_char (cache_layout papi)"
    "mcb_size pm = (if page_size_transfer_only papi then 4096 else 64)"
    "cache_size pm \<le> unat (pd_size d)"
    using assms by (auto simp: header_fits_def)
  note d = layout_wfD [OF wf]
  have mcb: "lm_mcb_size_bytes pm =
      (if page_size_transfer_only papi then PAGE_SIZE64 else PMEM_BLOCK_METADATA_SIZE)"
    using f(3) by (simp add: word_unat_eq_iff)
  have size: "\<not> pd_size d < lm_cache_size_bytes pm" "0 < pd_size d"
    using f(4) layout_wf_size [OF wf] by (auto simp: word_less_nat_alt)
  have s: "sequential pm \<Longrightarrow> \<not> lm_cache_size_bytes pm <
      lm_first_data_block_offset_bytes pm + lm_cache_blocks pm * PAGE_SIZE64"
    using layout_wf_nowrap(1) [OF wf] wf by (auto simp: word_less_nat_alt layout_wf_def)
  have i: "\<not> sequential pm \<Longrightarrow> \<not> lm_cache_size_bytes pm <
      CACHE_MEM_FIRST_OFFSET_BYTES + lm_cache_blocks pm * (PAGE_SIZE64 * 2)"
    "\<not> sequential pm \<Longrightarrow> lm_first_data_block_offset_bytes pm = CACHE_MEM_FIRST_OFFSET_BYTES"
    "\<not> sequential pm \<Longrightarrow> lm_cache_layout pm = layout_char CACHE_LAYOUT_INTERLEAVED"
    using layout_wf_nowrap(2) [OF wf] wf by (auto simp: word_less_nat_alt layout_wf_def word_unat_eq_iff)
  show ?thesis
  proof (cases "sequential pm")
    case True
    then show ?thesis
      using d f(1) size s [OF True] round_up_wf_first_data [OF wf True] f(2)
      by (cases "page_size_transfer_only papi") (simp_all add: pmem_header_check_def Let_def mcb)
  next
    case False
    then show ?thesis
      using d f(1) size i [OF False] f(2)
      by (cases "page_size_transfer_only papi") (simp_all add: pmem_header_check_def Let_def mcb)
  qed
qed


context pmem_device
begin

lemma header_offset:
  assumes "k \<le> 1" "262144 \<le> unat (pd_size d)"
  shows "access_ok d (if k = 0 then CACHE_MEM_HEADER_0_OFFSET_BYTES else CACHE_MEM_HEADER_1_OFFSET_BYTES) 4096"
    "unat (if k = 0 then CACHE_MEM_HEADER_0_OFFSET_BYTES else CACHE_MEM_HEADER_1_OFFSET_BYTES) = 131072 * k"
  using assms header_access [of d] by (auto simp: le_Suc_eq)

lemma size_pos: "262144 \<le> unat (pd_size d) \<Longrightarrow> 0 < pd_size d"
  by (auto simp: word_less_nat_alt)

lemma restore_copy_healthy:
  assumes "io_healthy io" "k \<le> 1" "262144 \<le> unat (pd_size d)" "header_sized (papi_hdr pa)"
  shows "pmem_header_restore_copy dbg papi io d k x pa =
    Some (if header_valid (header_copy d k)
          then (0, lm_xid_current (header_copy d k), pa\<lparr> papi_hdr := header_copy d k \<rparr>)
          else (- EBADMSG, x, pa\<lparr> papi_hdr := header_copy d k \<rparr>))"
proof -
  have "pmem_read_sync dbg papi io d
      (if k = 0 then CACHE_MEM_HEADER_0_OFFSET_BYTES else CACHE_MEM_HEADER_1_OFFSET_BYTES)
      (header_bytes (papi_hdr pa)) PAGE_SIZE = Some (0, dev_read d (131072 * k) 4096)"
    using read_healthy [OF header_offset(1) [OF assms(2,3)] assms(1), of "header_bytes (papi_hdr pa)" dbg]
      assms(3) size_pos [OF assms(3)]
    by (simp add: pmem_read_sync_def length_header_bytes [OF assms(4)] header_offset(2) [OF assms(2,3)]
        PAGE_SIZE_def)
  with assms(2) size_pos [OF assms(3)] show ?thesis
    by (auto simp: pmem_header_restore_copy_def Let_def header_valid_def header_copy_def le_Suc_eq)
qed

text \<open>A copy that the restore accepts is valid, whatever the transfers did.\<close>

lemma restore_copy_success:
  assumes "pmem_header_restore_copy dbg papi io d k x pa = Some (0, x', pa')"
    "262144 \<le> unat (pd_size d)" "header_sized (papi_hdr pa)"
  shows "header_valid (papi_hdr pa') \<and> papi_hdr pa' = header_copy d k \<and> k \<le> 1 \<and>
    papi_stats pa' = papi_stats pa \<and> papi_hdr_updated_last pa' = papi_hdr_updated_last pa \<and>
    x' = lm_xid_current (header_copy d k)"
proof -
  have k: "k \<le> 1" using assms(1)
    by (auto simp: pmem_header_restore_copy_def split: if_splits)
  obtain bs where r: "read_sync papi dbg io d
      (if k = 0 then CACHE_MEM_HEADER_0_OFFSET_BYTES else CACHE_MEM_HEADER_1_OFFSET_BYTES)
      (header_bytes (papi_hdr pa)) 4096 = Some (0, bs)" and pa': "pa' = pa\<lparr> papi_hdr := header_of_bytes bs \<rparr>"
      and v: "header_valid (header_of_bytes bs)" "x' = lm_xid_current (header_of_bytes bs)"
    using assms(1) by (auto simp: pmem_header_restore_copy_def pmem_read_sync_def Let_def bind_eq_Some_conv
        header_valid_def errno_defs PAGE_SIZE_def split: if_splits)
  have "bs = dev_read d (131072 * k) 4096"
    using read_success [OF header_offset(1) [OF k assms(2)] _ r] length_header_bytes [OF assms(3)]
      header_offset(2) [OF k assms(2)] by simp
  with pa' v k show ?thesis by (simp add: header_copy_def)
qed

lemma restore_copy_sized:
  assumes "pmem_header_restore_copy dbg papi io d k x pa = Some (e, x', pa')"
    "262144 \<le> unat (pd_size d)" "header_sized (papi_hdr pa)"
  shows "header_sized (papi_hdr pa')" "papi_stats pa' = papi_stats pa"
proof -
  have k: "k \<le> 1" using assms(1)
    by (auto simp: pmem_header_restore_copy_def split: if_splits)
  obtain e' bs where r: "read_sync papi dbg io d
      (if k = 0 then CACHE_MEM_HEADER_0_OFFSET_BYTES else CACHE_MEM_HEADER_1_OFFSET_BYTES)
      (header_bytes (papi_hdr pa)) 4096 = Some (e', bs)" and pa': "pa' = pa\<lparr> papi_hdr := header_of_bytes bs \<rparr>"
    using assms(1) by (auto simp: pmem_header_restore_copy_def pmem_read_sync_def Let_def bind_eq_Some_conv
        PAGE_SIZE_def split: if_splits)
  have "length bs = 4096"
    using read_length [OF header_offset(1) [OF k assms(2)] _ r] length_header_bytes [OF assms(3)] by simp
  with pa' show "header_sized (papi_hdr pa')" "papi_stats pa' = papi_stats pa"
    by (simp_all add: header_bytes_of_bytes)
qed

lemma restore_checked:
  assumes env: "env_healthy env" and d: "262144 \<le> unat (pd_size d)" and pa: "header_sized (papi_hdr pa)"
    and stats: "\<not> restore_header0_valid (papi_stats pa)" "\<not> restore_header1_valid (papi_stats pa)"
    and v: "header_valid (header_copy d 0) \<or> header_valid (header_copy d 1)"
    and chk: "pmem_header_check dbg papi d (newest_header d) = Some 0"
      "pmem_assert_offsets dbg (pd_size d) (newest_header d) = Some ()"
  shows "\<exists>pa'. pmem_header_restore dbg papi env d (pa, x) =
      Some (0, pa', lm_xid_current (newest_header d) + 2) \<and>
      papi_hdr pa' = newest_header d \<and> papi_hdr_updated_last pa' = papi_hdr_updated_last pa"
proof -
  note io = env [unfolded env_healthy_def, THEN spec, THEN conjunct1]
  note c = restore_copy_healthy [OF io _ d]
  show ?thesis
    using v stats pa size_pos [OF d] chk
    by (auto simp: pmem_header_restore_def pmem_header_restore_chosen_def upd_papi_stats_def c
        newest_header_def Let_def EBADMSG_def split: if_splits)
qed

lemma restore_healthy:
  assumes env: "env_healthy env" and d: "262144 \<le> unat (pd_size d)" and pa: "header_sized (papi_hdr pa)"
    and stats: "\<not> restore_header0_valid (papi_stats pa)" "\<not> restore_header1_valid (papi_stats pa)"
    and v: "header_valid (header_copy d 0) \<or> header_valid (header_copy d 1)"
    and fits: "header_fits papi d (newest_header d)"
  shows "\<exists>pa'. pmem_header_restore dbg papi env d (pa, x) =
      Some (0, pa', lm_xid_current (newest_header d) + 2) \<and>
      papi_hdr pa' = newest_header d \<and> papi_hdr_updated_last pa' = papi_hdr_updated_last pa"
proof -
  have "pmem_assert_offsets dbg (pd_size d) (newest_header d) = Some ()"
    using fits by (intro pmem_assert_offsets_ok) (auto simp: header_fits_def)
  from restore_checked [OF env d pa stats v header_check_ok [OF fits] this] show ?thesis .
qed

lemma restore_no_copy:
  assumes env: "env_healthy env" and d: "262144 \<le> unat (pd_size d)" and pa: "header_sized (papi_hdr pa)"
    and stats: "\<not> restore_header0_valid (papi_stats pa)" "\<not> restore_header1_valid (papi_stats pa)"
    and v: "\<not> header_valid (header_copy d 0)" "\<not> header_valid (header_copy d 1)"
  shows "\<exists>pa'. pmem_header_restore dbg papi env d (pa, x) = Some (- EBADMSG, pa', x)"
proof -
  note io = env [unfolded env_healthy_def, THEN spec, THEN conjunct1]
  note c = restore_copy_healthy [OF io _ d]
  show ?thesis
    using v stats pa size_pos [OF d]
    by (auto simp: pmem_header_restore_def upd_papi_stats_def c Let_def EBADMSG_def)
qed

end

section \<open>Initialising a cache\<close>

lemma init_sizes_eq:
  assumes "pmem_initialize_pmem_header_sizes dbg papi pm0 D = Some pm"
  defines "mcb \<equiv> (if page_size_transfer_only papi then PAGE_SIZE64 else PMEM_BLOCK_METADATA_SIZE)"
    and "d \<equiv> round_down D CACHE_NAND_FLASH_ERASE_BLOCK_SIZE - CACHE_MEM_FIRST_OFFSET_BYTES"
  shows "\<exists>first_data cs. pm = pm0\<lparr> lm_cache_block_size := PAGE_SIZE64, lm_header_size_bytes := of_nat PAGE_SIZE,
      lm_first_offset_bytes := CACHE_MEM_FIRST_OFFSET_BYTES,
      lm_cache_layout := layout_char (cache_layout papi),
      lm_mcb_size_bytes := (if cache_layout papi = CACHE_LAYOUT_SEQUENTIAL then mcb else PAGE_SIZE64),
      lm_cache_blocks := (if cache_layout papi = CACHE_LAYOUT_SEQUENTIAL then d div (PAGE_SIZE64 + mcb)
        else d div (PAGE_SIZE64 * 2)),
      lm_first_data_block_offset_bytes := first_data, lm_cache_size_bytes := cs \<rparr>"
proof (cases "cache_layout papi")
  case CACHE_LAYOUT_SEQUENTIAL
  with assms(1) show ?thesis
    unfolding pmem_initialize_pmem_header_sizes_def Let_def mcb_def [symmetric] d_def [symmetric]
    by (cases pm0) (simp split: if_split_asm; blast)
next
  case CACHE_LAYOUT_INTERLEAVED
  with assms(1) show ?thesis
    unfolding pmem_initialize_pmem_header_sizes_def Let_def mcb_def [symmetric] d_def [symmetric]
    by (cases pm0) (simp split: if_split_asm; blast)
qed

lemma init_sizes_fields:
  assumes "pmem_initialize_pmem_header_sizes dbg papi pm0 D = Some pm"
  shows "lm_header_size_bytes pm = of_nat PAGE_SIZE" "lm_version pm = lm_version pm0"
    "lm_magic pm = lm_magic pm0" "header_sized pm = header_sized pm0"
    "lm_cache_layout pm = layout_char (cache_layout papi)"
    "page_size_transfer_only papi \<or> cache_layout papi = CACHE_LAYOUT_SEQUENTIAL \<Longrightarrow>
      lm_mcb_size_bytes pm = (if page_size_transfer_only papi then PAGE_SIZE64 else PMEM_BLOCK_METADATA_SIZE)"
    "lm_cache_blocks pm = (round_down D CACHE_NAND_FLASH_ERASE_BLOCK_SIZE - CACHE_MEM_FIRST_OFFSET_BYTES) div
      (if cache_layout papi = CACHE_LAYOUT_SEQUENTIAL then
         PAGE_SIZE64 + (if page_size_transfer_only papi then PAGE_SIZE64 else PMEM_BLOCK_METADATA_SIZE)
       else PAGE_SIZE64 * 2)"
  using init_sizes_eq [OF assms] by (auto simp: header_sized_iff)

lemma truncate_papi [simp]:
  "papi_interface.truncate papi_mem_ops = cache_papi_mem"
  "papi_interface.truncate papi_block_ops = cache_papi_block"
  by (simp_all add: papi_mem_ops_def papi_block_ops_def papi_interface.defs cache_papi_mem_def
      cache_papi_block_def)

text \<open>A new cache on a device of at least nine erase blocks and less than 16 TiB.\<close>

lemma init_header_fits:
  assumes D: "1179648 \<le> unat (pd_size d)" "unat (pd_size d) < 2 ^ 44"
    and papi: "papi \<in> {papi_mem_ops, papi_block_ops}" and magic: "lm_magic pm0 = LM_MAGIC"
  shows "\<exists>pm. pmem_initialize_pmem_header_sizes dbg (papi_interface.truncate papi) pm0 (pd_size d) = Some pm \<and>
      header_fits papi d pm \<and> lm_version pm = lm_version pm0 \<and> header_sized pm = header_sized pm0"
proof -
  let ?p = "papi_interface.truncate papi"
  have lay: "cache_layout ?p = cache_layout papi" "page_size_transfer_only ?p = page_size_transfer_only papi"
    "page_size_transfer_only papi \<longleftrightarrow> cache_layout papi = CACHE_LAYOUT_INTERLEAVED"
    using papi by (auto simp: cache_papi_mem_def cache_papi_block_def)
  have b: "393216 \<le> unat (pd_size d)" "unat (pd_size d) < 2 ^ 63" using D by auto
  obtain pm where pm: "pmem_initialize_pmem_header_sizes dbg ?p pm0 (pd_size d) = Some pm"
      "layout_wf pm" "cache_size pm \<le> unat (pd_size d)"
    using init_seq [OF b, of ?p pm0 dbg] init_int [OF b, of ?p pm0 dbg] lay magic
    by (cases "cache_layout papi") auto
  note f = init_sizes_fields [OF pm(1)]
  have mcb: "lm_mcb_size_bytes pm =
      (if page_size_transfer_only papi then PAGE_SIZE64 else PMEM_BLOCK_METADATA_SIZE)"
    using f(6) lay by (cases "cache_layout papi") auto
  have n: "nblocks pm * 4096 \<le> cache_size pm"
    using layout_wf_seq(3) [OF pm(2)] layout_wf_int(4) [OF pm(2)] by (cases "sequential pm") auto
  define r where "r = unat (pd_size d) div 131072 * 131072"
  have "r + unat (pd_size d) mod 131072 = unat (pd_size d)" unfolding r_def by (rule div_mult_mod_eq)
  then have "unat (pd_size d) < r + 131072" using mod_less_divisor [of 131072 "unat (pd_size d)"] by linarith
  moreover have "9 \<le> unat (pd_size d) div 131072" using D(1) by (simp add: less_eq_div_iff_mult_less_eq)
  ultimately have r: "1179648 \<le> r" by (simp add: r_def)
  then have "unat (round_down (pd_size d) CACHE_NAND_FLASH_ERASE_BLOCK_SIZE - CACHE_MEM_FIRST_OFFSET_BYTES) = r - 262144"
    by (subst unat_sub_nowrap) (simp_all add: unat_round_down r_def)
  moreover have "unat (PAGE_SIZE64 + PMEM_BLOCK_METADATA_SIZE) = 4160" "unat (PAGE_SIZE64 * 2) = 8192"
    by (simp_all add: PAGE_SIZE64_def PAGE_SIZE_def PMEM_BLOCK_METADATA_SIZE_def)
  ultimately have "nblocks pm = (r - 262144) div (if page_size_transfer_only papi then 8192 else 4160)"
    using lay by (cases "cache_layout papi") (simp_all add: f(7) unat_div)
  then have "112 \<le> nblocks pm" using r by (auto simp: less_eq_div_iff_mult_less_eq)
  then show ?thesis
    using pm f mcb n D(2) lay by (auto simp: header_fits_def)
qed

section \<open>The hash of a header\<close>

lemma header_bytes_parts:
  "header_bytes pm = concat (take 19 (header_fields pm)) @ uint128_bytes (lm_hash pm) @ lm_tail pm"
  by (simp add: header_bytes_def header_fields_def)

lemma length_header_prefix:
  "header_sized pm \<Longrightarrow> length (concat (take 19 (header_fields pm))) = 888"
  by (simp add: header_sized_iff header_fields_def)

lemma header_hash_upd_hash:
  assumes "header_sized pm"
  shows "header_hash (pm\<lparr> lm_hash := h \<rparr>) = header_hash pm"
proof -
  have s: "header_sized (pm\<lparr> lm_hash := h \<rparr>)" using assms by (simp add: header_sized_iff)
  have f: "take 19 (header_fields (pm\<lparr> lm_hash := h \<rparr>)) = take 19 (header_fields pm)"
    by (simp add: header_fields_def)
  have "take 888 (header_bytes (pm\<lparr> lm_hash := h \<rparr>)) = take 888 (header_bytes pm)"
    unfolding header_bytes_parts f using length_header_prefix [OF assms] by simp
  then show ?thesis
    unfolding header_hash_def PMEM_HEADER_HASHING_SIZE_def
    using length_header_bytes [OF assms] length_header_bytes [OF s]
    by (intro murmurhash3_128_cong) simp_all
qed

lemma header_hash_upd_xid:
  assumes "header_sized pm"
  shows "header_hash (pm\<lparr> lm_hash := h, lm_xid_current := x \<rparr>) = header_hash (pm\<lparr> lm_xid_current := x \<rparr>)"
proof -
  have "pm\<lparr> lm_hash := h, lm_xid_current := x \<rparr> = pm\<lparr> lm_xid_current := x \<rparr>\<lparr> lm_hash := h \<rparr>"
    by (cases pm) simp
  moreover have "header_sized (pm\<lparr> lm_xid_current := x \<rparr>)" using assms by (simp add: header_sized_iff)
  ultimately show ?thesis by (simp only: header_hash_upd_hash)
qed

lemma header_valid_hashed:
  assumes "header_sized pm" "lm_magic pm = LM_MAGIC" "lm_version pm = LM_VERSION"
  shows "header_valid (pm\<lparr> lm_hash := header_hash pm \<rparr>)"
  using assms by (simp add: header_valid_def header_hash_upd_hash)

text \<open>Headers of the same cache: they differ in the transaction id and the hash only.\<close>

definition same_cache :: "pmem_header \<Rightarrow> pmem_header \<Rightarrow> bool" where
  "same_cache pm pm' \<longleftrightarrow>
     pm\<lparr> lm_xid_current := 0, lm_hash := UINT128_ZERO \<rparr> = pm'\<lparr> lm_xid_current := 0, lm_hash := UINT128_ZERO \<rparr>"

lemma same_cache_refl [simp]: "same_cache pm pm"
  by (simp add: same_cache_def)

lemma same_cache_upd [simp]:
  "same_cache pm (pm'\<lparr> lm_xid_current := x \<rparr>) = same_cache pm pm'"
  "same_cache pm (pm'\<lparr> lm_hash := h \<rparr>) = same_cache pm pm'"
  by (simp_all add: same_cache_def)

lemma same_cache_trans: "same_cache pm pm' \<Longrightarrow> same_cache pm pm'' \<Longrightarrow> same_cache pm' pm''"
  by (simp add: same_cache_def)

lemma header_fits_dev: "pd_size d' = pd_size d \<Longrightarrow> header_fits papi d' pm = header_fits papi d pm"
  by (simp add: header_fits_def)

lemma same_cacheD:
  assumes "same_cache pm pm'"
  shows "header_sized pm' = header_sized pm" "lm_magic pm' = lm_magic pm" "lm_version pm' = lm_version pm"
    "header_fits papi d pm' = header_fits papi d pm" "pm' = pm\<lparr> lm_xid_current := lm_xid_current pm', lm_hash := lm_hash pm' \<rparr>"
  using assms
  by (cases pm; cases pm'; simp add: same_cache_def header_sized_iff header_fits_def layout_wf_def)+

abbreviation header_offset :: "nat \<Rightarrow> u64" where
  "header_offset k \<equiv> (if k = 0 then CACHE_MEM_HEADER_0_OFFSET_BYTES else CACHE_MEM_HEADER_1_OFFSET_BYTES)"

lemma header_fits_size: "header_fits papi d pm \<Longrightarrow> 262144 \<le> unat (pd_size d)"
  using layout_wf_size [of pm] by (auto simp: header_fits_def)

context pmem_device
begin

lemma write_header_success:
  assumes w: "pmem_write_sync dbg papi io d (header_offset k) (header_bytes pm) = Some (0, d')"
    and k: "k \<le> 1" and d: "262144 \<le> unat (pd_size d)" and pm: "header_sized pm"
  shows "header_copy d' k = pm" "header_copy d' (1 - k) = header_copy d (1 - k)" "pd_size d' = pd_size d"
proof -
  have l: "length (header_bytes pm) = 4096" by (rule length_header_bytes [OF pm])
  have w': "write_sync papi dbg io d (header_offset k) (header_bytes pm) = Some (0, d')"
    using w by (simp add: pmem_write_sync_def split: if_splits)
  have ok: "access_ok d (header_offset k) (length (header_bytes pm))"
    using header_offset(1) [OF k d] l by simp
  have "dev_read d' (131072 * k) 4096 = header_bytes pm"
    using write_success [OF ok w'] header_offset(2) [OF k d] l by simp
  then show "header_copy d' k = pm" by (simp add: header_copy_def header_of_bytes_bytes pm)
  have "pd_bytes d' i = pd_bytes d i" if "131072 * (1 - k) \<le> i" "i < 131072 * (1 - k) + 4096" for i
    using write_frame [OF ok w', of i] that k header_span l by (auto simp: le_Suc_eq)
  then show "header_copy d' (1 - k) = header_copy d (1 - k)"
    unfolding header_copy_def by (subst dev_read_cong [of _ 4096 d']) simp_all
  show "pd_size d' = pd_size d" by (rule write_size [OF ok w'])
qed

lemma write_header_healthy:
  assumes "io_healthy io" "k \<le> 1" "262144 \<le> unat (pd_size d)" "header_sized pm"
  shows "\<exists>d'. pmem_write_sync dbg papi io d (header_offset k) (header_bytes pm) = Some (0, d')"
proof -
  have l: "length (header_bytes pm) = 4096" by (rule length_header_bytes [OF assms(4)])
  have ok: "access_ok d (header_offset k) (length (header_bytes pm))"
    using header_offset(1) [OF assms(2,3)] l by simp
  obtain e d' where "write_sync papi dbg io d (header_offset k) (header_bytes pm) = Some (e, d')"
    using write_returns [OF ok, of io dbg] assms(1) by (auto simp: io_healthy_def)
  with write_healthy [OF ok assms(1) this] size_pos [OF assms(3)] show ?thesis
    by (simp add: pmem_write_sync_def)
qed

end

lemma length_name_field [simp]: "length (name_field s) = 128"
  by (simp add: name_field_def)

definition names_ok :: "cache_names \<Rightarrow> bool" where
  "names_ok names \<longleftrightarrow> length (cn_uuid names) = 16 \<and> length (cn_device_uuid names) = 16"

text \<open>The two copies on a device that a cache uses.\<close>

definition copies_valid :: "papi_ops \<Rightarrow> pmem_dev \<Rightarrow> pmem_header \<Rightarrow> bool" where
  "copies_valid papi d pm \<longleftrightarrow>
     header_fits papi d pm \<and> header_sized pm \<and>
     (\<forall>k \<in> {0, 1}. header_valid (header_copy d k) \<and> same_cache pm (header_copy d k))"

lemma copies_validD:
  assumes "copies_valid papi d pm"
  shows "header_fits papi d pm" "header_sized pm" "lm_magic pm = LM_MAGIC" "lm_version pm = LM_VERSION"
    "262144 \<le> unat (pd_size d)"
  using assms same_cacheD(2,3) [of pm "header_copy d 0"] header_fits_size [of papi d pm]
  by (auto simp: copies_valid_def header_valid_def)

context pmem_device
begin

lemma initialize_healthy:
  assumes env: "env_healthy env" and d: "262144 \<le> unat (pd_size d)" and n: "names_ok names"
    and init: "pmem_initialize_pmem_header_sizes dbg (papi_interface.truncate papi)
        (zero_header\<lparr> lm_magic := LM_MAGIC, lm_version := LM_VERSION, lm_cache_block_size := PAGE_SIZE64 \<rparr>)
        (pd_size d) = Some pm"
    and pm: "header_fits papi d pm" "lm_version pm = LM_VERSION" "header_sized pm"
  shows "\<exists>d' pa'. pmem_header_initialize dbg papi env names (d, pa, x) = Some (0, d', pa', 4) \<and>
      copies_valid papi d' (papi_hdr pa') \<and> newest_header d' = papi_hdr pa' \<and>
      lm_xid_current (papi_hdr pa') = 3 \<and> lm_name (papi_hdr pa') = name_field (cn_name names) \<and>
      lm_device_name (papi_hdr pa') = name_field (cn_device_name names) \<and> pd_size d' = pd_size d \<and>
      papi_hdr_updated_last pa' = papi_hdr_updated_last pa"
proof -
  note io = env [unfolded env_healthy_def, THEN spec, THEN conjunct1]
  define pm1 where "pm1 = pm\<lparr> lm_uuid := cn_uuid names, lm_name := name_field (cn_name names),
    lm_device_uuid := cn_device_uuid names, lm_device_name := name_field (cn_device_name names),
    lm_xid_first := 1, lm_xid_current := 1 \<rparr>"
  have "header_fits papi d pm1 = header_fits papi d pm" by (simp add: header_fits_def layout_wf_def pm1_def)
  with pm(1) have f1: "header_fits papi d pm1" by simp
  have s1: "header_sized pm1" using pm(3) n by (simp add: header_sized_iff pm1_def names_ok_def)
  have v1: "lm_magic pm1 = LM_MAGIC" "lm_version pm1 = LM_VERSION"
    using pm(1,2) by (simp_all add: header_fits_def layout_wf_def pm1_def)
  define h where "h x = (let q = pm1\<lparr> lm_xid_current := x \<rparr> in q\<lparr> lm_hash := header_hash q \<rparr>)" for x
  have sc: "same_cache pm1 (h x)" for x by (simp add: h_def Let_def)
  have sz: "header_sized (h x)" for x using same_cacheD(1) [OF sc] s1 by simp
  have vl: "header_valid (h x)" for x
    unfolding h_def Let_def by (rule header_valid_hashed) (use s1 v1 in \<open>simp_all add: header_sized_iff\<close>)
  have x: "lm_xid_current (h x) = x" for x by (simp add: h_def Let_def)
  have x1: "lm_xid_current pm1 = 1" by (simp add: pm1_def)
  obtain d0 where w0: "pmem_write_sync dbg papi (pe_io env 0) d (header_offset 0) (header_bytes (h 2)) = Some (0, d0)"
    using write_header_healthy [OF io [of 0] _ d sz [of 2], of 0 dbg] by auto
  note c0 = write_header_success [OF w0 _ d sz]
  have d0: "262144 \<le> unat (pd_size d0)" using c0(3) d by simp
  obtain d1 where w1: "pmem_write_sync dbg papi (pe_io env 1) d0 (header_offset 1) (header_bytes (h 3)) = Some (0, d1)"
    using write_header_healthy [OF io [of 1] _ d0 sz [of 3], of 1 dbg] by auto
  note c1 = write_header_success [OF w1 _ d0 sz]
  have copies: "header_copy d1 0 = h 2" "header_copy d1 1 = h 3" "pd_size d1 = pd_size d"
    using c0 c1 by simp_all
  have offs: "pmem_assert_offsets dbg (pd_size d) pm1 = Some ()"
    using f1 by (intro pmem_assert_offsets_ok) (auto simp: header_fits_def)
  have "pmem_header_initialize dbg papi env names (d, pa, x) = Some (0, d1, pa\<lparr> papi_hdr := h 3 \<rparr>, 4)" for x
    unfolding pmem_header_initialize_def Let_def split_conv init Option.bind.bind_lunit pm1_def [symmetric]
    using offs w0 w1 size_pos [OF d] x1 by (simp add: h_def Let_def header_hash_upd_xid [OF s1])
  moreover have "copies_valid papi d1 (h 3)"
    using f1 same_cache_trans [OF sc sc] sz vl copies
    by (simp add: copies_valid_def same_cacheD(4) [OF sc] header_fits_dev [OF copies(3)])
  moreover have "newest_header d1 = h 3" using copies vl x by (simp add: newest_header_def)
  ultimately show ?thesis
    using copies x by (intro exI [of _ d1] exI [of _ "pa\<lparr> papi_hdr := h 3 \<rparr>"])
      (simp add: h_def Let_def pm1_def)
qed

end

section \<open>Torn headers\<close>

lemma header_bytes_layout:
  assumes "header_sized pm"
  obtains a b where "header_bytes pm = a @ le_bytes 8 (lm_xid_current pm) @ b @ uint128_bytes (lm_hash pm) @ lm_tail pm"
    "length a = 368" "length b = 512"
    "\<And>x h. header_bytes (pm\<lparr> lm_xid_current := x, lm_hash := h \<rparr>) =
        a @ le_bytes 8 x @ b @ uint128_bytes h @ lm_tail pm"
proof (rule that [of "concat (take 17 (header_fields pm))" "concat (map (le_bytes 8) (lm_spare pm))"])
  show "header_bytes pm = concat (take 17 (header_fields pm)) @ le_bytes 8 (lm_xid_current pm) @
      concat (map (le_bytes 8) (lm_spare pm)) @ uint128_bytes (lm_hash pm) @ lm_tail pm"
    by (simp add: header_bytes_def header_fields_def)
  show "length (concat (take 17 (header_fields pm))) = 368"
    "length (concat (map (le_bytes 8) (lm_spare pm))) = 512"
    using assms by (simp_all add: header_sized_iff header_fields_def)
  show "header_bytes (pm\<lparr> lm_xid_current := x, lm_hash := h \<rparr>) =
      concat (take 17 (header_fields pm)) @ le_bytes 8 x @
      concat (map (le_bytes 8) (lm_spare pm)) @ uint128_bytes h @ lm_tail pm" for x h
    by (simp add: header_bytes_def header_fields_def)
qed

lemma same_cache_nth:
  assumes "same_cache pm pm'" "header_sized pm" "i < 4096"
    and "i < 368 \<or> 376 \<le> i" "i < 888 \<or> 904 \<le> i"
  shows "header_bytes pm ! i = header_bytes pm' ! i"
proof -
  obtain x h where pm': "pm' = pm\<lparr> lm_xid_current := x, lm_hash := h \<rparr>"
    using same_cacheD(5) [OF assms(1)] by blast
  show ?thesis
    by (rule header_bytes_layout [OF assms(2)]) (use assms in \<open>auto simp: pm' nth_append\<close>)
qed

lemma header_hash_field:
  assumes "header_sized pm"
  shows "take 16 (drop 888 (header_bytes pm)) = uint128_bytes (lm_hash pm)"
  by (rule header_bytes_layout [OF assms]) simp

lemma uint128_bytes_inj [simp]: "uint128_bytes a = uint128_bytes b \<longleftrightarrow> a = b"
  by (metis uint128_of_bytes_bytes)

lemma header_bytes_inj:
  "header_sized pm \<Longrightarrow> header_sized pm' \<Longrightarrow> header_bytes pm = header_bytes pm' \<Longrightarrow> pm = pm'"
  by (metis header_of_bytes_bytes)

text \<open>
  A header that was overwritten up to some byte by one of the same cache is the old header, the
  new one, or not valid.
\<close>

lemma torn_header:
  assumes old: "header_valid pm" "header_sized pm" and new: "header_valid pm'" "same_cache pm pm'"
    and t: "t = header_of_bytes (take j (header_bytes pm') @ drop j (header_bytes pm))" "j \<le> 4096"
  shows "t = pm \<or> t = pm' \<or> \<not> header_valid t"
proof -
  have sz: "header_sized pm'" using same_cacheD(1) [OF new(2)] old(2) by simp
  note len = length_header_bytes [OF old(2)] length_header_bytes [OF sz]
  let ?b = "header_bytes pm" and ?b' = "header_bytes pm'" and ?bt = "header_bytes t"
  have lt: "length (take j ?b' @ drop j ?b) = 4096" using len t(2) by simp
  have bt: "?bt = take j ?b' @ drop j ?b" and szt: "header_sized t"
    using header_bytes_of_bytes [OF lt] t(1) by simp_all
  have nth: "?bt ! i = (if i < j then ?b' ! i else ?b ! i)" if "i < 4096" for i
    using that len t(2) by (simp add: bt nth_append)
  have agree: "?b ! i = ?b' ! i" if "i < 4096" "i < 368 \<or> 376 \<le> i" "i < 888 \<or> 904 \<le> i" for i
    by (rule same_cache_nth [OF new(2) old(2) that])
  have field: "take 16 (drop 888 ?bt) = uint128_bytes (lm_hash t)" by (rule header_hash_field [OF szt])
  have lbt: "length ?bt = 4096" by (rule length_header_bytes [OF szt])
  show ?thesis
  proof (cases "j \<le> 888")
    case True
    have tail: "drop 888 ?bt = drop 888 ?b"
      using True lbt len nth by (intro nth_equalityI) auto
    then have hash: "lm_hash t = lm_hash pm"
      using field header_hash_field [OF old(2)] by simp
    show ?thesis
    proof (cases "take 888 ?bt = take 888 ?b")
      case True
      then have "?bt = ?b" using tail by (metis append_take_drop_id)
      then show ?thesis using header_bytes_inj [OF szt old(2)] by simp
    next
      case False
      have "header_hash t \<noteq> header_hash pm"
        unfolding header_hash_def PMEM_HEADER_HASHING_SIZE_def
      proof (rule murmurhash3_128_differs_at [where g = 23])
        show "?bt ! i = ?b ! i" if "i < 888" "i < 16 * 23 \<or> 16 * 23 + 16 \<le> i" for i
          using that nth [of i] agree [of i] by auto
      qed (use False lbt len in simp_all)
      with hash old(1) show ?thesis by (simp add: header_valid_def)
    qed
  next
    case False
    have head: "take 888 ?bt = take 888 ?b'"
      using False lbt len nth by (intro nth_equalityI) auto
    then have hash: "header_hash t = header_hash pm'"
      unfolding header_hash_def PMEM_HEADER_HASHING_SIZE_def
      using lbt len by (intro murmurhash3_128_cong) simp_all
    have "?bt = ?b'" if "lm_hash t = lm_hash pm'"
    proof (rule nth_equalityI)
      fix i assume i: "i < length ?bt"
      have f: "take 16 (drop 888 ?bt) = take 16 (drop 888 ?b')"
        using that field header_hash_field [OF sz] by simp
      have "?bt ! i = ?b' ! i" if "888 \<le> i" "i < 904"
        using arg_cong [OF f, of "\<lambda>xs. xs ! (i - 888)"] that lbt len by simp
      then show "?bt ! i = ?b' ! i"
        using i lbt nth [of i] agree [of i] False by (cases "i < j"; cases "i < 904") auto
    qed (use lbt len in simp)
    then show ?thesis
      using hash new(1) header_bytes_inj [OF szt sz] by (auto simp: header_valid_def)
  qed
qed

section \<open>Updating the header\<close>

text \<open>
  A crash while the device changes from \<open>d\<close> to \<open>d1\<close>, in the order of the addresses: the bytes below
  \<open>m\<close> are the new ones, the others are still the old ones.
\<close>

definition crashed_at :: "nat \<Rightarrow> pmem_dev \<Rightarrow> pmem_dev \<Rightarrow> pmem_dev" where
  "crashed_at m d d1 = d\<lparr> pd_bytes := (\<lambda>i. if i < m then pd_bytes d1 i else pd_bytes d i) \<rparr>"

definition new_header :: "pmem_header \<Rightarrow> u64 \<Rightarrow> pmem_header" where
  "new_header pm x = (let pm = pm\<lparr> lm_xid_current := x \<rparr> in pm\<lparr> lm_hash := header_hash pm \<rparr>)"

lemma new_header_valid:
  assumes "copies_valid papi d pm"
  shows "header_valid (new_header pm x)" "same_cache pm (new_header pm x)" "header_sized (new_header pm x)"
proof -
  show "same_cache pm (new_header pm x)" by (simp add: new_header_def Let_def)
  then show "header_sized (new_header pm x)" using same_cacheD(1) copies_validD(2) [OF assms] by simp
  show "header_valid (new_header pm x)"
    unfolding new_header_def Let_def
    by (rule header_valid_hashed) (use copies_validD [OF assms] in \<open>simp_all add: header_sized_iff\<close>)
qed

lemma new_header_twice:
  "header_sized pm \<Longrightarrow> (new_header pm x)\<lparr> lm_hash := header_hash (new_header pm x) \<rparr> = new_header pm x"
  using header_hash_upd_hash [of "pm\<lparr> lm_xid_current := x \<rparr>"]
  by (simp add: new_header_def Let_def header_sized_iff)

lemma header_copy_crashed:
  assumes "k \<le> 1"
  shows "header_copy (crashed_at m d d1) k =
    header_of_bytes (take (min 4096 (m - 131072 * k)) (header_bytes (header_copy d1 k)) @
      drop (min 4096 (m - 131072 * k)) (header_bytes (header_copy d k)))"
proof -
  let ?j = "min 4096 (m - 131072 * k)"
  have b: "header_bytes (header_copy e k) = dev_read e (131072 * k) 4096" for e
    by (simp add: header_copy_def header_bytes_of_bytes)
  have "dev_read (crashed_at m d d1) (131072 * k) 4096 =
      take ?j (dev_read d1 (131072 * k) 4096) @ drop ?j (dev_read d (131072 * k) 4096)"
    by (rule nth_equalityI) (auto simp: dev_read_def crashed_at_def nth_append)
  then show ?thesis by (simp add: header_copy_def header_bytes_of_bytes)
qed

lemma header_offset_simps:
  "header_offset 0 = CACHE_MEM_HEADER_0_OFFSET_BYTES" "header_offset 1 = CACHE_MEM_HEADER_1_OFFSET_BYTES"
  by simp_all

lemma update_writes:
  assumes u: "pmem_header_update dbg papi env x both (d, pa) = Some (0, d1, pa1)"
    and sz: "header_sized (papi_hdr pa)" and x: "lm_xid_current (papi_hdr pa) \<noteq> x"
  defines "w0 \<equiv> papi_hdr_updated_last pa = 1 \<or> both" and "w1 \<equiv> papi_hdr_updated_last pa = 0 \<or> both"
    and "n \<equiv> new_header (papi_hdr pa) x"
  shows "\<exists>d0. (if w0 then pmem_write_sync dbg papi (pe_io env 0) d (header_offset 0) (header_bytes n) = Some (0, d0)
              else d0 = d) \<and>
      (if w1 then pmem_write_sync dbg papi (pe_io env 1) d0 (header_offset 1) (header_bytes n) = Some (0, d1)
       else d1 = d0) \<and> (w0 \<or> w1 \<longrightarrow> papi_hdr pa1 = n)"
proof -
  let ?q = "(papi_hdr pa)\<lparr> lm_xid_current := x \<rparr>"
  have up: "?q\<lparr> lm_hash := header_hash ?q \<rparr> = n" by (simp add: new_header_def Let_def n_def)
  have up2: "n\<lparr> lm_hash := header_hash n \<rparr> = n" using new_header_twice [OF sz] by (simp add: n_def)
  note u' = u [unfolded pmem_header_update_def split_conv Let_def, folded w0_def w1_def, unfolded up]
  from u' x show ?thesis
    unfolding header_offset_simps
    by (cases w0; cases w1) (clarsimp simp: bind_eq_Some_conv up up2 split: if_split_asm)+
qed

context pmem_device
begin

lemma update_success:
  assumes u: "pmem_header_update dbg papi env x both (d, pa) = Some (0, d1, pa1)"
    and c: "copies_valid papi d (papi_hdr pa)" and x: "lm_xid_current (papi_hdr pa) \<noteq> x"
  shows "papi_hdr pa1 = new_header (papi_hdr pa) x \<or> papi_hdr_updated_last pa \<notin> {0, 1}"
    "\<forall>k \<in> {0, 1}. header_copy d1 k = new_header (papi_hdr pa) x \<or> header_copy d1 k = header_copy d k"
    "pd_size d1 = pd_size d"
proof -
  let ?pm = "papi_hdr pa" and ?n = "new_header (papi_hdr pa) x"
  note n = new_header_valid [OF c, of x] and d = copies_validD(5) [OF c]
  define w0 w1 where "w0 = (papi_hdr_updated_last pa = 1 \<or> both)" and "w1 = (papi_hdr_updated_last pa = 0 \<or> both)"
  obtain d0 where
    s0: "if w0 then pmem_write_sync dbg papi (pe_io env 0) d (header_offset 0) (header_bytes ?n) = Some (0, d0)
         else d0 = d" and
    s1: "if w1 then pmem_write_sync dbg papi (pe_io env 1) d0 (header_offset 1) (header_bytes ?n) = Some (0, d1)
         else d1 = d0" and pa1: "w0 \<or> w1 \<longrightarrow> papi_hdr pa1 = ?n"
    using update_writes [OF u copies_validD(2) [OF c] x] unfolding w0_def [symmetric] w1_def [symmetric]
    by blast
  have c0: "header_copy d0 0 = (if w0 then ?n else header_copy d 0)" "header_copy d0 1 = header_copy d 1"
      "pd_size d0 = pd_size d"
    using s0 write_header_success [of dbg "pe_io env 0" d 0 ?n d0] d n(3) by (auto split: if_splits)
  have c1: "header_copy d1 1 = (if w1 then ?n else header_copy d0 1)" "header_copy d1 0 = header_copy d0 0"
      "pd_size d1 = pd_size d0"
    using s1 write_header_success [of dbg "pe_io env 1" d0 1 ?n d1] d n(3) c0(3) by (auto split: if_splits)
  show "papi_hdr pa1 = ?n \<or> papi_hdr_updated_last pa \<notin> {0, 1}" using pa1 by (auto simp: w0_def w1_def)
  show "\<forall>k \<in> {0, 1}. header_copy d1 k = ?n \<or> header_copy d1 k = header_copy d k" using c0 c1 by auto
  show "pd_size d1 = pd_size d" using c0 c1 by simp
qed

lemma update_crash_restorable:
  assumes u: "pmem_header_update dbg papi env x both (d, pa) = Some (0, d1, pa1)"
    and c: "copies_valid papi d (papi_hdr pa)" and x: "lm_xid_current (papi_hdr pa) \<noteq> x"
    and env: "env_healthy env'" and pa': "header_sized (papi_hdr pa')"
    and stats: "\<not> restore_header0_valid (papi_stats pa')" "\<not> restore_header1_valid (papi_stats pa')"
  shows "\<exists>pa'' y. pmem_header_restore dbg papi env' (crashed_at m d d1) (pa', z) = Some (0, pa'', y) \<and>
      papi_hdr pa'' \<in> {header_copy d 0, header_copy d 1, new_header (papi_hdr pa) x}"
proof -
  let ?n = "new_header (papi_hdr pa) x" and ?t = "crashed_at m d d1"
  note n = new_header_valid [OF c, of x] and s = update_success [OF u c x]
  have old: "header_valid (header_copy d k)" "same_cache (papi_hdr pa) (header_copy d k)" if "k \<in> {0, 1}" for k
    using c that unfolding copies_valid_def by blast+
  have torn: "header_copy ?t k = header_copy d k \<or> header_copy ?t k = ?n \<or> \<not> header_valid (header_copy ?t k)"
    if k: "k \<in> {0, 1}" for k
  proof (cases "header_copy d1 k = ?n")
    case True
    have k1: "k \<le> 1" using k by auto
    show ?thesis
      by (rule torn_header [OF old(1) [OF k] header_sized_copy n(1) same_cache_trans [OF old(2) [OF k] n(2)]
            header_copy_crashed [OF k1, of m d d1, unfolded True]]) simp
  next
    case False
    with s(2) k have "header_copy d1 k = header_copy d k" by auto
    then have "header_copy ?t k = header_copy d k"
      using header_copy_crashed [of k m d d1] k by (auto simp: header_of_bytes_bytes)
    then show ?thesis by simp
  qed
  have one: "header_copy ?t 1 = header_copy d 1 \<or> header_copy ?t 0 = header_copy d 0 \<or> header_copy ?t 0 = ?n"
  proof (cases "m \<le> 131072")
    case True
    then show ?thesis using header_copy_crashed [of 1 m d d1] by (simp add: header_of_bytes_bytes)
  next
    case False
    then have "header_copy ?t 0 = header_copy d1 0"
      using header_copy_crashed [of 0 m d d1]
      by (simp add: header_of_bytes_bytes length_header_bytes)
    then show ?thesis using s(2) by auto
  qed
  have v: "header_valid (header_copy ?t 0) \<or> header_valid (header_copy ?t 1)"
    using one old(1) n(1) by auto
  have new: "newest_header ?t \<in> {header_copy d 0, header_copy d 1, ?n}"
    using v torn [of 0] torn [of 1] by (auto simp: newest_header_def)
  have size: "pd_size ?t = pd_size d" by (simp add: crashed_at_def)
  have "same_cache (papi_hdr pa) (newest_header ?t)" using new old(2) n(2) by auto
  then have fits: "header_fits papi ?t (newest_header ?t)"
    using copies_validD(1) [OF c] by (simp add: same_cacheD(4) header_fits_dev [OF size])
  have d: "262144 \<le> unat (pd_size ?t)" using copies_validD(5) [OF c] size by simp
  obtain pa'' where r: "pmem_header_restore dbg papi env' ?t (pa', z) =
      Some (0, pa'', lm_xid_current (newest_header ?t) + 2)" "papi_hdr pa'' = newest_header ?t"
    using restore_healthy [OF env d pa' stats v fits, of dbg z] by blast
  show ?thesis using r(1) new unfolding r(2) [symmetric] by blast
qed

end

section \<open>What a successful restore guarantees\<close>

context pmem_device
begin

lemma restore_success:
  assumes r: "pmem_header_restore dbg papi env d (pa, x) = Some (0, pa', x')"
    and d: "262144 \<le> unat (pd_size d)" and pa: "header_sized (papi_hdr pa)"
  shows "header_valid (papi_hdr pa')" "\<exists>k \<in> {0, 1}. papi_hdr pa' = header_copy d k"
    "pmem_header_check dbg papi d (papi_hdr pa') = Some 0"
proof -
  obtain e0 x0 pa0 where c0: "pmem_header_restore_copy dbg papi (pe_io env 0) d 0 0 pa = Some (e0, x0, pa0)"
    using r by (cases "pmem_header_restore_copy dbg papi (pe_io env 0) d 0 0 pa")
      (auto simp: pmem_header_restore_def split: if_split_asm)
  define p where "p = (if e0 = 0 then upd_papi_stats (\<lambda>s. s\<lparr> restore_header0_valid := True \<rparr>) pa0 else pa0)"
  note r1 = r [unfolded pmem_header_restore_def split_conv c0 Option.bind.bind_lunit Let_def, folded p_def]
  obtain e1 x1 pa1 where c1: "pmem_header_restore_copy dbg papi (pe_io env 1) d 1 0 p = Some (e1, x1, pa1)"
    using r1 by (cases "pmem_header_restore_copy dbg papi (pe_io env 1) d 1 0 p") (auto split: if_split_asm)
  have s0: "header_sized (papi_hdr pa0)" by (rule restore_copy_sized [OF c0 d pa])
  have s1: "header_sized (papi_hdr pa1)"
    by (rule restore_copy_sized [OF c1 d]) (use s0 in \<open>simp add: p_def upd_papi_stats_def\<close>)
  define q where "q = (if e1 = 0 then upd_papi_stats (\<lambda>s. s\<lparr> restore_header1_valid := True \<rparr>) pa1 else pa1)"
  have sq: "header_sized (papi_hdr q)" using s1 by (simp add: q_def upd_papi_stats_def)
  have "\<exists>k z. k \<in> {0, 1 :: nat} \<and> pmem_header_restore_chosen dbg papi env d k z q = Some (0, pa', x')"
    using r1 [unfolded c1 Option.bind.bind_lunit split_conv, folded q_def]
    by (cases "restore_header0_valid (papi_stats q)"; cases "restore_header1_valid (papi_stats q)"; cases "x1 < x0")
      (auto split: if_split_asm)
  then obtain k z where k: "k \<in> {0, 1 :: nat}"
      and c: "pmem_header_restore_chosen dbg papi env d k z q = Some (0, pa', x')" by blast
  from c obtain y pa2 where c2: "pmem_header_restore_copy dbg papi (pe_io env 2) d k z q = Some (0, y, pa2)"
      and chk: "pmem_header_check dbg papi d (papi_hdr pa2) = Some 0" and pa': "papi_hdr pa' = papi_hdr pa2"
    by (auto simp: pmem_header_restore_chosen_def Let_def upd_papi_stats_def bind_eq_Some_conv split: if_split_asm)
  note s = restore_copy_success [OF c2 d sq]
  from s pa' show "header_valid (papi_hdr pa')" by metis
  from s pa' k show "\<exists>k \<in> {0, 1}. papi_hdr pa' = header_copy d k" by auto
  from chk pa' show "pmem_header_check dbg papi d (papi_hdr pa') = Some 0" by simp
qed

end

lemma papi_cases:
  assumes "papi \<in> {papi_mem_ops, papi_block_ops}"
  obtains access_ok span where "pmem_device papi access_ok span"
  using assms mem_dev.pmem_device_axioms block_dev.pmem_device_axioms by blast


text \<open>
  C17: creating a cache on a device of at least nine erase blocks and less than 16 TiB succeeds, no
  assertion fails, and a restore from the device gives back the header that was written, with the
  names of the cache and of its device and with a transaction id above all that were used.
\<close>

theorem new_cache_header_restored:
  assumes papi: "papi \<in> {papi_mem_ops, papi_block_ops}"
    and D: "1179648 \<le> unat (pd_size d)" "unat (pd_size d) < 2 ^ 44" and names: "names_ok names"
    and env: "env_healthy env" "env_healthy env'" and pa: "header_sized (papi_hdr pa0)"
    and stats: "papi_stats pa0 = pmem_info_initialize"
  shows "\<exists>d' pa' pa''. pmem_header_initialize dbg papi env names (d, pa, x) = Some (0, d', pa', 4) \<and>
    pmem_header_restore dbg papi env' d' (pa0, y) = Some (0, pa'', 5) \<and>
    papi_hdr pa'' = papi_hdr pa' \<and> lm_name (papi_hdr pa') = name_field (cn_name names) \<and>
    lm_device_name (papi_hdr pa') = name_field (cn_device_name names)"
proof -
  obtain access_ok span where p: "pmem_device papi access_ok span" by (rule papi_cases [OF papi])
  let ?pm0 = "zero_header\<lparr> lm_magic := LM_MAGIC, lm_version := LM_VERSION, lm_cache_block_size := PAGE_SIZE64 \<rparr>"
  have z: "header_sized ?pm0" by (simp add: header_sized_iff zero_header_def)
  obtain pm where pm: "pmem_initialize_pmem_header_sizes dbg (papi_interface.truncate papi) ?pm0 (pd_size d) = Some pm"
      "header_fits papi d pm" "lm_version pm = LM_VERSION" "header_sized pm"
    using init_header_fits [OF D papi, of ?pm0 dbg] z by auto
  obtain d' pa' where i: "pmem_header_initialize dbg papi env names (d, pa, x) = Some (0, d', pa', 4)"
      "copies_valid papi d' (papi_hdr pa')" "newest_header d' = papi_hdr pa'" "lm_xid_current (papi_hdr pa') = 3"
      "lm_name (papi_hdr pa') = name_field (cn_name names)"
      "lm_device_name (papi_hdr pa') = name_field (cn_device_name names)"
    using pmem_device.initialize_healthy [OF p env(1) _ names pm, of pa x] D(1) by auto
  have v: "header_valid (header_copy d' 0) \<or> header_valid (header_copy d' 1)"
    and f: "header_fits papi d' (newest_header d')" using i(2,3) by (auto simp: copies_valid_def)
  obtain pa'' where "pmem_header_restore dbg papi env' d' (pa0, y) = Some (0, pa'', 5)" "papi_hdr pa'' = papi_hdr pa'"
    using pmem_device.restore_healthy [OF p env(2) copies_validD(5) [OF i(2)] pa _ _ v f, of dbg y] i(3,4) stats
    by (auto simp: pmem_info_initialize_def)
  with i show ?thesis by blast
qed

text \<open>
  C3: when both copies of the header are valid, a crash at any byte of a header update, of one
  copy or of both, leaves a device from which the header of the cache can be restored: an old copy
  or the new header, never a mixture.
\<close>

theorem header_update_crash_safe:
  assumes papi: "papi \<in> {papi_mem_ops, papi_block_ops}"
    and c: "copies_valid papi d (papi_hdr pa)"
    and u: "pmem_header_update dbg papi env x both (d, pa) = Some (0, d1, pa1)"
    and x: "lm_xid_current (papi_hdr pa) \<noteq> x"
    and env: "env_healthy env'" and pa: "header_sized (papi_hdr pa0)" "papi_stats pa0 = pmem_info_initialize"
  shows "\<exists>pa' z. pmem_header_restore dbg papi env' (crashed_at m d d1) (pa0, y) = Some (0, pa', z) \<and>
    papi_hdr pa' \<in> {header_copy d 0, header_copy d 1, new_header (papi_hdr pa) x}"
proof -
  obtain access_ok span where p: "pmem_device papi access_ok span" by (rule papi_cases [OF papi])
  show ?thesis
    by (rule pmem_device.update_crash_restorable [OF p u c x env pa(1)])
      (simp_all add: pa(2) pmem_info_initialize_def)
qed

section \<open>A device for the examples\<close>

definition example_dev :: pmem_dev where
  "example_dev = \<lparr> pd_bytes = (\<lambda>i. 0), pd_size = 0x200000 \<rparr>"

definition example_names :: cache_names where
  "example_names = \<lparr> cn_name = [0x62], cn_device_name = [0x64], cn_uuid = replicate 16 1,
     cn_device_uuid = replicate 16 2 \<rparr>"

definition example_env :: pmem_env where
  "example_env = \<lparr> pe_io = (\<lambda>i. \<lparr> io_dax_ok = True, io_alloc_ok = True, io_err = 0, io_garbage = [] \<rparr>),
     pe_alloc = (\<lambda>i. True) \<rparr>"

definition example_api :: pmem_api where
  "example_api = \<lparr> papi_stats = pmem_info_initialize, papi_hdr = zero_header, papi_hdr_updated_last = 0 \<rparr>"

lemma example_setup [simp]:
  "env_healthy example_env" "names_ok example_names" "header_sized (papi_hdr example_api)"
  "papi_stats example_api = pmem_info_initialize" "unat (pd_size example_dev) = 0x200000"
  "papi_hdr_updated_last example_api = 0"
  by (simp_all add: env_healthy_def io_healthy_def example_env_def names_ok_def example_names_def
      example_api_def header_sized_iff zero_header_def example_dev_def)

theorem new_cache_header_restored_witness:
  "\<exists>d' pa' pa''. pmem_header_initialize True papi_block_ops example_env example_names (example_dev, example_api, 0) =
      Some (0, d', pa', 4) \<and>
    pmem_header_restore True papi_block_ops example_env d' (example_api, 0) = Some (0, pa'', 5) \<and>
    papi_hdr pa'' = papi_hdr pa' \<and> lm_name (papi_hdr pa') = 0x62 # replicate 127 0"
proof -
  have n: "name_field (cn_name example_names) = 0x62 # replicate 127 0"
    by (simp add: example_names_def name_field_def)
  show ?thesis
    using new_cache_header_restored [of papi_block_ops example_dev example_names example_env example_env
      example_api True example_api 0 0]
    unfolding n by auto
qed

lemma example_new_cache:
  obtains d pa where
    "pmem_header_initialize True papi_mem_ops example_env example_names (example_dev, example_api, 0) = Some (0, d, pa, 4)"
    "copies_valid papi_mem_ops d (papi_hdr pa)" "newest_header d = papi_hdr pa" "lm_xid_current (papi_hdr pa) = 3"
    "pd_size d = 0x200000" "papi_hdr_updated_last pa = 0"
proof -
  let ?pm0 = "zero_header\<lparr> lm_magic := LM_MAGIC, lm_version := LM_VERSION, lm_cache_block_size := PAGE_SIZE64 \<rparr>"
  have z: "header_sized ?pm0" by (simp add: header_sized_iff zero_header_def)
  obtain pm where pm: "pmem_initialize_pmem_header_sizes True (papi_interface.truncate papi_mem_ops) ?pm0
        (pd_size example_dev) = Some pm"
      "header_fits papi_mem_ops example_dev pm" "lm_version pm = LM_VERSION" "header_sized pm"
    using init_header_fits [of example_dev papi_mem_ops ?pm0 True] z by auto
  show ?thesis
    using mem_dev.initialize_healthy [OF _ _ _ pm, of example_env example_names example_api 0] that
    by (auto simp: example_dev_def)
qed


theorem header_update_crash_safe_witness:
  "\<exists>d pa d1 pa1. lm_xid_current (papi_hdr pa) = 3 \<and>
    pmem_header_update True papi_mem_ops example_env 7 True (d, pa) = Some (0, d1, pa1) \<and>
    (\<exists>pa' z. pmem_header_restore True papi_mem_ops example_env (crashed_at 370 d d1) (example_api, 0) =
        Some (0, pa', z) \<and> papi_hdr pa' \<in> {header_copy d 0, header_copy d 1, new_header (papi_hdr pa) 7})"
proof -
  obtain d and pa :: pmem_api where d: "copies_valid papi_mem_ops d (papi_hdr pa)" "lm_xid_current (papi_hdr pa) = 3"
      "pd_size d = 0x200000"
    using example_new_cache by blast
  let ?n = "new_header (papi_hdr pa) 7"
  have n: "header_sized ?n" by (rule new_header_valid [OF d(1)])
  have sz: "262144 \<le> unat (pd_size d)" using d(3) by simp
  obtain d0 where w0: "pmem_write_sync True papi_mem_ops (pe_io example_env 0) d (header_offset 0) (header_bytes ?n) = Some (0, d0)"
    using mem_dev.write_header_healthy [of "pe_io example_env 0" 0 d ?n True] n sz
    by (auto simp: example_env_def io_healthy_def)
  have d0: "pd_size d0 = pd_size d" by (rule mem_dev.write_header_success [OF w0 _ sz n]) simp
  obtain d1 where w1: "pmem_write_sync True papi_mem_ops (pe_io example_env 1) d0 (header_offset 1) (header_bytes ?n) = Some (0, d1)"
    using mem_dev.write_header_healthy [of "pe_io example_env 1" 1 d0 ?n True] n sz d0
    by (auto simp: example_env_def io_healthy_def)
  have up: "?n = (papi_hdr pa)\<lparr> lm_xid_current := 7, lm_hash := header_hash ((papi_hdr pa)\<lparr> lm_xid_current := 7 \<rparr>) \<rparr>"
    by (simp add: new_header_def Let_def)
  have u: "\<exists>pa1. pmem_header_update True papi_mem_ops example_env 7 True (d, pa) = Some (0, d1, pa1)"
    using w0 w1 d(2,3) new_header_twice [OF copies_validD(2) [OF d(1)], of 7]
    unfolding pmem_header_update_def split_conv Let_def up [symmetric] by simp
  then obtain pa1 where u: "pmem_header_update True papi_mem_ops example_env 7 True (d, pa) = Some (0, d1, pa1)" ..
  have "\<exists>pa' z. pmem_header_restore True papi_mem_ops example_env (crashed_at 370 d d1) (example_api, 0) =
      Some (0, pa', z) \<and> papi_hdr pa' \<in> {header_copy d 0, header_copy d 1, ?n}"
    by (rule header_update_crash_safe [OF _ d(1) u]) (simp_all add: d(2))
  with u d(2) show ?thesis by blast
qed








end
