(* ===== verification/Cache_Restore.thy ===== *)
theory Cache_Restore
  imports Cache_Getput_Correct Pmem_Header
begin

text \<open>
  Bringing up a cache (\<open>bittern_cache_module_ctr.c\<close>): the descriptors of all blocks are built from
  the metadata on the device, or initialised for a new cache.  When the device has two copies of a
  sector the one with the higher transaction id is kept.  The lemmas show that the result satisfies
  the invariant of the cache and does not depend on the order in which the workers restore the
  blocks.
\<close>

section \<open>Block descriptors\<close>

definition fresh_block :: "nat \<Rightarrow> cache_block" where
  "fresh_block b =
     \<lparr> bcb_block_id = b, bcb_refcount = 0, bcb_sector = SECTOR_NUMBER_INVALID, bcb_xid = 0,
       bcb_last_modify = 0, bcb_hash_data = UINT128_ZERO, bcb_state = S_INVALID,
       bcb_cache_transition = TS_NONE \<rparr>"

definition cache_block_initialize :: "bittern_cache \<Rightarrow> nat \<Rightarrow> bittern_cache option" where
  "cache_block_initialize bc b =
     do {
       ASSERT (assert_on bc) (bittern_cache_ok_unsized bc);
       M_ASSERT (1 \<le> b);
       M_ASSERT (b \<le> bc_lm_cache_blocks bc);
       Some (upd_block (\<lambda>_. fresh_block b) b bc)
     }"

definition cache_block_invalidate :: "bittern_cache \<Rightarrow> nat \<Rightarrow> bittern_cache option" where
  "cache_block_invalidate bc b =
     do {
       M_ASSERT (is_sector_number_valid (bcb_sector (blk bc b)));
       let bc = bc\<lparr> bc_total_entries := bc_total_entries bc - 1,
         bc_valid_entries := bc_valid_entries bc - 1 \<rparr>;
       bc \<leftarrow> (if bcb_state (blk bc b) = S_CLEAN
              then Some (bc\<lparr> bc_valid_entries_clean := bc_valid_entries_clean bc - 1 \<rparr>)
              else do {
                M_ASSERT (bcb_state (blk bc b) = S_DIRTY);
                Some (bc\<lparr> bc_valid_entries_dirty := bc_valid_entries_dirty bc - 1 \<rparr>)
              });
       M_ASSERT (bc_rb_root bc \<noteq> Leaf);
       M_ASSERT (b \<in> set_tree (bc_rb_root bc));
       bc \<leftarrow> cache_rb_remove bc b;
       M_ASSERT (b \<notin> set_tree (bc_rb_root bc));
       let bc = list_del_entry_cleandirty b bc;
       let bc = list_del_entry b bc;
       let bc = upd_block (\<lambda>c. c\<lparr> bcb_sector := SECTOR_NUMBER_INVALID, bcb_state := S_INVALID,
         bcb_hash_data := UINT128_ZERO, bcb_xid := 0 \<rparr>) b bc;
       let bc = bc\<lparr> bc_total_entries := bc_total_entries bc + 1,
         bc_invalid_entries := bc_invalid_entries bc + 1 \<rparr>;
       let bc = list_del_entry b bc;
       let bc = bc\<lparr> bc_invalid_entries_list := b # bc_invalid_entries_list bc \<rparr>;
       M_ASSERT (b \<notin> set_tree (bc_rb_root bc));
       Some bc
     }"

definition cache_block_add_valid :: "bittern_cache \<Rightarrow> nat \<Rightarrow> bool \<Rightarrow> bittern_cache option" where
  "cache_block_add_valid bc b clean =
     do {
       M_ASSERT (is_sector_number_valid (bcb_sector (blk bc b)));
       let bc = bc\<lparr> bc_valid_entries := bc_valid_entries bc + 1 \<rparr>;
       let bc = (if clean then bc\<lparr> bc_valid_entries_clean := bc_valid_entries_clean bc + 1 \<rparr>
                 else bc\<lparr> bc_valid_entries_dirty := bc_valid_entries_dirty bc + 1 \<rparr>);
       let bc = add_tail_valid b bc;
       bc \<leftarrow> cache_rb_insert bc b;
       M_ASSERT (b \<in> set_tree (bc_rb_root bc));
       M_ASSERT (bc_rb_root bc \<noteq> Leaf);
       Some (if clean then add_tail_clean b bc else add_tail_dirty b bc)
     }"

definition cache_block_add :: "bittern_cache \<Rightarrow> nat \<Rightarrow> bittern_cache option" where
  "cache_block_add bc b =
     do {
       bc \<leftarrow> (case bcb_state (blk bc b) of
                S_INVALID \<Rightarrow>
                  do {
                    M_ASSERT (is_sector_number_invalid (bcb_sector (blk bc b)));
                    M_ASSERT (bcb_sector (blk bc b) = SECTOR_NUMBER_INVALID);
                    let bc = bc\<lparr> bc_invalid_entries := bc_invalid_entries bc + 1 \<rparr>;
                    let bc = add_tail_invalid b bc;
                    M_ASSERT (uint128_z (bcb_hash_data (blk bc b)));
                    Some bc
                  }
              | S_CLEAN \<Rightarrow> cache_block_add_valid bc b True
              | S_DIRTY \<Rightarrow> cache_block_add_valid bc b False
              | _ \<Rightarrow> None);
       Some (bc\<lparr> bc_total_entries := bc_total_entries bc + 1 \<rparr>)
     }"

section \<open>Restoring one block\<close>

text \<open>The kernel during the restore of a block and during the initialisation of its metadata.\<close>

record ctr_env =
  ce_restore :: pmem_env
  ce_init :: pmem_env

type_synonym ctr_state = "pmem_dev \<times> pmem_api \<times> bittern_cache"

text \<open>\<open>pmem_metadata_initialize\<close> followed by the assertion that it succeeded.\<close>

definition metadata_initialize_ok ::
  "bool \<Rightarrow> papi_ops \<Rightarrow> pmem_env \<Rightarrow> nat \<Rightarrow> ctr_state \<Rightarrow> (int \<times> ctr_state) option" where
  "metadata_initialize_ok dbg papi env b = (\<lambda>(d, pa, bc).
     do {
       (ret, d) \<leftarrow> pmem_metadata_initialize dbg papi env pa (of_nat b) d;
       M_ASSERT (ret = 0);
       Some (0, d, pa, bc)
     })"

text \<open>The block was restored as clean or dirty: is there another copy of its sector?\<close>

definition cache_ctr_restore_valid ::
  "bool \<Rightarrow> papi_ops \<Rightarrow> ctr_env \<Rightarrow> nat \<Rightarrow> ctr_state \<Rightarrow> (int \<times> ctr_state) option" where
  "cache_ctr_restore_valid dbg papi env b = (\<lambda>(d, pa, bc).
     do {
       M_ASSERT (is_sector_number_valid (bcb_sector (blk bc b)));
       (old, bc) \<leftarrow> cache_rb_lookup bc (bcb_sector (blk bc b));
       (case old of
          None \<Rightarrow> do { bc \<leftarrow> cache_block_add bc b; Some (0, d, pa, bc) }
        | Some old_b \<Rightarrow>
            do {
              M_ASSERT (is_sector_number_valid (bcb_sector (blk bc old_b)));
              M_ASSERT (bcb_sector (blk bc old_b) = bcb_sector (blk bc b));
              M_ASSERT (bcb_state (blk bc old_b) = S_CLEAN \<or> bcb_state (blk bc old_b) = S_DIRTY);
              if bcb_xid (blk bc b) = bcb_xid (blk bc old_b) then
                do {
                  bc \<leftarrow> cache_block_add bc b;
                  bc \<leftarrow> cache_block_invalidate bc b;
                  Some (- EL2NSYNC, d, pa, bc)
                }
              else if bcb_xid (blk bc b) < bcb_xid (blk bc old_b) then
                do {
                  bc \<leftarrow> cache_block_add bc b;
                  bc \<leftarrow> cache_block_invalidate bc b;
                  metadata_initialize_ok dbg papi (ce_init env) b (d, pa, bc)
                }
              else
                do {
                  M_ASSERT (bcb_xid (blk bc b) > bcb_xid (blk bc old_b));
                  let old_block_id = bcb_block_id (blk bc old_b);
                  bc \<leftarrow> cache_block_invalidate bc old_b;
                  bc \<leftarrow> cache_block_add bc b;
                  metadata_initialize_ok dbg papi (ce_init env) old_block_id (d, pa, bc)
                }
            })
     })"

definition cache_ctr_restore_block ::
  "bool \<Rightarrow> papi_ops \<Rightarrow> ctr_env \<Rightarrow> nat \<Rightarrow> ctr_state \<Rightarrow> (int \<times> ctr_state) option" where
  "cache_ctr_restore_block dbg papi env b = (\<lambda>(d, pa, bc).
     do {
       bc \<leftarrow> cache_block_initialize bc b;
       ASSERT dbg (b = bcb_block_id (blk bc b));
       (ret, pa, cb) \<leftarrow> pmem_block_restore dbg papi (ce_restore env) d (pa, blk bc b);
       let bc = upd_block (\<lambda>_. cb) b bc;
       if ret < 0 then Some (ret, d, pa, bc)
       else if ret = 0 then
         do {
           M_ASSERT (bcb_state (blk bc b) = S_INVALID);
           M_ASSERT (is_sector_number_invalid (bcb_sector (blk bc b)));
           bc \<leftarrow> cache_block_add bc b;
           metadata_initialize_ok dbg papi (ce_init env) b (d, pa, bc)
         }
       else
         do {
           M_ASSERT (bcb_state (blk bc b) = S_INVALID \<or> bcb_state (blk bc b) = S_CLEAN \<or>
                     bcb_state (blk bc b) = S_DIRTY);
           if bcb_state (blk bc b) = S_INVALID
           then do { bc \<leftarrow> cache_block_add bc b; Some (0, d, pa, bc) }
           else cache_ctr_restore_valid dbg papi env b (d, pa, bc)
         }
     })"

datatype cache_device_op = CACHE_DEVICE_OP_CREATE | CACHE_DEVICE_OP_RESTORE

definition cache_ctr_restore_or_init_block ::
  "bool \<Rightarrow> papi_ops \<Rightarrow> cache_device_op \<Rightarrow> ctr_env \<Rightarrow> nat \<Rightarrow> ctr_state \<Rightarrow> (int \<times> ctr_state) option" where
  "cache_ctr_restore_or_init_block dbg papi cache_operation env b = (\<lambda>(d, pa, bc).
     do {
       (ret, d, pa, bc) \<leftarrow>
         (case cache_operation of
            CACHE_DEVICE_OP_RESTORE \<Rightarrow> cache_ctr_restore_block dbg papi env b (d, pa, bc)
          | CACHE_DEVICE_OP_CREATE \<Rightarrow>
              do {
                bc \<leftarrow> cache_block_initialize bc b;
                bc \<leftarrow> cache_block_add bc b;
                metadata_initialize_ok dbg papi (ce_init env) b (d, pa, bc)
              });
       if ret < 0 then Some (ret, d, pa, bc)
       else do {
         let bc = (if bcb_xid (blk bc b) > bc_xid bc then bc\<lparr> bc_xid := bcb_xid (blk bc b) \<rparr> else bc);
         ASSERT dbg (cache_block_ok_unbounded bc b);
         Some (0, d, pa, bc)
       }
     })"

section \<open>The workers\<close>

text \<open>
  The blocks are divided among \<open>RESTORE_WORKQUEUES\<close> workers that run concurrently; the worker with
  offset \<open>i\<close> handles every 128th block from block \<open>i + 1\<close> on.  The state of a worker is its structure
  with the counter of its loop (a 32-bit integer) and whether the loop has ended.
\<close>

definition RESTORE_WORKQUEUES :: u32 where
  "RESTORE_WORKQUEUES = 128"

record restore_workqueue =
  modulo_offset :: u32
  mod_base :: u32
  restored :: u32
  wq_ret :: int
  wq_done :: bool

definition restore_workqueue_start :: "nat \<Rightarrow> restore_workqueue" where
  "restore_workqueue_start i =
     \<lparr> modulo_offset = of_nat i, mod_base = 1, restored = 0, wq_ret = 0, wq_done = False \<rparr>"

text \<open>One iteration of the loop of \<open>cache_ctr_restore_or_init\<close>.\<close>

definition cache_ctr_restore_or_init ::
  "bool \<Rightarrow> papi_ops \<Rightarrow> cache_device_op \<Rightarrow> (nat \<Rightarrow> ctr_env) \<Rightarrow> restore_workqueue \<Rightarrow> ctr_state \<Rightarrow>
     (restore_workqueue \<times> ctr_state) option" where
  "cache_ctr_restore_or_init dbg papi cache_op env r_wq st =
     (let cache_blocks = lm_cache_blocks (papi_hdr (fst (snd st)));
          block_id = mod_base r_wq + modulo_offset r_wq in
      if ucast (mod_base r_wq) \<le> cache_blocks \<and> ucast block_id \<le> cache_blocks then
        do {
          M_ASSERT (block_id \<ge> 1);
          (ret, st) \<leftarrow> cache_ctr_restore_or_init_block dbg papi cache_op (env (unat block_id))
                        (unat block_id) st;
          if ret \<noteq> 0 then Some (r_wq\<lparr> wq_ret := ret, wq_done := True \<rparr>, st)
          else Some (r_wq\<lparr> mod_base := mod_base r_wq + RESTORE_WORKQUEUES,
                           restored := restored r_wq + 1 \<rparr>, st)
        }
      else Some (r_wq\<lparr> wq_ret := 0, wq_done := True \<rparr>, st))"

text \<open>
  A step of the restore: some worker that has not ended does a whole iteration.  In the code the
  lookup and the list updates of an iteration are one section under the lock of the cache, and the
  update of the transaction id is another; the transfers are outside both.  What the transfers
  access is private to the iteration: the metadata and the data that are read belong to the block
  that only this worker restores, and the metadata that is written to a block that the first
  section has made invalid, which no other iteration accesses any more.  Between the two sections
  another worker may make the block invalid; it then does so for a copy with a higher transaction
  id, which takes the place of the block's own in the maximum that the second section updates.
\<close>

inductive restore_step ::
  "bool \<Rightarrow> papi_ops \<Rightarrow> cache_device_op \<Rightarrow> (nat \<Rightarrow> ctr_env) \<Rightarrow>
     restore_workqueue list \<times> ctr_state \<Rightarrow> restore_workqueue list \<times> ctr_state \<Rightarrow> bool"
  for dbg papi cache_op env where
  iteration: "i < length wqs \<Longrightarrow> \<not> wq_done (wqs ! i) \<Longrightarrow>
    cache_ctr_restore_or_init dbg papi cache_op env (wqs ! i) st = Some (r_wq, st') \<Longrightarrow>
    restore_step dbg papi cache_op env (wqs, st) (wqs[i := r_wq], st')"

text \<open>What \<open>cache_ctr_restore_or_init_workqueues\<close> does after all workers have been flushed.\<close>

definition wq_flush :: "restore_workqueue \<Rightarrow> int \<times> u32 \<Rightarrow> int \<times> u32" where
  "wq_flush r_wq = (\<lambda>(ret, total_restored).
     (if wq_ret r_wq \<noteq> 0 then wq_ret r_wq else ret, total_restored + restored r_wq))"

definition cache_ctr_restore_or_init_workqueues ::
  "bool \<Rightarrow> restore_workqueue list \<times> ctr_state \<Rightarrow> (int \<times> ctr_state) option" where
  "cache_ctr_restore_or_init_workqueues dbg = (\<lambda>(wqs, d, pa, bc).
     do {
       let (ret, total_restored) = fold wq_flush wqs (0, 0);
       let cache_blocks = lm_cache_blocks (papi_hdr pa);
       ASSERT dbg (ret \<le> 0);
       if ret < 0 then Some (ret, d, pa, bc)
       else do {
         M_ASSERT (ucast total_restored = cache_blocks);
         ASSERT dbg (\<forall>b \<in> set [1 ..< Suc (unat cache_blocks)]. cache_block_ok_unbounded bc b);
         M_ASSERT (\<forall>b \<in> set [1 ..< Suc (unat cache_blocks)]. stable_state (bcb_state (blk bc b)));
         M_ASSERT (bc_total_entries bc = unat cache_blocks);
         M_ASSERT (int (bc_total_entries bc) =
           bc_invalid_entries bc + bc_valid_entries_clean bc + bc_valid_entries_dirty bc);
         Some (0, d, pa, bc)
       }
     })"

text \<open>A cache before any block is added.\<close>

definition empty_cache :: "bittern_cache \<Rightarrow> bool" where
  "empty_cache bc \<longleftrightarrow>
     bc_total_entries bc = 0 \<and> bc_invalid_entries bc = 0 \<and> bc_valid_entries bc = 0 \<and>
     bc_valid_entries_clean bc = 0 \<and> bc_valid_entries_dirty bc = 0 \<and>
     bc_invalid_entries_list bc = [] \<and> bc_valid_entries_list bc = [] \<and>
     bc_valid_entries_clean_list bc = [] \<and> bc_valid_entries_dirty_list bc = [] \<and> bc_rb_root bc = Leaf"

section \<open>What the device holds for a block\<close>

definition meta_at :: "pmem_dev \<Rightarrow> pmem_header \<Rightarrow> nat \<Rightarrow> pmem_block_metadata" where
  "meta_at d pm b = metadata_of_bytes (dev_read d (metadata_offset pm b) 64)"

definition data_at :: "pmem_dev \<Rightarrow> pmem_header \<Rightarrow> nat \<Rightarrow> u8 list" where
  "data_at d pm b = dev_read d (data_offset pm b) 4096"

text \<open>The metadata of a block that holds data, and whether it is intact.\<close>

definition record_of :: "pmem_dev \<Rightarrow> pmem_header \<Rightarrow> nat \<Rightarrow> pmem_block_metadata option" where
  "record_of d pm b =
     (if pmbm_status (meta_at d pm b) \<in> {pmbm_status_of S_CLEAN, pmbm_status_of S_DIRTY}
      then Some (meta_at d pm b) else None)"

definition block_intact :: "pmem_dev \<Rightarrow> pmem_header \<Rightarrow> nat \<Rightarrow> bool" where
  "block_intact d pm b \<longleftrightarrow>
     (let p = meta_at d pm b in
      pmbm_magic p = MCBM_MAGIC \<and> metadata_hash p = pmbm_hash_metadata p \<and>
      CACHE_STATE_VALID (pmbm_status p) \<and>
      (record_of d pm b \<noteq> None \<longrightarrow>
         pmbm_block_id p = of_nat b \<and> is_sector_cache_aligned (pmbm_device_sector p) \<and>
         is_sector_number_valid (pmbm_device_sector p) \<and>
         murmurhash3_128 (data_at d pm b) PAGE_SIZE = pmbm_hash_data p))"

definition block_of_record :: "pmem_block_metadata \<Rightarrow> cache_block \<Rightarrow> cache_block" where
  "block_of_record p cb = cb\<lparr> bcb_sector := pmbm_device_sector p,
     bcb_state := cache_state_of_num (pmbm_status p), bcb_xid := pmbm_xid p,
     bcb_hash_data := pmbm_hash_data p \<rparr>"

lemma pmbm_status_of_simps [simp]:
  "pmbm_status_of S_INVALID = 0" "pmbm_status_of S_CLEAN = 1" "pmbm_status_of S_DIRTY = 2"
  by (simp_all add: pmbm_status_of_def)

lemma cache_state_of_num_stable [simp]:
  "cache_state_of_num 1 = S_CLEAN" "cache_state_of_num 2 = S_DIRTY"
  by (simp_all add: cache_state_of_num_def cache_states_def)

lemma unat_block_id:
  assumes "b < 2 ^ 32"
  shows "unat (of_nat b :: u32) = b" "unat (ucast (of_nat b :: u32) :: u64) = b"
proof -
  show "unat (of_nat b :: u32) = b" using assms by (simp add: unat_of_nat)
  then show "unat (ucast (of_nat b :: u32) :: u64) = b"
    by (simp add: unsigned_ucast_eq unat_of_nat take_bit_nat_eq_self_iff)
qed

lemma pmem_offsets_ok:
  assumes wf: "layout_wf pm" and b: "1 \<le> b" "b \<le> nblocks pm" "nblocks pm < 2 ^ 32"
    and size: "cache_size pm \<le> unat bdev"
  shows "\<exists>off. cache_block_id_2_metadata_pmem_offset dbg bdev pm (of_nat b) = Some off \<and> unat off = metadata_offset pm b"
    and "\<exists>off. cache_block_id_2_data_pmem_offset dbg bdev pm (of_nat b) = Some off \<and> unat off = data_offset pm b"
proof -
  have u: "unat (ucast (of_nat b :: u32) :: u64) = b"
    using b by (intro unat_block_id) simp
  note d = layout_wfD [OF wf]
  obtain m where m: "cache_block_id_2_metadata_pmem_offset_p dbg pm (ucast (of_nat b :: u32)) = Some m"
      "unat m = metadata_offset pm b"
    using metadata_offset_eq [OF wf, of "ucast (of_nat b :: u32)" dbg] u b by auto
  obtain q where q: "cache_block_id_2_data_pmem_offset_p dbg pm (ucast (of_nat b :: u32)) = Some q"
      "unat q = data_offset pm b"
    using data_offset_eq [OF wf, of "ucast (of_nat b :: u32)" dbg] u b by auto
  note bounds = metadata_offset_bound [OF wf b(1,2)] data_offset_bound [OF wf b(1,2)]
  have "m + PAGE_SIZE64 \<le> bdev" "q + PAGE_SIZE64 \<le> bdev"
    by (rule le_after_page; use bounds m q size in simp)+
  moreover have "lm_cache_blocks pm \<noteq> 0" "0 < bdev"
    using d(4) bounds size by (auto simp: word_less_nat_alt)
  ultimately show
    "\<exists>off. cache_block_id_2_metadata_pmem_offset dbg bdev pm (of_nat b) = Some off \<and> unat off = metadata_offset pm b"
    "\<exists>off. cache_block_id_2_data_pmem_offset dbg bdev pm (of_nat b) = Some off \<and> unat off = data_offset pm b"
    using d m q by (simp_all add: cache_block_id_2_metadata_pmem_offset_def cache_block_id_2_data_pmem_offset_def)
qed

lemma header_fitsD:
  assumes "header_fits papi d pm"
  shows "layout_wf pm" "nblocks pm < 2 ^ 32" "cache_size pm \<le> unat (pd_size d)"
    "lm_cache_layout pm = layout_char (cache_layout papi)" "262144 \<le> unat (pd_size d)" "0 < pd_size d"
    "lm_cache_blocks pm \<noteq> 0"
  using assms header_fits_size [OF assms] layout_wfD(4) [of pm]
  by (auto simp: header_fits_def word_less_nat_alt)

context pmem_device
begin

lemma read_metadata:
  assumes "header_fits papi d pm" "1 \<le> b" "b \<le> nblocks pm" "io_healthy io"
  shows "\<exists>off. cache_block_id_2_metadata_pmem_offset dbg (pd_size d) pm (of_nat b) = Some off \<and>
    pmem_read_sync dbg papi io d off (replicate 64 0) 64 = Some (0, dev_read d (metadata_offset pm b) 64)"
proof -
  note f = header_fitsD [OF assms(1)]
  obtain off where off: "cache_block_id_2_metadata_pmem_offset dbg (pd_size d) pm (of_nat b) = Some off"
      "unat off = metadata_offset pm b"
    using pmem_offsets_ok(1) [OF f(1) assms(2,3) f(2,3), of dbg] by blast
  have "access_ok d off 64" using metadata_access [OF f(1,4) assms(2,3) f(5) off(2)] by simp
  from read_healthy [OF this assms(4), of "replicate 64 0" dbg] off f(6) show ?thesis
    by (simp add: pmem_read_sync_def)
qed

lemma read_data:
  assumes "header_fits papi d pm" "1 \<le> b" "b \<le> nblocks pm" "io_healthy io"
  shows "\<exists>off. cache_block_id_2_data_pmem_offset dbg (pd_size d) pm (of_nat b) = Some off \<and>
    pmem_read_sync dbg papi io d off (replicate PAGE_SIZE 0) PAGE_SIZE = Some (0, data_at d pm b)"
proof -
  note f = header_fitsD [OF assms(1)]
  obtain off where off: "cache_block_id_2_data_pmem_offset dbg (pd_size d) pm (of_nat b) = Some off"
      "unat off = data_offset pm b"
    using pmem_offsets_ok(2) [OF f(1) assms(2,3) f(2,3), of dbg] by blast
  have "access_ok d off 4096" using data_access [OF f(1,4) assms(2,3) f(5) off(2)] by simp
  from read_healthy [OF this assms(4), of "replicate 4096 0" dbg] off f(6) show ?thesis
    by (simp add: pmem_read_sync_def data_at_def PAGE_SIZE_def)
qed

lemma block_restore_healthy:
  assumes env: "env_healthy env" and pm: "header_fits papi d (papi_hdr pa)"
    and b: "1 \<le> b" "b \<le> nblocks (papi_hdr pa)" and cb: "bcb_block_id cb = b"
    and ok: "block_intact d (papi_hdr pa) b"
  shows "\<exists>pa'. pmem_block_restore dbg papi env d (pa, cb) = Some
      (case record_of d (papi_hdr pa) b of
         Some p \<Rightarrow> (1, pa', block_of_record p cb)
       | None \<Rightarrow> (if pmbm_status (meta_at d (papi_hdr pa) b) = 0 then 1 else 0, pa', cb)) \<and>
    papi_hdr pa' = papi_hdr pa"
proof -
  let ?pm = "papi_hdr pa" and ?p = "meta_at d (papi_hdr pa) b"
  have io: "io_healthy (pe_io env i)" "pe_alloc env i" for i using env by (simp_all add: env_healthy_def)
  note f = header_fitsD [OF pm]
  obtain off where m: "cache_block_id_2_metadata_pmem_offset dbg (pd_size d) ?pm (of_nat b) = Some off"
      "pmem_read_sync dbg papi (pe_io env 0) d off (replicate 64 0) 64 = Some (0, dev_read d (metadata_offset ?pm b) 64)"
    using read_metadata [OF pm b io(1), of dbg 0] by blast
  obtain off' where q: "cache_block_id_2_data_pmem_offset dbg (pd_size d) ?pm (of_nat b) = Some off'"
      "pmem_read_sync dbg papi (pe_io env 1) d off' (replicate PAGE_SIZE 0) PAGE_SIZE = Some (0, data_at d ?pm b)"
    using read_data [OF pm b io(1), of dbg 1] by blast
  have u: "unat (of_nat b :: u32) = b" "unat (ucast (of_nat b :: u32) :: u64) = b"
    using b f(2) by (auto intro!: unat_block_id)
  have ids: "(of_nat b :: u32) \<ge> 1" "ucast (of_nat b :: u32) \<le> lm_cache_blocks ?pm"
    using b u by (simp_all add: word_le_nat_alt)
  note i = ok [unfolded block_intact_def Let_def]
  have step: "pmem_block_restore dbg papi env d (pa, cb) =
      (if pmbm_status ?p = 0 then Some (1, upd_papi_stats (\<lambda>s.
             s\<lparr> restore_invalid_metadata_blocks := restore_invalid_metadata_blocks s + 1,
                restore_invalid_data_blocks := restore_invalid_data_blocks s + 1 \<rparr>) pa, cb)
       else if pmbm_status ?p \<noteq> 1 \<and> pmbm_status ?p \<noteq> 2 then
         Some (0, upd_papi_stats (\<lambda>s.
             s\<lparr> restore_pending_metadata_blocks := restore_pending_metadata_blocks s + 1 \<rparr>) pa, cb)
       else pmem_block_restore_data dbg papi env d ?p (pa, cb))"
    using i m io f ids cb by (simp add: pmem_block_restore_def Let_def meta_at_def)
  show ?thesis
  proof (cases "record_of d ?pm b")
    case None
    then show ?thesis unfolding step
      by (auto simp: record_of_def upd_papi_stats_def split: if_splits)
  next
    case (Some p)
    then have p: "p = ?p" and st: "pmbm_status ?p = 1 \<or> pmbm_status ?p = 2"
      by (auto simp: record_of_def split: if_splits)
    have "is_sector_number_valid (pmbm_device_sector ?p)" using i Some by simp
    then have nm: "pmbm_device_sector ?p \<noteq> - 1"
      by (auto simp: is_sector_number_valid_def SECTOR_NUMBER_INVALID_def)
    have "\<exists>pa'. pmem_block_restore_data dbg papi env d ?p (pa, cb) = Some (1, pa', block_of_record ?p cb) \<and>
        papi_hdr pa' = papi_hdr pa"
      using i Some st q io cb nm
      by (auto simp: pmem_block_restore_data_def Let_def upd_papi_stats_def block_of_record_def)
    then show ?thesis unfolding step using st Some p by auto
  qed
qed

end

section \<open>Initialising the metadata of a block\<close>

lemma metadata_hash_upd:
  assumes "metadata_sized p"
  shows "metadata_hash (p\<lparr> pmbm_hash_metadata := h \<rparr>) = metadata_hash p"
proof -
  have s: "metadata_sized (p\<lparr> pmbm_hash_metadata := h \<rparr>)" using assms by (simp add: metadata_sized_def)
  have "take 48 (metadata_bytes (p\<lparr> pmbm_hash_metadata := h \<rparr>)) = take 48 (metadata_bytes p)"
    using assms by (simp add: metadata_bytes_def metadata_fields_def metadata_sized_def)
  then show ?thesis
    unfolding metadata_hash_def PMEM_BLOCK_METADATA_HASHING_SIZE_def
    using length_metadata_bytes [OF assms] length_metadata_bytes [OF s]
    by (intro murmurhash3_128_cong) simp_all
qed

lemma block_regions:
  assumes wf: "layout_wf pm" and b: "1 \<le> b" "b \<le> nblocks pm" and k: "1 \<le> k" "k \<le> nblocks pm"
  defines "w \<equiv> {metadata_offset pm k ..< metadata_offset pm k + mcb_size pm}"
  shows "b \<noteq> k \<Longrightarrow> w \<inter> {metadata_offset pm b ..< metadata_offset pm b + 64} = {}"
    "w \<inter> {data_offset pm b ..< data_offset pm b + 4096} = {}" "64 \<le> mcb_size pm"
proof -
  have w: "w = region_bytes pm (Metadata k)"
    by (simp add: w_def region_bytes_def region_start_eq [OF wf k] del: region_start.simps)
  show mcb: "64 \<le> mcb_size pm"
    using layout_wf_seq(1) [OF wf] layout_wf_int(2) [OF wf] by (cases "sequential pm") auto
  have m: "{metadata_offset pm b ..< metadata_offset pm b + 64} \<subseteq> region_bytes pm (Metadata b)"
    using mcb by (auto simp: region_bytes_def region_start_eq [OF wf b] simp del: region_start.simps)
  have q: "{data_offset pm b ..< data_offset pm b + 4096} = region_bytes pm (Data b)"
    by (simp add: region_bytes_def region_start_eq [OF wf b] PAGE_SIZE_def del: region_start.simps)
  show "b \<noteq> k \<Longrightarrow> w \<inter> {metadata_offset pm b ..< metadata_offset pm b + 64} = {}"
    using regions_disjoint [OF wf, of "Metadata k" "Metadata b"] m b k unfolding w by auto
  show "w \<inter> {data_offset pm b ..< data_offset pm b + 4096} = {}"
    unfolding w q using regions_disjoint [OF wf, of "Metadata k" "Data b"] b k by simp
qed

text \<open>A write of the metadata of one block: the metadata of the others and all data are unchanged.\<close>

definition only_metadata :: "pmem_header \<Rightarrow> nat \<Rightarrow> pmem_dev \<Rightarrow> pmem_dev \<Rightarrow> bool" where
  "only_metadata pm k d d' \<longleftrightarrow> pd_size d' = pd_size d \<and>
     (\<forall>b \<in> {1 .. nblocks pm}. (b \<noteq> k \<longrightarrow> meta_at d' pm b = meta_at d pm b) \<and> data_at d' pm b = data_at d pm b)"

lemma only_metadataI:
  assumes wf: "layout_wf pm" and k: "1 \<le> k" "k \<le> nblocks pm" and size: "pd_size d' = pd_size d"
    and frame: "\<And>i. i \<notin> {metadata_offset pm k ..< metadata_offset pm k + mcb_size pm} \<Longrightarrow>
      pd_bytes d' i = pd_bytes d i"
  shows "only_metadata pm k d d'"
proof -
  have "meta_at d' pm b = meta_at d pm b" if "b \<in> {1 .. nblocks pm}" "b \<noteq> k" for b
  proof -
    have "dev_read d' (metadata_offset pm b) 64 = dev_read d (metadata_offset pm b) 64"
      using block_regions(1) [OF wf _ _ k, of b] that by (intro dev_read_cong frame) auto
    then show ?thesis by (simp add: meta_at_def)
  qed
  moreover have "data_at d' pm b = data_at d pm b" if "b \<in> {1 .. nblocks pm}" for b
  proof -
    have "dev_read d' (data_offset pm b) 4096 = dev_read d (data_offset pm b) 4096"
      using block_regions(2) [OF wf _ _ k, of b] that by (intro dev_read_cong frame) auto
    then show ?thesis by (simp add: data_at_def)
  qed
  ultimately show ?thesis using size by (simp add: only_metadata_def)
qed

lemma only_metadata_record:
  assumes "only_metadata pm k d d'" "b \<in> {1 .. nblocks pm}" "b \<noteq> k"
  shows "record_of d' pm b = record_of d pm b" "block_intact d' pm b = block_intact d pm b"
    "meta_at d' pm b = meta_at d pm b"
  using assms by (simp_all add: only_metadata_def record_of_def block_intact_def)

context pmem_device
begin

lemma metadata_initialize_healthy:
  assumes env: "env_healthy env" and pm: "header_fits papi d (papi_hdr pa)"
    and k: "1 \<le> k" "k \<le> nblocks (papi_hdr pa)"
  shows "\<exists>d'. pmem_metadata_initialize dbg papi env pa (of_nat k) d = Some (0, d') \<and>
    only_metadata (papi_hdr pa) k d d' \<and> record_of d' (papi_hdr pa) k = None \<and>
    block_intact d' (papi_hdr pa) k \<and> pmbm_status (meta_at d' (papi_hdr pa) k) = 0"
proof -
  let ?pm = "papi_hdr pa"
  have io: "io_healthy (pe_io env 0)" "pe_alloc env 0" using env by (simp_all add: env_healthy_def)
  note f = header_fitsD [OF pm]
  obtain off where off: "cache_block_id_2_metadata_pmem_offset dbg (pd_size d) ?pm (of_nat k) = Some off"
      "unat off = metadata_offset ?pm k"
    using pmem_offsets_ok(1) [OF f(1) k f(2,3), of dbg] by blast
  define p0 where "p0 = \<lparr> pmbm_magic = MCBM_MAGIC, pmbm_block_id = of_nat k, pmbm_device_sector = - 1,
    pmbm_xid = 0, pmbm_status = 0, pmbm_alignment_gap = replicate 4 0,
    pmbm_hash_data = UINT128_ZERO, pmbm_hash_metadata = UINT128_ZERO \<rparr>"
  let ?p = "p0\<lparr> pmbm_hash_metadata := metadata_hash p0 \<rparr>"
  have sz0: "metadata_sized p0" by (simp add: p0_def metadata_sized_def)
  then have sz: "metadata_sized ?p" by (simp add: metadata_sized_def)
  have len: "length (metadata_bytes ?p) = 64" by (rule length_metadata_bytes [OF sz])
  note acc = metadata_access [OF f(1,4) k f(5) off(2)]
  have ok: "access_ok d off (length (metadata_bytes ?p))" using acc len by simp
  obtain e d' where w: "write_sync papi dbg (pe_io env 0) d off (metadata_bytes ?p) = Some (e, d')"
    using write_returns [OF ok, of "pe_io env 0" dbg] io by (auto simp: io_healthy_def)
  have e: "e = 0" by (rule write_healthy [OF ok io(1) w])
  have "dev_read d' (metadata_offset ?pm k) 64 = metadata_bytes ?p"
    using write_success [OF ok w [unfolded e]] off(2) len by simp
  then have meta: "meta_at d' ?pm k = ?p" by (simp add: meta_at_def metadata_of_bytes_bytes sz)
  have "only_metadata ?pm k d d'"
  proof (rule only_metadataI [OF f(1) k write_size [OF ok w]])
    fix i assume "i \<notin> {metadata_offset ?pm k ..< metadata_offset ?pm k + mcb_size ?pm}"
    then have "i \<notin> span off (length (metadata_bytes ?p))" using acc len by auto
    then show "pd_bytes d' i = pd_bytes d i" by (rule write_frame [OF ok w])
  qed
  moreover have r: "record_of d' ?pm k = None" by (simp add: record_of_def meta p0_def)
  moreover have "block_intact d' ?pm k"
    using r metadata_hash_upd [OF sz0, of "metadata_hash p0"]
    by (simp add: block_intact_def meta) (simp add: p0_def CACHE_STATE_VALID_def cache_states_def)
  moreover have "pmem_metadata_initialize dbg papi env pa (of_nat k) d = Some (0, d')"
    using w e io f off
    by (simp add: pmem_metadata_initialize_def Let_def pmem_write_sync_def p0_def [symmetric])
  moreover have "pmbm_status (meta_at d' ?pm k) = 0" by (simp add: meta p0_def)
  ultimately show ?thesis by blast
qed

end

section \<open>A cache that is being filled\<close>

text \<open>The blocks of a set that are in a given state.\<close>

definition in_state :: "bittern_cache \<Rightarrow> nat set \<Rightarrow> cache_state \<Rightarrow> nat set" where
  "in_state bc P s = {b \<in> P. bcb_state (blk bc b) = s}"

text \<open>
  The invariant of a cache to which the blocks of a set have been added.  It is the invariant of
  the running cache without the condition that no two blocks have the same sector.
\<close>

definition fill_inv :: "nat set \<Rightarrow> bittern_cache \<Rightarrow> bool" where
  "fill_inv P bc \<longleftrightarrow>
     rbtree_kernel (bc_env bc) \<and> bittern_cache_ok_unsized bc \<and> finite P \<and> bc_total_entries bc = card P \<and>
     (\<forall>b \<in> P. block_wf b (blk bc b) \<and> bcb_refcount (blk bc b) = 0) \<and>
     list_of (bc_invalid_entries_list bc) (in_state bc P S_INVALID) \<and>
     list_of (bc_valid_entries_list bc) (in_state bc P S_CLEAN \<union> in_state bc P S_DIRTY) \<and>
     list_of (bc_valid_entries_clean_list bc) (in_state bc P S_CLEAN) \<and>
     list_of (bc_valid_entries_dirty_list bc) (in_state bc P S_DIRTY) \<and>
     bc_invalid_entries bc = int (length (bc_invalid_entries_list bc)) \<and>
     bc_valid_entries bc = int (length (bc_valid_entries_list bc)) \<and>
     bc_valid_entries_clean bc = int (length (bc_valid_entries_clean_list bc)) \<and>
     bc_valid_entries_dirty bc = int (length (bc_valid_entries_dirty_list bc)) \<and>
     list_of (inorder (bc_rb_root bc)) (in_state bc P S_CLEAN \<union> in_state bc P S_DIRTY) \<and>
     sorted (map (sector_of bc) (inorder (bc_rb_root bc)))"

lemma in_state_upd [simp]:
  "in_state (bc\<lparr> bc_total_entries := n \<rparr>) P s = in_state bc P s"
  "in_state (bc\<lparr> bc_invalid_entries := i \<rparr>) P s = in_state bc P s"
  "in_state (bc\<lparr> bc_valid_entries := i \<rparr>) P s = in_state bc P s"
  "in_state (bc\<lparr> bc_valid_entries_clean := i \<rparr>) P s = in_state bc P s"
  "in_state (bc\<lparr> bc_valid_entries_dirty := i \<rparr>) P s = in_state bc P s"
  "in_state (bc\<lparr> bc_invalid_entries_list := xs \<rparr>) P s = in_state bc P s"
  "in_state (bc\<lparr> bc_valid_entries_list := xs \<rparr>) P s = in_state bc P s"
  "in_state (bc\<lparr> bc_valid_entries_clean_list := xs \<rparr>) P s = in_state bc P s"
  "in_state (bc\<lparr> bc_valid_entries_dirty_list := xs \<rparr>) P s = in_state bc P s"
  "in_state (bc\<lparr> bc_rb_root := t \<rparr>) P s = in_state bc P s"
  "in_state (bc\<lparr> bc_xid := x \<rparr>) P s = in_state bc P s"
  "in_state (upd_stats g bc) P s = in_state bc P s"
  by (simp_all add: in_state_def)

text \<open>What adding and invalidating blocks leaves alone.\<close>

definition fill_frame :: "bittern_cache \<Rightarrow> bittern_cache \<Rightarrow> bool" where
  "fill_frame bc bc' \<longleftrightarrow> bc_env bc' = bc_env bc \<and> bc_replacement_mode bc' = bc_replacement_mode bc \<and>
     bc_cache_mode_writeback bc' = bc_cache_mode_writeback bc \<and>
     bc_lm_cache_blocks bc' = bc_lm_cache_blocks bc \<and> bc_xid bc' = bc_xid bc"

lemma fill_inv_rb_inv: "fill_inv P bc \<Longrightarrow> rb_inv bc"
  by (auto simp: fill_inv_def rb_inv_def list_of_def in_state_def cache_block_ok_unbounded_def block_wf_def)

lemma sorted_map_same: "(\<And>x. x \<in> set xs \<Longrightarrow> f x = g x) \<Longrightarrow> sorted (map f xs) = sorted (map g xs)"
  by (metis map_eq_conv)

lemma rb_inv_same_index:
  assumes "rb_inv bc" "bc_env bc' = bc_env bc" "bc_replacement_mode bc' = bc_replacement_mode bc"
    "bc_cache_mode_writeback bc' = bc_cache_mode_writeback bc" "bc_rb_root bc' = bc_rb_root bc"
    "\<And>b. b \<in> set_tree (bc_rb_root bc) \<Longrightarrow> blk bc' b = blk bc b"
  shows "rb_inv bc'"
proof -
  have "sorted (map (sector_of bc') (inorder (bc_rb_root bc))) = sorted (map (sector_of bc) (inorder (bc_rb_root bc)))"
    using assms(6) by (intro sorted_map_same) simp
  then show ?thesis
    using assms by (simp add: rb_inv_def bittern_cache_ok_unsized_def cache_block_ok_unbounded_def)
qed

lemma fill_inv_upd_stats [simp]: "fill_inv P (upd_stats g bc) = fill_inv P bc"
  by (simp add: fill_inv_def in_state_def bittern_cache_ok_unsized_def)

lemma fill_inv_upd_block:
  assumes "fill_inv P bc" "b \<notin> P"
  shows "fill_inv P (upd_block f b bc)"
proof -
  have "in_state (upd_block f b bc) P s = in_state bc P s" for s
    using assms(2) by (auto simp: in_state_def)
  moreover have "sorted (map (sector_of (upd_block f b bc)) (inorder (bc_rb_root bc))) =
      sorted (map (sector_of bc) (inorder (bc_rb_root bc)))"
    using assms by (intro sorted_map_same) (auto simp: fill_inv_def list_of_def in_state_def)
  moreover have "blk (upd_block f b bc) c = blk bc c" if "c \<in> P" for c
    using that assms(2) by auto
  ultimately show ?thesis
    using assms unfolding fill_inv_def by (simp add: bittern_cache_ok_unsized_def del: upd_block_sel(20))
qed

lemma fill_inv_stable:
  "fill_inv P bc \<Longrightarrow> b \<in> P \<Longrightarrow>
   bcb_state (blk bc b) = S_INVALID \<or> bcb_state (blk bc b) = S_CLEAN \<or> bcb_state (blk bc b) = S_DIRTY"
  by (auto simp: fill_inv_def block_wf_def stable_state_def)

lemma list_of_snoc: "list_of xs A \<Longrightarrow> b \<notin> A \<Longrightarrow> list_of (xs @ [b]) (insert b A)"
  by (auto simp: list_of_def)

lemma list_of_insort: "list_of xs A \<Longrightarrow> b \<notin> A \<Longrightarrow> list_of (insort_key f b xs) (insert b A)"
  by (auto simp: list_of_def distinct_insort set_insort_key)

lemma in_state_insert:
  "in_state bc (insert b P) s = (if bcb_state (blk bc b) = s then insert b (in_state bc P s) else in_state bc P s)"
  by (auto simp: in_state_def)

lemma add_invalid_ok:
  assumes inv: "fill_inv P bc" and b: "b \<notin> P" "block_wf b (blk bc b)" "bcb_refcount (blk bc b) = 0"
    and st: "bcb_state (blk bc b) = S_INVALID" "uint128_z (bcb_hash_data (blk bc b))"
  shows "\<exists>bc'. cache_block_add bc b = Some bc' \<and> fill_inv (insert b P) bc' \<and>
    bc_cache_blocks bc' = bc_cache_blocks bc \<and> fill_frame bc bc'"
proof -
  let ?bc = "(add_tail_invalid b (bc\<lparr> bc_invalid_entries := bc_invalid_entries bc + 1 \<rparr>))
    \<lparr> bc_total_entries := bc_total_entries bc + 1 \<rparr>"
  have sec: "bcb_sector (blk bc b) = SECTOR_NUMBER_INVALID" using b(2) st by (simp add: block_wf_def)
  then have "is_sector_number_invalid (bcb_sector (blk bc b))"
    by (simp add: is_sector_number_invalid_def is_sector_number_valid_def SECTOR_NUMBER_INVALID_def)
  then have "cache_block_add bc b = Some ?bc"
    using st sec by (simp add: cache_block_add_def add_tail_invalid_def)
  moreover have "fill_inv (insert b P) ?bc"
  proof -
    have "list_of (bc_invalid_entries_list bc @ [b]) (insert b (in_state bc P S_INVALID))"
      using inv b(1) by (intro list_of_snoc) (auto simp: fill_inv_def in_state_def)
    then show ?thesis
      using inv b st by (simp add: fill_inv_def add_tail_invalid_def in_state_insert bittern_cache_ok_unsized_def)
  qed
  ultimately show ?thesis by (auto simp: fill_frame_def add_tail_invalid_def)
qed

lemma add_valid_ok:
  assumes inv: "fill_inv P bc" and b: "b \<notin> P" "block_wf b (blk bc b)" "bcb_refcount (blk bc b) = 0"
    and st: "bcb_state (blk bc b) = (if clean then S_CLEAN else S_DIRTY)"
  shows "\<exists>bc'. cache_block_add_valid bc b clean = Some bc' \<and>
    fill_inv (insert b P) (bc'\<lparr> bc_total_entries := bc_total_entries bc' + 1 \<rparr>) \<and>
    bc_cache_blocks bc' = bc_cache_blocks bc \<and> fill_frame bc bc'"
proof -
  let ?bc1 = "add_tail_valid b (if clean
     then bc\<lparr> bc_valid_entries := bc_valid_entries bc + 1, bc_valid_entries_clean := bc_valid_entries_clean bc + 1 \<rparr>
     else bc\<lparr> bc_valid_entries := bc_valid_entries bc + 1, bc_valid_entries_dirty := bc_valid_entries_dirty bc + 1 \<rparr>)"
  have rb: "rb_inv ?bc1"
    by (rule rb_inv_same_index [OF fill_inv_rb_inv [OF inv]]) (simp_all add: add_tail_valid_def)
  have ok: "cache_block_ok_unbounded ?bc1 b"
    using b by (simp add: cache_block_ok_unbounded_def add_tail_valid_def block_wf_def)
  have notin: "b \<notin> set (inorder (bc_rb_root bc))" "b \<notin> in_state bc P s" for s
    using inv b(1) by (auto simp: fill_inv_def list_of_def in_state_def)
  have root: "bc_rb_root ?bc1 = bc_rb_root bc" and blks: "bc_cache_blocks ?bc1 = bc_cache_blocks bc"
    by (simp_all add: add_tail_valid_def)
  obtain t where t: "cache_rb_insert ?bc1 b = Some (?bc1\<lparr> bc_rb_root := t \<rparr>)" "rb_inv (?bc1\<lparr> bc_rb_root := t \<rparr>)"
      "inorder t = insort_key (sector_of bc) b (inorder (bc_rb_root bc))"
    using rb_insert_spec [OF rb ok] notin(1) unfolding root blks by blast
  have "b \<in> set (inorder t)" unfolding t(3) by (simp add: set_insort_key)
  then have mem: "b \<in> set_tree t" "t \<noteq> Leaf" by auto
  have valid: "is_sector_number_valid (bcb_sector (blk bc b))"
    using b st by (simp add: block_wf_def split: if_split_asm)
  let ?bc2 = "if clean then add_tail_clean b (?bc1\<lparr> bc_rb_root := t \<rparr>) else add_tail_dirty b (?bc1\<lparr> bc_rb_root := t \<rparr>)"
  have res: "cache_block_add_valid bc b clean = Some ?bc2"
    using valid t(1) mem by (cases clean) (simp_all add: cache_block_add_valid_def Let_def)
  have un: "in_state bc (insert b P) S_CLEAN \<union> in_state bc (insert b P) S_DIRTY =
      insert b (in_state bc P S_CLEAN \<union> in_state bc P S_DIRTY)"
    using st by (auto simp: in_state_insert)
  have "list_of (inorder t) (insert b (in_state bc P S_CLEAN \<union> in_state bc P S_DIRTY))"
    unfolding t(3) using inv notin by (intro list_of_insort) (auto simp: fill_inv_def)
  moreover have "sorted (map (sector_of bc) (inorder t))"
    using t(2) blks by (simp add: rb_inv_def)
  moreover have "list_of (bc_valid_entries_list bc @ [b]) (insert b (in_state bc P S_CLEAN \<union> in_state bc P S_DIRTY))"
    using inv notin(2) by (intro list_of_snoc) (auto simp: fill_inv_def)
  moreover have "clean \<Longrightarrow> list_of (bc_valid_entries_clean_list bc @ [b]) (insert b (in_state bc P S_CLEAN))"
    "\<not> clean \<Longrightarrow> list_of (bc_valid_entries_dirty_list bc @ [b]) (insert b (in_state bc P S_DIRTY))"
    using inv notin(2) by (auto intro!: list_of_snoc simp: fill_inv_def)
  ultimately have "fill_inv (insert b P) (?bc2\<lparr> bc_total_entries := bc_total_entries ?bc2 + 1 \<rparr>)"
    using inv b st un
    by (cases clean) (simp_all add: fill_inv_def in_state_insert list_link_defs bittern_cache_ok_unsized_def)
  with res show ?thesis by (intro exI [of _ ?bc2]) (simp add: fill_frame_def list_link_defs)
qed

lemma block_add_ok:
  assumes "fill_inv P bc" "b \<notin> P" "block_wf b (blk bc b)" "bcb_refcount (blk bc b) = 0"
    and "bcb_state (blk bc b) = S_INVALID \<Longrightarrow> uint128_z (bcb_hash_data (blk bc b))"
  shows "\<exists>bc'. cache_block_add bc b = Some bc' \<and> fill_inv (insert b P) bc' \<and>
    bc_cache_blocks bc' = bc_cache_blocks bc \<and> fill_frame bc bc'"
proof -
  consider "bcb_state (blk bc b) = S_INVALID" | "bcb_state (blk bc b) = S_CLEAN" | "bcb_state (blk bc b) = S_DIRTY"
    using assms(3,4) by (auto simp: block_wf_def stable_state_def)
  then show ?thesis
  proof cases
    case 1
    with add_invalid_ok [OF assms(1-4)] assms(5) show ?thesis by blast
  next
    case 2
    with add_valid_ok [OF assms(1-4), of True] show ?thesis
      by (auto simp: cache_block_add_def fill_frame_def)
  next
    case 3
    with add_valid_ok [OF assms(1-4), of False] show ?thesis
      by (auto simp: cache_block_add_def fill_frame_def)
  qed
qed

lemma list_of_removeAll: "list_of xs A \<Longrightarrow> list_of (removeAll b xs) (A - {b})"
  by (auto simp: list_of_def distinct_removeAll)

lemma list_of_remove1: "list_of xs A \<Longrightarrow> list_of (remove1 b xs) (A - {b})"
  by (auto simp: list_of_def distinct_remove1)

lemma list_of_length_removeAll:
  "list_of xs A \<Longrightarrow> int (length (removeAll b xs)) = int (length xs) - of_bool (b \<in> A)"
  using distinct_removeAll_length [of xs b] by (cases "b \<in> set xs") (auto simp: list_of_def)

definition invalidated :: "cache_block \<Rightarrow> cache_block" where
  "invalidated c = c\<lparr> bcb_sector := SECTOR_NUMBER_INVALID, bcb_state := S_INVALID,
     bcb_hash_data := UINT128_ZERO, bcb_xid := 0 \<rparr>"

lemma in_state_invalidated:
  assumes "b \<in> P" "bc_cache_blocks bc' = (bc_cache_blocks bc)(b := invalidated (blk bc b))"
  shows "in_state bc' P s = (if s = S_INVALID then insert b (in_state bc P s) else in_state bc P s - {b})"
  using assms by (auto simp: in_state_def invalidated_def)

lemma fill_inv_invalidated:
  assumes inv: "fill_inv P bc" and b: "b \<in> P" "bcb_state (blk bc b) \<noteq> S_INVALID"
    and frame: "fill_frame bc bc'" and total: "bc_total_entries bc' = bc_total_entries bc"
    and blks: "bc_cache_blocks bc' = (bc_cache_blocks bc)(b := invalidated (blk bc b))"
    and lists: "bc_invalid_entries_list bc' = b # bc_invalid_entries_list bc"
      "bc_valid_entries_list bc' = removeAll b (bc_valid_entries_list bc)"
      "bc_valid_entries_clean_list bc' = removeAll b (bc_valid_entries_clean_list bc)"
      "bc_valid_entries_dirty_list bc' = removeAll b (bc_valid_entries_dirty_list bc)"
      "inorder (bc_rb_root bc') = remove1 b (inorder (bc_rb_root bc))"
    and counts: "bc_invalid_entries bc' = bc_invalid_entries bc + 1" "bc_valid_entries bc' = bc_valid_entries bc - 1"
      "bc_valid_entries_clean bc' = bc_valid_entries_clean bc - of_bool (bcb_state (blk bc b) = S_CLEAN)"
      "bc_valid_entries_dirty bc' = bc_valid_entries_dirty bc - of_bool (bcb_state (blk bc b) = S_DIRTY)"
  shows "fill_inv P bc'"
proof -
  note ins = in_state_invalidated [OF b(1) blks]
  have st: "bcb_state (blk bc b) = S_CLEAN \<or> bcb_state (blk bc b) = S_DIRTY"
    using fill_inv_stable [OF inv b(1)] b(2) by blast
  have old: "list_of (bc_invalid_entries_list bc) (in_state bc P S_INVALID)"
    "list_of (bc_valid_entries_list bc) (in_state bc P S_CLEAN \<union> in_state bc P S_DIRTY)"
    "list_of (bc_valid_entries_clean_list bc) (in_state bc P S_CLEAN)"
    "list_of (bc_valid_entries_dirty_list bc) (in_state bc P S_DIRTY)"
    "list_of (inorder (bc_rb_root bc)) (in_state bc P S_CLEAN \<union> in_state bc P S_DIRTY)"
    using inv by (simp_all add: fill_inv_def)
  have mem: "b \<in> in_state bc P s \<longleftrightarrow> bcb_state (blk bc b) = s" for s using b(1) by (simp add: in_state_def)
  have "list_of (b # bc_invalid_entries_list bc) (insert b (in_state bc P S_INVALID))"
    using old(1) mem b(2) by (auto simp: list_of_def)
  moreover have "list_of (remove1 b (inorder (bc_rb_root bc))) (in_state bc P S_CLEAN - {b} \<union> (in_state bc P S_DIRTY - {b}))"
    "list_of (removeAll b (bc_valid_entries_list bc)) (in_state bc P S_CLEAN - {b} \<union> (in_state bc P S_DIRTY - {b}))"
    using list_of_remove1 [OF old(5), of b] list_of_removeAll [OF old(2), of b] by (simp_all add: Un_Diff)
  moreover have "sorted (map (sector_of bc') (remove1 b (inorder (bc_rb_root bc))))"
  proof -
    have "sorted (map (sector_of bc) (remove1 b (inorder (bc_rb_root bc))))"
      using inv by (intro sorted_map_remove1) (simp add: fill_inv_def)
    moreover have "distinct (inorder (bc_rb_root bc))" using old(5) by (simp add: list_of_def)
    then have "c \<noteq> b" if "c \<in> set (remove1 b (inorder (bc_rb_root bc)))" for c
      using that by (auto simp del: set_inorder)
    then have "sorted (map (sector_of bc') (remove1 b (inorder (bc_rb_root bc)))) =
        sorted (map (sector_of bc) (remove1 b (inorder (bc_rb_root bc))))"
      by (intro sorted_map_same) (simp add: blks)
    ultimately show ?thesis by simp
  qed
  moreover have "block_wf c (blk bc' c) \<and> bcb_refcount (blk bc' c) = 0" if "c \<in> P" for c
    using inv that by (auto simp: fill_inv_def blks invalidated_def block_wf_def stable_state_def)
  ultimately show ?thesis
    using inv frame total st old list_of_removeAll [OF old(3), of b] list_of_removeAll [OF old(4), of b]
    unfolding fill_inv_def fill_frame_def ins lists counts
      list_of_length_removeAll [OF old(2)] list_of_length_removeAll [OF old(3)]
      list_of_length_removeAll [OF old(4)]
    by (simp add: mem bittern_cache_ok_unsized_def)
qed

lemma block_invalidate_ok:
  assumes inv: "fill_inv P bc" and b: "b \<in> P" "bcb_state (blk bc b) \<noteq> S_INVALID"
  shows "\<exists>bc'. cache_block_invalidate bc b = Some bc' \<and> fill_inv P bc' \<and>
    bc_cache_blocks bc' = (bc_cache_blocks bc)(b := invalidated (blk bc b)) \<and> fill_frame bc bc'"
proof -
  have st: "bcb_state (blk bc b) = S_CLEAN \<or> bcb_state (blk bc b) = S_DIRTY"
    using fill_inv_stable [OF inv b(1)] b(2) by blast
  have valid: "is_sector_number_valid (bcb_sector (blk bc b))"
    using inv b by (auto simp: fill_inv_def block_wf_def)
  have pos: "bc_total_entries bc \<noteq> 0" using inv b(1) by (auto simp: fill_inv_def)
  have tree: "b \<in> set_tree (bc_rb_root bc)"
    using inv b(1) st by (auto simp: fill_inv_def list_of_def in_state_def)
  then have nl: "bc_rb_root bc \<noteq> Leaf" by auto
  have nin: "b \<notin> set (bc_invalid_entries_list bc)"
    using inv st by (auto simp: fill_inv_def list_of_def in_state_def)
  let ?bc1 = "if bcb_state (blk bc b) = S_CLEAN
     then bc\<lparr> bc_total_entries := bc_total_entries bc - 1, bc_valid_entries := bc_valid_entries bc - 1,
       bc_valid_entries_clean := bc_valid_entries_clean bc - 1 \<rparr>
     else bc\<lparr> bc_total_entries := bc_total_entries bc - 1, bc_valid_entries := bc_valid_entries bc - 1,
       bc_valid_entries_dirty := bc_valid_entries_dirty bc - 1 \<rparr>"
  have rb: "rb_inv ?bc1"
    by (rule rb_inv_same_index [OF fill_inv_rb_inv [OF inv]]) simp_all
  have root: "bc_rb_root ?bc1 = bc_rb_root bc" by simp
  obtain t where t: "cache_rb_remove ?bc1 b = Some (?bc1\<lparr> bc_rb_root := t \<rparr>)"
      "inorder t = remove1 b (inorder (bc_rb_root bc))"
    using rb_remove_spec [OF rb] tree unfolding root by auto
  have "set_tree t = set (remove1 b (inorder (bc_rb_root bc)))" using t(2) set_inorder by metis
  moreover have "distinct (inorder (bc_rb_root bc))" using inv by (simp add: fill_inv_def list_of_def)
  ultimately have nt: "b \<notin> set_tree t" by simp
  have "\<exists>bc'. cache_block_invalidate bc b = Some bc' \<and> fill_frame bc bc' \<and>
      bc_total_entries bc' = bc_total_entries bc \<and>
      bc_cache_blocks bc' = (bc_cache_blocks bc)(b := invalidated (blk bc b)) \<and>
      bc_invalid_entries_list bc' = b # bc_invalid_entries_list bc \<and>
      bc_valid_entries_list bc' = removeAll b (bc_valid_entries_list bc) \<and>
      bc_valid_entries_clean_list bc' = removeAll b (bc_valid_entries_clean_list bc) \<and>
      bc_valid_entries_dirty_list bc' = removeAll b (bc_valid_entries_dirty_list bc) \<and>
      bc_rb_root bc' = t \<and>
      bc_invalid_entries bc' = bc_invalid_entries bc + 1 \<and> bc_valid_entries bc' = bc_valid_entries bc - 1 \<and>
      bc_valid_entries_clean bc' = bc_valid_entries_clean bc - of_bool (bcb_state (blk bc b) = S_CLEAN) \<and>
      bc_valid_entries_dirty bc' = bc_valid_entries_dirty bc - of_bool (bcb_state (blk bc b) = S_DIRTY)"
    using st valid t(1) tree nl nt nin pos
    by (elim disjE)
      (simp_all add: cache_block_invalidate_def Let_def list_link_defs upd_block_def fill_frame_def invalidated_def)
  then obtain bc' where *: "cache_block_invalidate bc b = Some bc'" "fill_frame bc bc'"
      "bc_total_entries bc' = bc_total_entries bc"
      "bc_cache_blocks bc' = (bc_cache_blocks bc)(b := invalidated (blk bc b))"
      "bc_invalid_entries_list bc' = b # bc_invalid_entries_list bc"
      "bc_valid_entries_list bc' = removeAll b (bc_valid_entries_list bc)"
      "bc_valid_entries_clean_list bc' = removeAll b (bc_valid_entries_clean_list bc)"
      "bc_valid_entries_dirty_list bc' = removeAll b (bc_valid_entries_dirty_list bc)"
      "bc_rb_root bc' = t"
      "bc_invalid_entries bc' = bc_invalid_entries bc + 1" "bc_valid_entries bc' = bc_valid_entries bc - 1"
      "bc_valid_entries_clean bc' = bc_valid_entries_clean bc - of_bool (bcb_state (blk bc b) = S_CLEAN)"
      "bc_valid_entries_dirty bc' = bc_valid_entries_dirty bc - of_bool (bcb_state (blk bc b) = S_DIRTY)"
    by blast
  from * t(2) have "fill_inv P bc'" by (intro fill_inv_invalidated [OF inv b]) simp_all
  with * show ?thesis by blast
qed

section \<open>The copies that are kept\<close>

text \<open>
  Of the records of a sector among the blocks of a set, the one with the highest transaction id
  is kept.
\<close>

definition kept :: "(nat \<Rightarrow> pmem_block_metadata option) \<Rightarrow> nat set \<Rightarrow> nat \<Rightarrow> bool" where
  "kept R P b \<longleftrightarrow> b \<in> P \<and> (\<exists>p. R b = Some p \<and>
     (\<forall>c \<in> P. \<forall>q. R c = Some q \<and> pmbm_device_sector q = pmbm_device_sector p \<longrightarrow> pmbm_xid q \<le> pmbm_xid p))"

definition distinct_copies :: "(nat \<Rightarrow> pmem_block_metadata option) \<Rightarrow> nat set \<Rightarrow> bool" where
  "distinct_copies R P \<longleftrightarrow> (\<forall>b \<in> P. \<forall>c \<in> P. \<forall>p q. b \<noteq> c \<and> R b = Some p \<and> R c = Some q \<and>
     pmbm_device_sector p = pmbm_device_sector q \<longrightarrow> pmbm_xid p \<noteq> pmbm_xid q)"

lemma distinct_copiesD:
  "distinct_copies R P \<Longrightarrow> b \<in> P \<Longrightarrow> c \<in> P \<Longrightarrow> b \<noteq> c \<Longrightarrow> R b = Some p \<Longrightarrow> R c = Some q \<Longrightarrow>
   pmbm_device_sector p = pmbm_device_sector q \<Longrightarrow> pmbm_xid p \<noteq> pmbm_xid q"
  by (auto simp: distinct_copies_def)

lemma keptD: "kept R P b \<Longrightarrow> b \<in> P" "kept R P b \<Longrightarrow> \<exists>p. R b = Some p"
  by (auto simp: kept_def)

lemma kept_max:
  "kept R P b \<Longrightarrow> R b = Some p \<Longrightarrow> c \<in> P \<Longrightarrow> R c = Some q \<Longrightarrow>
   pmbm_device_sector q = pmbm_device_sector p \<Longrightarrow> pmbm_xid q \<le> pmbm_xid p"
  by (auto simp: kept_def)

lemma kept_exists:
  assumes "finite P" "c \<in> P" "R c = Some q"
  obtains k p where "kept R P k" "R k = Some p" "pmbm_device_sector p = pmbm_device_sector q"
    "pmbm_xid q \<le> pmbm_xid p"
proof -
  define S where "S = {k \<in> P. \<exists>p. R k = Some p \<and> pmbm_device_sector p = pmbm_device_sector q}"
  define M where "M = Max ((\<lambda>k. pmbm_xid (the (R k))) ` S)"
  have fin: "finite ((\<lambda>k. pmbm_xid (the (R k))) ` S)" using assms(1) by (simp add: S_def)
  moreover have c: "c \<in> S" using assms by (simp add: S_def)
  ultimately have "M \<in> (\<lambda>k. pmbm_xid (the (R k))) ` S" unfolding M_def by (intro Max_in) auto
  then obtain k where k: "k \<in> S" "pmbm_xid (the (R k)) = M" by auto
  have max: "pmbm_xid (the (R j)) \<le> pmbm_xid (the (R k))" if "j \<in> S" for j
    unfolding k(2) M_def using fin that by (intro Max_ge) auto
  from k(1) obtain p where p: "R k = Some p" "pmbm_device_sector p = pmbm_device_sector q" by (auto simp: S_def)
  have "kept R P k" unfolding kept_def using k(1) p max by (fastforce simp: S_def)
  then show thesis using that p max [OF c] assms(3) by simp
qed

lemma kept_unique:
  assumes "distinct_copies R P" "kept R P b" "kept R P c" "R b = Some p" "R c = Some q"
    "pmbm_device_sector p = pmbm_device_sector q"
  shows "b = c"
proof (rule ccontr)
  assume "b \<noteq> c"
  moreover have "b \<in> P" "c \<in> P" using assms by (auto dest: keptD)
  moreover from this have "pmbm_xid p = pmbm_xid q"
    using kept_max [OF assms(2,4), of c q] kept_max [OF assms(3,5), of b p] assms by force
  ultimately show False using assms unfolding distinct_copies_def by blast
qed

lemma kept_insert_None: "R b = None \<Longrightarrow> kept R (insert b P) c = kept R P c"
  by (auto simp: kept_def)

lemma kept_insert_new:
  assumes "R b = Some p" "b \<notin> P" "\<And>c q. c \<in> P \<Longrightarrow> R c = Some q \<Longrightarrow> pmbm_device_sector q \<noteq> pmbm_device_sector p"
  shows "kept R (insert b P) c \<longleftrightarrow> c = b \<or> kept R P c"
  using assms(1,2) by (auto simp: kept_def dest: assms(3))

lemma kept_insert_loser:
  assumes "R b = Some p" "b \<notin> P" "kept R P k" "R k = Some q"
    "pmbm_device_sector q = pmbm_device_sector p" "pmbm_xid p < pmbm_xid q"
  shows "kept R (insert b P) c = kept R P c"
proof (cases "c = b")
  case True
  have "\<not> kept R (insert b P) b"
  proof
    assume "kept R (insert b P) b"
    then have "pmbm_xid q \<le> pmbm_xid p" using assms by (intro kept_max [of R "insert b P" b]) (auto dest: keptD)
    then show False using assms(6) by simp
  qed
  with True assms(2) show ?thesis by (auto dest: keptD)
next
  case False
  have "pmbm_xid p \<le> pmbm_xid r" if "kept R P c" "R c = Some r" "pmbm_device_sector p = pmbm_device_sector r" for r
    using kept_max [OF that(1,2), of k q] assms that(3) by (auto dest: keptD)
  with False assms(1) show ?thesis unfolding kept_def by fastforce
qed

lemma kept_insert_winner:
  assumes "distinct_copies R P" "R b = Some p" "b \<notin> P" "kept R P k" "R k = Some q"
    "pmbm_device_sector q = pmbm_device_sector p" "pmbm_xid q < pmbm_xid p"
  shows "kept R (insert b P) c \<longleftrightarrow> c = b \<or> c \<noteq> k \<and> kept R P c"
proof -
  have best: "pmbm_xid r \<le> pmbm_xid p" if "c \<in> P" "R c = Some r" "pmbm_device_sector r = pmbm_device_sector p" for c r
    using kept_max [OF assms(4,5) that(1,2)] assms(6,7) that(3) by simp
  then have "kept R (insert b P) b" using assms by (auto simp: kept_def)
  moreover have "\<not> kept R (insert b P) k" using assms by (auto simp: kept_def)
  moreover have "kept R (insert b P) c = kept R P c" if "c \<noteq> k" "c \<noteq> b"
  proof -
    have "pmbm_device_sector p \<noteq> pmbm_device_sector r" if "kept R P c" "R c = Some r" for r
      using kept_unique [OF assms(1,4) that(1) assms(5) that(2)] assms(6) \<open>c \<noteq> k\<close> by auto
    then show ?thesis using that assms(2) unfolding kept_def by (auto; metis option.inject)
  qed
  ultimately show ?thesis by blast
qed

section \<open>The restore as a function of the device\<close>

text \<open>
  The device after the blocks of a set have been restored: the records that are kept and the
  blocks still to be restored are as they were, the other blocks of the set hold no record.
\<close>

definition restored_dev :: "pmem_dev \<Rightarrow> pmem_header \<Rightarrow> nat set \<Rightarrow> pmem_dev \<Rightarrow> bool" where
  "restored_dev d0 pm P d \<longleftrightarrow> pd_size d = pd_size d0 \<and>
     (\<forall>b \<in> {1 .. nblocks pm}. data_at d pm b = data_at d0 pm b \<and>
        (if b \<in> P \<and> \<not> kept (record_of d0 pm) P b then record_of d pm b = None \<and> block_intact d pm b
         else meta_at d pm b = meta_at d0 pm b))"

definition restored_block :: "pmem_dev \<Rightarrow> pmem_header \<Rightarrow> nat set \<Rightarrow> nat \<Rightarrow> cache_block" where
  "restored_block d0 pm P b =
     (if kept (record_of d0 pm) P b then block_of_record (meta_at d0 pm b) (fresh_block b) else fresh_block b)"

definition restored_cache :: "pmem_dev \<Rightarrow> pmem_header \<Rightarrow> nat set \<Rightarrow> bittern_cache \<Rightarrow> bool" where
  "restored_cache d0 pm P bc \<longleftrightarrow> fill_inv P bc \<and> P \<subseteq> {1 .. nblocks pm} \<and>
     bc_lm_cache_blocks bc = nblocks pm \<and> (\<forall>b \<in> P. blk bc b = restored_block d0 pm P b)"

text \<open>No block is damaged.\<close>

definition all_intact :: "pmem_dev \<Rightarrow> pmem_header \<Rightarrow> bool" where
  "all_intact d0 pm \<longleftrightarrow> (\<forall>b \<in> {1 .. nblocks pm}. block_intact d0 pm b)"

lemma distinct_copies_subset: "distinct_copies R Q \<Longrightarrow> P \<subseteq> Q \<Longrightarrow> distinct_copies R P"
  unfolding distinct_copies_def by (meson subsetD)

lemma record_of_meta: "record_of d pm b = Some p \<Longrightarrow> p = meta_at d pm b"
  by (simp add: record_of_def split: if_split_asm)

lemma same_record:
  assumes "meta_at d pm b = meta_at d0 pm b" "data_at d pm b = data_at d0 pm b"
  shows "record_of d pm b = record_of d0 pm b" "block_intact d pm b = block_intact d0 pm b"
  using assms by (simp_all add: record_of_def block_intact_def)

lemma restored_dev_keep:
  assumes "restored_dev d0 pm P d" "all_intact d0 pm" "P \<subseteq> {1 .. nblocks pm}" "b \<in> {1 .. nblocks pm} - P"
    and "\<And>c. c \<in> P \<Longrightarrow> kept (record_of d0 pm) (insert b P) c = kept (record_of d0 pm) P c"
    and "kept (record_of d0 pm) (insert b P) b \<or> record_of d0 pm b = None"
  shows "restored_dev d0 pm (insert b P) d"
proof -
  have "meta_at d pm b = meta_at d0 pm b" "data_at d pm b = data_at d0 pm b"
    using assms(1,4) by (auto simp: restored_dev_def)
  note b = same_record [OF this]
  show ?thesis
    unfolding restored_dev_def
  proof (intro conjI ballI)
    fix c assume c: "c \<in> {1 .. nblocks pm}"
    show "if c \<in> insert b P \<and> \<not> kept (record_of d0 pm) (insert b P) c
        then record_of d pm c = None \<and> block_intact d pm c else meta_at d pm c = meta_at d0 pm c"
      using assms(1,2,4,6) assms(5) [of c] b c
      by (cases "c = b") (auto simp: restored_dev_def all_intact_def)
  qed (use assms(1) in \<open>auto simp: restored_dev_def\<close>)
qed

lemma restored_dev_drop:
  assumes "restored_dev d0 pm P d" "all_intact d0 pm" "P \<subseteq> {1 .. nblocks pm}" "b \<in> {1 .. nblocks pm} - P"
    and "\<And>c. c \<in> P \<Longrightarrow> c \<noteq> k \<Longrightarrow> kept (record_of d0 pm) (insert b P) c = kept (record_of d0 pm) P c"
    and "b \<noteq> k \<Longrightarrow> kept (record_of d0 pm) (insert b P) b"
    and "k \<in> insert b P" "\<not> kept (record_of d0 pm) (insert b P) k"
    and "only_metadata pm k d d'" "record_of d' pm k = None" "block_intact d' pm k"
  shows "restored_dev d0 pm (insert b P) d'"
  unfolding restored_dev_def
proof (intro conjI ballI)
  fix c assume c: "c \<in> {1 .. nblocks pm}"
  show "data_at d' pm c = data_at d0 pm c"
    using assms(1,9) c by (simp add: restored_dev_def only_metadata_def)
  show "if c \<in> insert b P \<and> \<not> kept (record_of d0 pm) (insert b P) c
      then record_of d' pm c = None \<and> block_intact d' pm c else meta_at d' pm c = meta_at d0 pm c"
  proof (cases "c = k")
    case True
    then show ?thesis using assms(7,8,10,11) by simp
  next
    case False
    then show ?thesis
      using assms(1,4,6) assms(5) [of c] c only_metadata_record [OF assms(9) c False]
      by (cases "c = b") (auto simp: restored_dev_def)
  qed
qed (use assms(1,9) in \<open>simp add: restored_dev_def only_metadata_def\<close>)

lemma fresh_block_wf [simp]:
  "block_wf b (fresh_block b)" "bcb_refcount (fresh_block b) = 0" "bcb_block_id (fresh_block b) = b"
  "bcb_state (fresh_block b) = S_INVALID" "bcb_hash_data (fresh_block b) = UINT128_ZERO"
  "bcb_sector (fresh_block b) = SECTOR_NUMBER_INVALID"
  by (simp_all add: fresh_block_def block_wf_def stable_state_def uint128_z_def UINT128_ZERO_def)

lemma record_block_wf:
  assumes "block_intact d pm b" "record_of d pm b = Some p"
  shows "block_wf b (block_of_record p (fresh_block b))"
    "bcb_state (block_of_record p (fresh_block b)) = S_CLEAN \<or> bcb_state (block_of_record p (fresh_block b)) = S_DIRTY"
    "is_sector_number_valid (pmbm_device_sector p)"
  using assms
  by (auto simp: block_intact_def Let_def record_of_def block_of_record_def block_wf_def fresh_block_def
      stable_state_def split: if_split_asm)

lemma block_of_record_sel [simp]:
  "bcb_refcount (block_of_record p c) = bcb_refcount c" "bcb_sector (block_of_record p c) = pmbm_device_sector p"
  "bcb_xid (block_of_record p c) = pmbm_xid p" "bcb_block_id (block_of_record p c) = bcb_block_id c"
  by (simp_all add: block_of_record_def)

lemma invalidated_restored [simp]: "invalidated (block_of_record p (fresh_block b)) = fresh_block b"
  by (simp add: invalidated_def block_of_record_def fresh_block_def)

lemma restored_valid:
  assumes "restored_cache d0 pm P bc" "all_intact d0 pm" "b \<in> P"
  shows "bcb_state (blk bc b) \<noteq> S_INVALID \<longleftrightarrow> kept (record_of d0 pm) P b"
proof -
  have i: "block_intact d0 pm b" and blk: "blk bc b = restored_block d0 pm P b"
    using assms by (auto simp: restored_cache_def all_intact_def)
  have "bcb_state (block_of_record (meta_at d0 pm b) (fresh_block b)) \<noteq> S_INVALID" if k: "kept (record_of d0 pm) P b"
  proof -
    obtain p where "record_of d0 pm b = Some p" using keptD(2) [OF k] by blast
    then show ?thesis using record_block_wf(2) [OF i] record_of_meta [of d0 pm b] by auto
  qed
  then show ?thesis unfolding blk restored_block_def by simp
qed

lemma fill_lookup:
  assumes "fill_inv P bc"
  shows "\<exists>r g. cache_rb_lookup bc s = Some (r, upd_stats g bc) \<and>
    (case r of Some c \<Rightarrow> c \<in> P \<and> bcb_state (blk bc c) \<noteq> S_INVALID \<and> sector_of bc c = s
             | None \<Rightarrow> \<forall>c \<in> P. bcb_state (blk bc c) \<noteq> S_INVALID \<longrightarrow> sector_of bc c \<noteq> s)"
proof -
  obtain r bc' where r: "cache_rb_lookup bc s = Some (r, bc')"
      "case r of Some v \<Rightarrow> v \<in> set (inorder (bc_rb_root bc)) \<and> sector_of bc v = s
       | None \<Rightarrow> s \<notin> sector_of bc ` set (inorder (bc_rb_root bc))"
    using rb_lookup_spec [OF fill_inv_rb_inv [OF assms], of s] by blast
  have tree: "set (inorder (bc_rb_root bc)) = {b \<in> P. bcb_state (blk bc b) \<noteq> S_INVALID}"
    using assms fill_inv_stable [OF assms] by (auto simp: fill_inv_def list_of_def in_state_def)
  show ?thesis
    using r rb_lookup_stats [OF r(1)] unfolding tree by (auto split: option.splits)
qed

lemma upd_block_twice [simp]: "upd_block (\<lambda>_. c) b (upd_block (\<lambda>_. c') b bc) = upd_block (\<lambda>_. c) b bc"
  by (simp add: upd_block_def)

lemma fill_frameD:
  assumes "fill_frame bc bc'"
  shows "bc_env bc' = bc_env bc" "bc_lm_cache_blocks bc' = bc_lm_cache_blocks bc" "bc_xid bc' = bc_xid bc"
    "bittern_cache_ok_unsized bc' = bittern_cache_ok_unsized bc"
  using assms by (simp_all add: fill_frame_def bittern_cache_ok_unsized_def)

lemma fill_frame_trans: "fill_frame a b \<Longrightarrow> fill_frame b c \<Longrightarrow> fill_frame a c"
  by (simp add: fill_frame_def)

lemma fill_frame_upd [simp]:
  "fill_frame (upd_block f b bc) bc' = fill_frame bc bc'" "fill_frame (upd_stats g bc) bc' = fill_frame bc bc'"
  by (simp_all add: fill_frame_def)

lemma header_fits_size_cong: "header_fits papi d pm \<Longrightarrow> pd_size d' = pd_size d \<Longrightarrow> header_fits papi d' pm"
  by (simp add: header_fits_def)

text \<open>A block being restored: the state before, and that the descriptor has been filled in.\<close>

definition restoring ::
  "papi_ops \<Rightarrow> ctr_env \<Rightarrow> pmem_dev \<Rightarrow> pmem_header \<Rightarrow> nat set \<Rightarrow> nat \<Rightarrow> ctr_state \<Rightarrow> bool" where
  "restoring papi env d0 pm P b st \<longleftrightarrow>
     env_healthy (ce_restore env) \<and> env_healthy (ce_init env) \<and> header_fits papi d0 pm \<and>
     all_intact d0 pm \<and> distinct_copies (record_of d0 pm) P \<and> b \<in> {1 .. nblocks pm} - P \<and>
     (case st of (d, pa, bc) \<Rightarrow> papi_hdr pa = pm \<and> restored_dev d0 pm P d \<and> restored_cache d0 pm P bc)"

definition restored_to ::
  "pmem_dev \<Rightarrow> pmem_header \<Rightarrow> nat set \<Rightarrow> bittern_cache \<Rightarrow> (int \<times> ctr_state) option \<Rightarrow> bool" where
  "restored_to d0 pm P bc r \<longleftrightarrow>
     (\<exists>d' pa' bc'. r = Some (0, d', pa', bc') \<and> papi_hdr pa' = pm \<and> restored_dev d0 pm P d' \<and>
        restored_cache d0 pm P bc' \<and> fill_frame bc bc')"

lemma restored_cacheI:
  assumes "restored_cache d0 pm P bc" "fill_inv (insert b P) bc'" "fill_frame bc bc'" "b \<in> {1 .. nblocks pm}"
    and "\<And>c. c \<in> insert b P \<Longrightarrow> blk bc' c = restored_block d0 pm (insert b P) c"
  shows "restored_cache d0 pm (insert b P) bc'"
  using assms by (simp add: restored_cache_def fill_frame_def)

context pmem_device
begin

lemma restoringD:
  assumes "restoring papi env d0 pm P b (d, pa, bc)"
  shows "header_fits papi d (papi_hdr pa)" "1 \<le> b" "b \<le> nblocks (papi_hdr pa)" "b \<notin> P"
    "block_intact d pm b" "record_of d pm b = record_of d0 pm b" "fill_inv P bc" "papi_hdr pa = pm"
    "restored_dev d0 pm P d" "restored_cache d0 pm P bc" "all_intact d0 pm" "P \<subseteq> {1 .. nblocks pm}"
    "distinct_copies (record_of d0 pm) P"
proof -
  have "meta_at d pm b = meta_at d0 pm b" "data_at d pm b = data_at d0 pm b"
    using assms by (auto simp: restoring_def restored_dev_def)
  from same_record [OF this] show "block_intact d pm b" "record_of d pm b = record_of d0 pm b"
    using assms by (auto simp: restoring_def all_intact_def)
  show "header_fits papi d (papi_hdr pa)"
    using assms by (auto simp: restoring_def restored_dev_def intro: header_fits_size_cong)
qed (use assms in \<open>auto simp: restoring_def restored_cache_def\<close>)

lemma initialize_block_ok:
  assumes "restoring papi env d0 pm P b (d, pa, bc)"
  shows "cache_block_initialize bc b = Some (upd_block (\<lambda>_. fresh_block b) b bc)"
  using restoringD [OF assms] by (simp add: cache_block_initialize_def fill_inv_def restored_cache_def)

lemma restore_block_start:
  assumes r: "restoring papi env d0 pm P b (d, pa, bc)" and p: "record_of d0 pm b = Some p"
  shows "\<exists>pa'. papi_hdr pa' = pm \<and> cache_ctr_restore_block dbg papi env b (d, pa, bc) =
    cache_ctr_restore_valid dbg papi env b (d, pa', upd_block (\<lambda>_. block_of_record p (fresh_block b)) b bc)"
proof -
  note D = restoringD [OF r]
  have env: "env_healthy (ce_restore env)" using r by (simp add: restoring_def)
  have i: "block_intact d (papi_hdr pa) b" using D by simp
  from block_restore_healthy [OF env D(1-3) fresh_block_wf(3) i, of dbg] D(6,8) p
  obtain pa' where pa': "pmem_block_restore dbg papi (ce_restore env) d (pa, fresh_block b) =
      Some (1, pa', block_of_record p (fresh_block b))" "papi_hdr pa' = pm" by auto
  moreover have "bcb_state (block_of_record p (fresh_block b)) = S_CLEAN \<or>
      bcb_state (block_of_record p (fresh_block b)) = S_DIRTY"
    using record_block_wf(2) [OF D(5)] D(6) p by simp
  ultimately show ?thesis
    by (intro exI [of _ pa']) (auto simp: cache_ctr_restore_block_def initialize_block_ok [OF r] Let_def)
qed

lemma init_drop:
  assumes r: "restoring papi env d0 pm P b (d, pa, bc)" and hdr: "papi_hdr pa' = pm"
    and k: "k \<in> insert b P" "\<not> kept (record_of d0 pm) (insert b P) k"
    and kept: "\<And>c. c \<in> P \<Longrightarrow> c \<noteq> k \<Longrightarrow> kept (record_of d0 pm) (insert b P) c = kept (record_of d0 pm) P c"
      "b \<noteq> k \<Longrightarrow> kept (record_of d0 pm) (insert b P) b"
    and bc': "restored_cache d0 pm (insert b P) bc'" "fill_frame bc bc'"
  shows "restored_to d0 pm (insert b P) bc (metadata_initialize_ok dbg papi (ce_init env) k (d, pa', bc'))"
proof -
  note D = restoringD [OF r]
  have env: "env_healthy (ce_init env)" using r by (simp add: restoring_def)
  have "1 \<le> k" "k \<le> nblocks (papi_hdr pa')" using k(1) D(2,3,8,12) hdr by auto
  from metadata_initialize_healthy [OF env _ this, of d dbg] D(1,8) hdr
  obtain d' where d': "pmem_metadata_initialize dbg papi (ce_init env) pa' (of_nat k) d = Some (0, d')"
      "only_metadata pm k d d'" "record_of d' pm k = None" "block_intact d' pm k" by auto
  have "restored_dev d0 pm (insert b P) d'"
    using D k kept d' by (intro restored_dev_drop [of d0 pm P d b k]) auto
  with d'(1) hdr bc' show ?thesis by (simp add: restored_to_def metadata_initialize_ok_def)
qed

lemma restore_block_None:
  assumes r: "restoring papi env d0 pm P b (d, pa, bc)" and p: "record_of d0 pm b = None"
  shows "restored_to d0 pm (insert b P) bc (cache_ctr_restore_block dbg papi env b (d, pa, bc))"
proof -
  note D = restoringD [OF r]
  have env: "env_healthy (ce_restore env)" using r by (simp add: restoring_def)
  have i: "block_intact d (papi_hdr pa) b" using D by simp
  let ?bc = "upd_block (\<lambda>_. fresh_block b) b bc"
  from block_restore_healthy [OF env D(1-3) fresh_block_wf(3) i, of dbg] D(6,8) p
  obtain pa' where pa': "pmem_block_restore dbg papi (ce_restore env) d (pa, fresh_block b) =
      Some (if pmbm_status (meta_at d pm b) = 0 then 1 else 0, pa', fresh_block b)" "papi_hdr pa' = pm" by auto
  obtain bc' where bc': "cache_block_add ?bc b = Some bc'" "fill_inv (insert b P) bc'"
      "bc_cache_blocks bc' = bc_cache_blocks ?bc" "fill_frame bc bc'"
    using block_add_ok [OF fill_inv_upd_block [OF D(7,4)] D(4), of "\<lambda>_. fresh_block b"] by auto
  note same = kept_insert_None [where R = "record_of d0 pm" and b = b and P = P, OF p]
  have rc: "restored_cache d0 pm (insert b P) bc'"
    using D bc' by (intro restored_cacheI [OF D(10)]) (auto simp: restored_block_def same restored_cache_def dest: keptD)
  have notb: "\<not> kept (record_of d0 pm) (insert b P) b" using p by (auto simp: kept_def)
  have step: "cache_ctr_restore_block dbg papi env b (d, pa, bc) =
      (if pmbm_status (meta_at d pm b) = 0 then Some (0, d, pa', bc')
       else metadata_initialize_ok dbg papi (ce_init env) b (d, pa', bc'))"
    using pa' bc'(1)
    by (simp add: cache_ctr_restore_block_def initialize_block_ok [OF r] Let_def is_sector_number_invalid_def
        is_sector_number_valid_def SECTOR_NUMBER_INVALID_def)
  show ?thesis
  proof (cases "pmbm_status (meta_at d pm b) = 0")
    case True
    have "restored_dev d0 pm (insert b P) d"
      using D p same by (intro restored_dev_keep [OF D(9,11,12)]) auto
    with True pa' bc' rc show ?thesis unfolding step by (simp add: restored_to_def)
  next
    case False
    then show ?thesis
      unfolding step using init_drop [OF r pa'(2) _ notb _ _ rc bc'(4)] same by simp
  qed
qed

end

context pmem_device
begin

text \<open>The block holds a record: the descriptor is complete, and the lookup gives the other copy.\<close>

lemma restore_valid_new:
  assumes r: "restoring papi env d0 pm P b (d, pa, bc)" and p: "record_of d0 pm b = Some p"
    and hdr: "papi_hdr pa' = pm" and bc1: "bc1 = upd_block (\<lambda>_. block_of_record p (fresh_block b)) b bc"
    and look: "cache_rb_lookup bc1 (pmbm_device_sector p) = Some (None, upd_stats g bc1)"
    and none: "\<And>c q. c \<in> P \<Longrightarrow> record_of d0 pm c = Some q \<Longrightarrow> pmbm_device_sector q \<noteq> pmbm_device_sector p"
  shows "restored_to d0 pm (insert b P) bc (cache_ctr_restore_valid dbg papi env b (d, pa', bc1))"
proof -
  note D = restoringD [OF r]
  note wf = record_block_wf [OF D(5) p [folded D(6)]]
  have fill: "fill_inv P (upd_stats g bc1)" using fill_inv_upd_block [OF D(7,4)] bc1 by simp
  obtain bc' where bc': "cache_block_add (upd_stats g bc1) b = Some bc'" "fill_inv (insert b P) bc'"
      "bc_cache_blocks bc' = bc_cache_blocks bc1" "fill_frame bc bc'"
    using block_add_ok [OF fill D(4)] wf bc1 by auto
  have kept: "kept (record_of d0 pm) (insert b P) c \<longleftrightarrow> c = b \<or> kept (record_of d0 pm) P c" for c
    using none by (intro kept_insert_new [where R = "record_of d0 pm", OF p D(4)]) blast
  have "restored_cache d0 pm (insert b P) bc'"
    using D bc' record_of_meta [OF p] bc1
    by (intro restored_cacheI [OF D(10)]) (auto simp: restored_block_def kept restored_cache_def)
  moreover have "restored_dev d0 pm (insert b P) d"
    using D kept by (intro restored_dev_keep [OF D(9,11,12)]) auto
  ultimately show ?thesis
    using look wf(3) bc' hdr bc1
    by (simp add: cache_ctr_restore_valid_def restored_to_def)
qed

lemma restore_valid_loser:
  assumes r: "restoring papi env d0 pm P b (d, pa, bc)" and p: "record_of d0 pm b = Some p"
    and hdr: "papi_hdr pa' = pm" and bc1: "bc1 = upd_block (\<lambda>_. block_of_record p (fresh_block b)) b bc"
    and look: "cache_rb_lookup bc1 (pmbm_device_sector p) = Some (Some k, upd_stats g bc1)"
    and k: "kept (record_of d0 pm) P k" "record_of d0 pm k = Some q" "pmbm_device_sector q = pmbm_device_sector p"
    and less: "pmbm_xid p < pmbm_xid q"
  shows "restored_to d0 pm (insert b P) bc (cache_ctr_restore_valid dbg papi env b (d, pa', bc1))"
proof -
  note D = restoringD [OF r]
  note wf = record_block_wf [OF D(5) p [folded D(6)]]
  have kP: "k \<in> P" "k \<noteq> b" using keptD [OF k(1)] D(4) by auto
  have "block_intact d0 pm k" using D(11,12) kP(1) by (auto simp: all_intact_def)
  note wk = record_block_wf [OF this k(2)]
  have blk_k: "blk bc1 k = block_of_record q (fresh_block k)" "blk bc1 b = block_of_record p (fresh_block b)"
    using D(10) kP k record_of_meta [OF k(2)] bc1 by (auto simp: restored_cache_def restored_block_def)
  have fill: "fill_inv P (upd_stats g bc1)" using fill_inv_upd_block [OF D(7,4)] bc1 by simp
  obtain bc2 where bc2: "cache_block_add (upd_stats g bc1) b = Some bc2" "fill_inv (insert b P) bc2"
      "bc_cache_blocks bc2 = bc_cache_blocks bc1" "fill_frame bc bc2"
    using block_add_ok [OF fill D(4)] wf bc1 by auto
  have "bcb_state (blk bc2 b) \<noteq> S_INVALID" using wf(2) bc2(3) blk_k by auto
  from block_invalidate_ok [OF bc2(2) _ this]
  obtain bc3 where bc3: "cache_block_invalidate bc2 b = Some bc3" "fill_inv (insert b P) bc3"
      "bc_cache_blocks bc3 = (bc_cache_blocks bc1)(b := fresh_block b)" "fill_frame bc bc3"
    using bc2 blk_k by (auto dest: fill_frame_trans)
  note kept = kept_insert_loser [where R = "record_of d0 pm", OF p D(4) k less]
  have rc: "restored_cache d0 pm (insert b P) bc3"
    using D bc3 bc1
    by (intro restored_cacheI [OF D(10)]) (auto simp: restored_block_def kept restored_cache_def dest: keptD)
  have nk: "\<not> kept (record_of d0 pm) (insert b P) b" using kept [of b] D(4) by (auto dest: keptD)
  have "cache_ctr_restore_valid dbg papi env b (d, pa', bc1) =
      metadata_initialize_ok dbg papi (ce_init env) b (d, pa', bc3)"
    using look wf(3) wk(2,3) bc2(1) bc3(1) blk_k k(3) less
    by (auto simp: cache_ctr_restore_valid_def)
  then show ?thesis using init_drop [OF r hdr _ nk _ _ rc bc3(4)] kept by simp
qed

lemma restore_valid_winner:
  assumes r: "restoring papi env d0 pm P b (d, pa, bc)" and p: "record_of d0 pm b = Some p"
    and hdr: "papi_hdr pa' = pm" and bc1: "bc1 = upd_block (\<lambda>_. block_of_record p (fresh_block b)) b bc"
    and look: "cache_rb_lookup bc1 (pmbm_device_sector p) = Some (Some k, upd_stats g bc1)"
    and k: "kept (record_of d0 pm) P k" "record_of d0 pm k = Some q" "pmbm_device_sector q = pmbm_device_sector p"
    and less: "pmbm_xid q < pmbm_xid p"
  shows "restored_to d0 pm (insert b P) bc (cache_ctr_restore_valid dbg papi env b (d, pa', bc1))"
proof -
  note D = restoringD [OF r]
  note wf = record_block_wf [OF D(5) p [folded D(6)]]
  have kP: "k \<in> P" "k \<noteq> b" using keptD [OF k(1)] D(4) by auto
  have "block_intact d0 pm k" using D(11,12) kP(1) by (auto simp: all_intact_def)
  note wk = record_block_wf [OF this k(2)]
  have blk_k: "blk bc1 k = block_of_record q (fresh_block k)" "blk bc1 b = block_of_record p (fresh_block b)"
    using D(10) kP k record_of_meta [OF k(2)] bc1 by (auto simp: restored_cache_def restored_block_def)
  have fill: "fill_inv P (upd_stats g bc1)" using fill_inv_upd_block [OF D(7,4)] bc1 by simp
  have "bcb_state (blk (upd_stats g bc1) k) \<noteq> S_INVALID" using wk(2) blk_k by auto
  from block_invalidate_ok [OF fill kP(1) this]
  obtain bc2 where bc2: "cache_block_invalidate (upd_stats g bc1) k = Some bc2" "fill_inv P bc2"
      "bc_cache_blocks bc2 = (bc_cache_blocks bc1)(k := fresh_block k)" "fill_frame bc bc2"
    using blk_k bc1 by auto
  obtain bc3 where bc3: "cache_block_add bc2 b = Some bc3" "fill_inv (insert b P) bc3"
      "bc_cache_blocks bc3 = bc_cache_blocks bc2" "fill_frame bc bc3"
    using block_add_ok [OF bc2(2) D(4)] wf kP(2) blk_k bc2(3) fill_frame_trans [OF bc2(4)] by auto
  note kept = kept_insert_winner [where R = "record_of d0 pm", OF D(13) p D(4) k less]
  have rc: "restored_cache d0 pm (insert b P) bc3"
    using D bc3 bc2 bc1 kP record_of_meta [OF p]
    by (intro restored_cacheI [OF D(10)]) (auto simp: restored_block_def kept restored_cache_def dest: keptD)
  have nk: "\<not> kept (record_of d0 pm) (insert b P) k" using kept [of k] kP by simp
  have kb: "kept (record_of d0 pm) (insert b P) b" using kept by simp
  have "cache_ctr_restore_valid dbg papi env b (d, pa', bc1) =
      metadata_initialize_ok dbg papi (ce_init env) k (d, pa', bc3)"
    using look wf(3) wk(2,3) bc2(1) bc3(1) blk_k k(3) less
    by (auto simp: cache_ctr_restore_valid_def)
  then show ?thesis using init_drop [OF r hdr _ nk _ kb rc bc3(4)] kept kP D(4) by auto
qed

lemma restore_block_ok:
  assumes r: "restoring papi env d0 pm P b (d, pa, bc)" and dist: "distinct_copies (record_of d0 pm) (insert b P)"
  shows "restored_to d0 pm (insert b P) bc (cache_ctr_restore_block dbg papi env b (d, pa, bc))"
proof (cases "record_of d0 pm b")
  case None
  then show ?thesis by (rule restore_block_None [OF r])
next
  case (Some p)
  note D = restoringD [OF r]
  let ?bc = "upd_block (\<lambda>_. block_of_record p (fresh_block b)) b bc"
  obtain pa' where hdr: "papi_hdr pa' = pm" and start: "cache_ctr_restore_block dbg papi env b (d, pa, bc) =
      cache_ctr_restore_valid dbg papi env b (d, pa', ?bc)"
    using restore_block_start [OF r Some] by blast
  have fin: "finite P" using D(7) by (simp add: fill_inv_def)
  have valid: "bcb_state (blk ?bc c) \<noteq> S_INVALID \<longleftrightarrow> kept (record_of d0 pm) P c" if "c \<in> P" for c
    using restored_valid [OF D(10,11) that] that D(4) by auto
  have sec: "sector_of ?bc c = pmbm_device_sector q" if "kept (record_of d0 pm) P c" "record_of d0 pm c = Some q" for c q
    using that D(4,10) keptD(1) [OF that(1)] record_of_meta [OF that(2)]
    by (auto simp: restored_cache_def restored_block_def)
  obtain old g where look: "cache_rb_lookup ?bc (pmbm_device_sector p) = Some (old, upd_stats g ?bc)"
    and old: "case old of Some c \<Rightarrow> c \<in> P \<and> bcb_state (blk ?bc c) \<noteq> S_INVALID \<and> sector_of ?bc c = pmbm_device_sector p
       | None \<Rightarrow> \<forall>c \<in> P. bcb_state (blk ?bc c) \<noteq> S_INVALID \<longrightarrow> sector_of ?bc c \<noteq> pmbm_device_sector p"
    using fill_lookup [OF fill_inv_upd_block [OF D(7,4)], of _ "pmbm_device_sector p"] by blast
  show ?thesis
  proof (cases old)
    case None
    have "pmbm_device_sector q \<noteq> pmbm_device_sector p" if c: "c \<in> P" "record_of d0 pm c = Some q" for c q
    proof -
      obtain k s where "kept (record_of d0 pm) P k" "record_of d0 pm k = Some s"
          "pmbm_device_sector s = pmbm_device_sector q" using kept_exists [where R = "record_of d0 pm", OF fin c] .
      with old None valid sec show ?thesis by (auto dest: keptD)
    qed
    with restore_valid_new [OF r Some hdr refl look [unfolded None]] show ?thesis unfolding start by blast
  next
    case k: (Some k)
    then have kept: "kept (record_of d0 pm) P k" using old valid by auto
    then obtain q where q: "record_of d0 pm k = Some q" by (auto dest: keptD)
    have same: "pmbm_device_sector q = pmbm_device_sector p" using sec [OF kept q] old k by simp
    have "pmbm_xid q \<noteq> pmbm_xid p"
      using D(4) keptD(1) [OF kept] by (intro distinct_copiesD [OF dist _ _ _ q Some same]) auto
    then consider "pmbm_xid p < pmbm_xid q" | "pmbm_xid q < pmbm_xid p" by force
    then show ?thesis
      unfolding start
      using restore_valid_loser [OF r Some hdr refl look [unfolded k] kept q same]
        restore_valid_winner [OF r Some hdr refl look [unfolded k] kept q same] by cases blast+
  qed
qed

end

section \<open>Restoring all blocks\<close>

text \<open>The state after the blocks of a set have been restored.\<close>

definition restored_state :: "pmem_dev \<Rightarrow> pmem_header \<Rightarrow> nat set \<Rightarrow> ctr_state \<Rightarrow> bool" where
  "restored_state d0 pm P = (\<lambda>(d, pa, bc).
     papi_hdr pa = pm \<and> restored_dev d0 pm P d \<and> restored_cache d0 pm P bc \<and>
     (\<forall>b \<in> P. \<forall>p. record_of d0 pm b = Some p \<longrightarrow> pmbm_xid p \<le> bc_xid bc))"

definition ctr_env_healthy :: "ctr_env \<Rightarrow> bool" where
  "ctr_env_healthy env \<longleftrightarrow> env_healthy (ce_restore env) \<and> env_healthy (ce_init env)"

lemma fill_inv_xid [simp]: "fill_inv P (bc\<lparr> bc_xid := x \<rparr>) = fill_inv P bc"
  by (simp add: fill_inv_def bittern_cache_ok_unsized_def)

lemma restored_cache_xid [simp]: "restored_cache d0 pm P (bc\<lparr> bc_xid := x \<rparr>) = restored_cache d0 pm P bc"
  by (simp add: restored_cache_def)

text \<open>After a block has been added, no record that was read has a higher id than the cache.\<close>

lemma restored_xids:
  assumes old: "\<forall>c \<in> P. \<forall>q. record_of d0 pm c = Some q \<longrightarrow> pmbm_xid q \<le> x"
    and rc: "restored_cache d0 pm (insert b P) bc" and fin: "finite P" "b \<notin> P"
    and c: "c \<in> insert b P" "record_of d0 pm c = Some q"
  shows "pmbm_xid q \<le> max x (bcb_xid (blk bc b))"
proof (cases "c = b")
  case True
  have "finite (insert b P)" using fin by simp
  then obtain k p where k: "kept (record_of d0 pm) (insert b P) k"
      "record_of d0 pm k = Some p" "pmbm_xid q \<le> pmbm_xid p"
    using kept_exists [of "insert b P" c "record_of d0 pm" q] c by metis
  have "pmbm_xid p \<le> max x (bcb_xid (blk bc b))"
  proof (cases "k = b")
    case True
    then have "blk bc b = block_of_record p (fresh_block b)"
      using rc k record_of_meta [OF k(2)] by (auto simp: restored_cache_def restored_block_def)
    then show ?thesis by simp
  qed (use old k keptD(1) [OF k(1)] in \<open>auto simp: max_def\<close>)
  with k(3) show ?thesis by simp
next
  case False
  with old c show ?thesis by (auto simp: le_max_iff_disj)
qed

context pmem_device
begin

lemma restore_one:
  assumes env: "ctr_env_healthy env" and pm: "header_fits papi d0 pm" and ok: "all_intact d0 pm"
    and dist: "distinct_copies (record_of d0 pm) (insert b P)"
    and st: "restored_state d0 pm P st" and b: "b \<in> {1 .. nblocks pm} - P"
  shows "\<exists>st'. cache_ctr_restore_or_init_block dbg papi CACHE_DEVICE_OP_RESTORE env b st = Some (0, st') \<and>
    restored_state d0 pm (insert b P) st'"
proof -
  obtain d pa bc where st': "st = (d, pa, bc)" by (cases st)
  have r: "restoring papi env d0 pm P b (d, pa, bc)"
    using assms st' distinct_copies_subset [OF dist, of P]
    by (auto simp: restoring_def restored_state_def ctr_env_healthy_def)
  obtain d' pa' bc' where *: "cache_ctr_restore_block dbg papi env b (d, pa, bc) = Some (0, d', pa', bc')"
      "papi_hdr pa' = pm" "restored_dev d0 pm (insert b P) d'" "restored_cache d0 pm (insert b P) bc'" "fill_frame bc bc'"
    using restore_block_ok [OF r dist, of dbg] by (auto simp: restored_to_def)
  let ?bc = "if bcb_xid (blk bc' b) > bc_xid bc' then bc'\<lparr> bc_xid := bcb_xid (blk bc' b) \<rparr> else bc'"
  have "fill_inv (insert b P) bc'" using *(4) by (simp add: restored_cache_def)
  then have wf: "cache_block_ok_unbounded ?bc b"
    by (simp add: fill_inv_def cache_block_ok_unbounded_def block_wf_def)
  have xid: "bc_xid ?bc = max (bc_xid bc) (bcb_xid (blk bc' b))"
    using *(5) by (auto simp: fill_frame_def max_def)
  have fin: "finite P" "b \<notin> P" using restoringD(4,7) [OF r] by (simp_all add: fill_inv_def)
  have "pmbm_xid q \<le> bc_xid ?bc" if "c \<in> insert b P" "record_of d0 pm c = Some q" for c q
    unfolding xid using st st' by (intro restored_xids [OF _ *(4) fin that]) (auto simp: restored_state_def)
  moreover have "restored_cache d0 pm (insert b P) ?bc" using *(4) by simp
  ultimately have "restored_state d0 pm (insert b P) (d', pa', ?bc)"
    using *(2,3) unfolding restored_state_def prod.case by blast
  moreover have "cache_ctr_restore_or_init_block dbg papi CACHE_DEVICE_OP_RESTORE env b st = Some (0, d', pa', ?bc)"
    using *(1) wf unfolding st' by (simp add: cache_ctr_restore_or_init_block_def Let_def)
  ultimately show ?thesis by blast
qed

end

lemma restored_state_empty:
  assumes "empty_cache bc" "rbtree_kernel (bc_env bc)" "bittern_cache_ok_unsized bc"
    "bc_lm_cache_blocks bc = nblocks (papi_hdr pa)"
  shows "restored_state d (papi_hdr pa) {} (d, pa, bc)"
  using assms
  by (simp add: restored_state_def restored_dev_def restored_cache_def fill_inv_def empty_cache_def
      list_of_def in_state_def kept_def)

lemma stable_classes:
  "clean_state S_CLEAN" "\<not> clean_state S_DIRTY" "\<not> dirty_state S_CLEAN" "dirty_state S_DIRTY"
  "\<not> writeback_state S_CLEAN" "\<not> writeback_state S_DIRTY" "\<not> writeback_state S_INVALID"
  "\<not> writeback_inv_state S_CLEAN" "\<not> writeback_inv_state S_DIRTY" "\<not> writeback_inv_state S_INVALID"
  by (simp_all add: clean_state_def dirty_state_def writeback_state_def writeback_inv_state_def)

text \<open>Once all blocks are there, and no two have the same sector, the cache can run.\<close>

lemma fill_inv_cache_inv:
  assumes inv: "fill_inv {1 .. n} bc" and n: "0 < n" "bc_lm_cache_blocks bc = n"
    and inj: "\<And>b c. b \<in> {1 .. n} \<Longrightarrow> c \<in> {1 .. n} \<Longrightarrow> bcb_state (blk bc b) \<noteq> S_INVALID \<Longrightarrow>
      bcb_state (blk bc c) \<noteq> S_INVALID \<Longrightarrow> bcb_sector (blk bc b) = bcb_sector (blk bc c) \<Longrightarrow> b = c"
  shows "cache_inv bc"
proof -
  have total: "bc_total_entries bc = n" using inv by (simp add: fill_inv_def)
  then have ids: "block_ids bc = {1 .. n}" by (simp add: block_ids_def)
  have mem: "members Q bc = {b \<in> {1 .. n}. Q (bcb_state (blk bc b))}" for Q by (simp add: members_def ids)
  have class_eq: "clean_state (bcb_state (blk bc b)) \<longleftrightarrow> bcb_state (blk bc b) = S_CLEAN"
    "dirty_state (bcb_state (blk bc b)) \<longleftrightarrow> bcb_state (blk bc b) = S_DIRTY"
    "bcb_state (blk bc b) \<noteq> S_INVALID \<longleftrightarrow> bcb_state (blk bc b) = S_CLEAN \<or> bcb_state (blk bc b) = S_DIRTY"
    "\<not> writeback_state (bcb_state (blk bc b))" "\<not> writeback_inv_state (bcb_state (blk bc b))"
    if "b \<in> {1 .. n}" for b
    using fill_inv_stable [OF inv that] by (elim disjE; simp add: stable_classes)+
  have cls: "members (\<lambda>s. s = S_INVALID) bc = in_state bc {1 .. n} S_INVALID"
    "valid_members bc = in_state bc {1 .. n} S_CLEAN \<union> in_state bc {1 .. n} S_DIRTY"
    "members (\<lambda>s. s \<noteq> S_INVALID \<and> \<not> writeback_inv_state s) bc = in_state bc {1 .. n} S_CLEAN \<union> in_state bc {1 .. n} S_DIRTY"
    "members clean_state bc = in_state bc {1 .. n} S_CLEAN"
    "members dirty_state bc = in_state bc {1 .. n} S_DIRTY"
    "members (\<lambda>s. dirty_state s \<and> \<not> writeback_state s) bc = in_state bc {1 .. n} S_DIRTY"
    unfolding mem in_state_def using class_eq by blast+
  have len: "length xs = card A" if "list_of xs A" for xs and A :: "nat set"
    using that by (auto simp: list_of_def distinct_card)
  have "lists_inv bc" "index_inv bc" using inv unfolding lists_inv_def index_inv_def cls by (simp_all add: fill_inv_def)
  moreover have "counters_inv bc"
    using inv unfolding counters_inv_def cls fill_inv_def by (auto simp: len)
  moreover have "sectors_inv bc" unfolding sectors_inv_def mem using inj by blast
  ultimately show ?thesis
    using inv n total by (auto simp: cache_inv_def ids fill_inv_def bittern_cache_ok_def bittern_cache_ok_unsized_def)
qed

lemma restored_cache_inv:
  assumes "restored_state d0 pm {1 .. nblocks pm} (d, pa, bc)" "all_intact d0 pm" "0 < nblocks pm"
    "distinct_copies (record_of d0 pm) {1 .. nblocks pm}"
  shows "cache_inv bc"
proof (rule fill_inv_cache_inv [of "nblocks pm"])
  have rc: "restored_cache d0 pm {1 .. nblocks pm} bc" using assms by (simp add: restored_state_def)
  then show "fill_inv {1 .. nblocks pm} bc" "bc_lm_cache_blocks bc = nblocks pm" by (simp_all add: restored_cache_def)
  fix b c assume bc: "b \<in> {1 .. nblocks pm}" "c \<in> {1 .. nblocks pm}" "bcb_state (blk bc b) \<noteq> S_INVALID"
    "bcb_state (blk bc c) \<noteq> S_INVALID" "bcb_sector (blk bc b) = bcb_sector (blk bc c)"
  then have k: "kept (record_of d0 pm) {1 .. nblocks pm} b" "kept (record_of d0 pm) {1 .. nblocks pm} c"
    using restored_valid [OF rc assms(2)] by auto
  then obtain p q where r: "record_of d0 pm b = Some p" "record_of d0 pm c = Some q"
    using keptD(2) [OF k(1)] keptD(2) [OF k(2)] by blast
  have "pmbm_device_sector p = pmbm_device_sector q"
    using rc bc k record_of_meta [OF r(1)] record_of_meta [OF r(2)] by (auto simp: restored_cache_def restored_block_def)
  then show "b = c" using kept_unique [OF _ k r] assms(4) by simp
qed (rule assms(3))

section \<open>Two copies with the same transaction id\<close>

context pmem_device
begin

lemma restore_conflict:
  assumes env: "ctr_env_healthy env" and pm: "header_fits papi d0 pm" "all_intact d0 pm"
    and dist: "distinct_copies (record_of d0 pm) P"
    and st: "restored_state d0 pm P st" and b: "b \<in> {1 .. nblocks pm} - P" and p: "record_of d0 pm b = Some p"
    and k: "kept (record_of d0 pm) P k" "record_of d0 pm k = Some q" "pmbm_device_sector q = pmbm_device_sector p"
      "pmbm_xid q = pmbm_xid p"
  shows "\<exists>st'. cache_ctr_restore_or_init_block dbg papi CACHE_DEVICE_OP_RESTORE env b st = Some (- EL2NSYNC, st') \<and>
    fst st' = fst st"
proof -
  obtain d pa bc where st': "st = (d, pa, bc)" by (cases st)
  have r: "restoring papi env d0 pm P b (d, pa, bc)"
    using assms st' by (auto simp: restoring_def restored_state_def ctr_env_healthy_def)
  note D = restoringD [OF r]
  note wf = record_block_wf [OF D(5) p [folded D(6)]]
  let ?bc = "upd_block (\<lambda>_. block_of_record p (fresh_block b)) b bc"
  have kP: "k \<in> P" "k \<noteq> b" using keptD [OF k(1)] D(4) by auto
  have blks: "blk ?bc c = restored_block d0 pm P c" if "c \<in> P" for c
    using D(4,10) that by (auto simp: restored_cache_def)
  have val: "bcb_state (blk ?bc c) \<noteq> S_INVALID \<longleftrightarrow> kept (record_of d0 pm) P c" if "c \<in> P" for c
    using restored_valid [OF D(10,11) that] that D(4) by auto
  obtain pa' where start: "cache_ctr_restore_block dbg papi env b (d, pa, bc) =
      cache_ctr_restore_valid dbg papi env b (d, pa', ?bc)"
    using restore_block_start [OF r p] by blast
  obtain old g where look: "cache_rb_lookup ?bc (pmbm_device_sector p) = Some (old, upd_stats g ?bc)"
    and old: "case old of Some c \<Rightarrow> c \<in> P \<and> bcb_state (blk ?bc c) \<noteq> S_INVALID \<and> sector_of ?bc c = pmbm_device_sector p
       | None \<Rightarrow> \<forall>c \<in> P. bcb_state (blk ?bc c) \<noteq> S_INVALID \<longrightarrow> sector_of ?bc c \<noteq> pmbm_device_sector p"
    using fill_lookup [OF fill_inv_upd_block [OF D(7,4)], of _ "pmbm_device_sector p"] by blast
  have sec: "blk ?bc c = block_of_record s (fresh_block c)" if "kept (record_of d0 pm) P c" "record_of d0 pm c = Some s" for c s
    using blks [OF keptD(1) [OF that(1)]] that record_of_meta [OF that(2)] by (simp add: restored_block_def)
  have old: "old = Some k"
  proof (cases old)
    case None
    with old val [OF kP(1)] sec [OF k(1,2)] k kP show ?thesis by auto
  next
    case (Some c)
    with old val have c: "kept (record_of d0 pm) P c" "sector_of ?bc c = pmbm_device_sector p" by auto
    then obtain s where "record_of d0 pm c = Some s" by (auto dest: keptD)
    with kept_unique [OF dist k(1) c(1) k(2) this] sec [OF c(1) this] c(2) k(3) Some show ?thesis by simp
  qed
  have "block_intact d0 pm k" using D(11,12) kP(1) by (auto simp: all_intact_def)
  note wk = record_block_wf [OF this k(2)]
  have fill: "fill_inv P (upd_stats g ?bc)" using fill_inv_upd_block [OF D(7,4)] by simp
  obtain bc2 where bc2: "cache_block_add (upd_stats g ?bc) b = Some bc2" "fill_inv (insert b P) bc2"
      "bc_cache_blocks bc2 = bc_cache_blocks ?bc"
    using block_add_ok [OF fill D(4)] wf by auto
  have "bcb_state (blk bc2 b) \<noteq> S_INVALID" using wf(2) bc2(3) by auto
  from block_invalidate_ok [OF bc2(2) _ this] obtain bc3 where bc3: "cache_block_invalidate bc2 b = Some bc3" by auto
  have "cache_ctr_restore_valid dbg papi env b (d, pa', ?bc) = Some (- EL2NSYNC, d, pa', bc3)"
    using look old wf(3) wk(2,3) bc2(1) bc3 k sec [OF k(1,2)] kP(2)
    by (auto simp: cache_ctr_restore_valid_def)
  then show ?thesis
    unfolding st' using start by (simp add: cache_ctr_restore_or_init_block_def EL2NSYNC_def)
qed

end

section \<open>A restore that is interrupted\<close>

text \<open>
  A device that a restore of the blocks of a set may leave behind when it is interrupted: every
  block has its data and either its old metadata or, if its record is not one to keep, the
  metadata of an unused block.
\<close>

definition partly_restored_dev :: "pmem_dev \<Rightarrow> pmem_header \<Rightarrow> nat set \<Rightarrow> pmem_dev \<Rightarrow> bool" where
  "partly_restored_dev d0 pm P d \<longleftrightarrow> pd_size d = pd_size d0 \<and>
     (\<forall>b \<in> {1 .. nblocks pm}. data_at d pm b = data_at d0 pm b \<and>
        (meta_at d pm b = meta_at d0 pm b \<or>
         b \<in> P \<and> \<not> kept (record_of d0 pm) P b \<and> record_of d pm b = None \<and> block_intact d pm b))"

lemma partly_restored_dev_records:
  assumes "partly_restored_dev d0 pm P d" "b \<in> {1 .. nblocks pm}"
  shows "record_of d pm b = record_of d0 pm b \<or> b \<in> P \<and> \<not> kept (record_of d0 pm) P b \<and> record_of d pm b = None"
    "all_intact d0 pm \<Longrightarrow> block_intact d pm b"
  using assms(1) [unfolded partly_restored_dev_def, THEN conjunct2, THEN bspec, OF assms(2)]
    same_record [of d pm b d0] assms(2) by (auto simp: all_intact_def)

lemma kept_partly_restored:
  assumes d: "partly_restored_dev d0 pm P d" and P: "P \<subseteq> {1 .. nblocks pm}"
  defines "N \<equiv> {1 .. nblocks pm}"
  shows "kept (record_of d pm) N b = kept (record_of d0 pm) N b"
proof
  note R = partly_restored_dev_records(1) [OF d, folded N_def]
  have kept_P: "kept (record_of d0 pm) P b" if "b \<in> P" "kept (record_of d0 pm) N b" for b
    using that P by (auto simp: kept_def N_def)
  have same: "record_of d pm b = record_of d0 pm b" if "kept (record_of d0 pm) N b" for b
    using R [OF keptD(1) [OF that]] kept_P [OF _ that] by blast
  have sub: "record_of d0 pm c = Some q" if "c \<in> N" "record_of d pm c = Some q" for c q
    using R [OF that(1)] that(2) by auto
  show "kept (record_of d pm) N b" if b: "kept (record_of d0 pm) N b"
    using b same [OF b] sub unfolding kept_def by (metis (no_types, lifting))
  assume b: "kept (record_of d pm) N b"
  then obtain p where p: "b \<in> N" "record_of d pm b = Some p" by (auto dest: keptD)
  have "pmbm_xid q \<le> pmbm_xid p"
    if c: "c \<in> N" "record_of d0 pm c = Some q" "pmbm_device_sector q = pmbm_device_sector p" for c q
  proof -
    obtain k s where k: "kept (record_of d0 pm) N k" "record_of d0 pm k = Some s"
        "pmbm_device_sector s = pmbm_device_sector q" "pmbm_xid q \<le> pmbm_xid s"
      using kept_exists [of N c "record_of d0 pm" q] c unfolding N_def by (metis finite_atLeastAtMost)
    from kept_max [OF b p(2) keptD(1) [OF k(1)]] same [OF k(1)] k c show ?thesis by simp
  qed
  with p(1) sub [OF p] show "kept (record_of d0 pm) N b" unfolding kept_def by blast
qed

lemma partly_restored_dev_restorable:
  assumes d: "partly_restored_dev d0 pm P d" and P: "P \<subseteq> {1 .. nblocks pm}" and ok: "all_intact d0 pm"
    and dist: "distinct_copies (record_of d0 pm) {1 .. nblocks pm}"
  shows "all_intact d pm" "distinct_copies (record_of d pm) {1 .. nblocks pm}"
    "b \<in> {1 .. nblocks pm} \<Longrightarrow> restored_block d pm {1 .. nblocks pm} b = restored_block d0 pm {1 .. nblocks pm} b"
proof -
  note R = partly_restored_dev_records [OF d]
  show "all_intact d pm" using R(2) [OF _ ok] by (simp add: all_intact_def)
  have sub: "record_of d0 pm c = Some q" if "c \<in> {1 .. nblocks pm}" "record_of d pm c = Some q" for c q
    using R(1) [OF that(1)] that(2) by auto
  show "distinct_copies (record_of d pm) {1 .. nblocks pm}"
    using dist sub unfolding distinct_copies_def by (metis (no_types, lifting))
  assume b: "b \<in> {1 .. nblocks pm}"
  have "meta_at d pm b = meta_at d0 pm b" if "kept (record_of d0 pm) {1 .. nblocks pm} b"
  proof -
    have "b \<in> P \<Longrightarrow> kept (record_of d0 pm) P b" using that P by (auto simp: kept_def)
    then show ?thesis using d b by (auto simp: partly_restored_dev_def)
  qed
  then show "restored_block d pm {1 .. nblocks pm} b = restored_block d0 pm {1 .. nblocks pm} b"
    using kept_partly_restored [OF d P, of b] by (simp add: restored_block_def)
qed

text \<open>
  The device after a crash: each write of the metadata of a block has reached it as a whole or not
  at all, independently of the others.
\<close>

definition some_metadata_written :: "pmem_header \<Rightarrow> pmem_dev \<Rightarrow> pmem_dev \<Rightarrow> pmem_dev \<Rightarrow> bool" where
  "some_metadata_written pm d d' e \<longleftrightarrow> pd_size e = pd_size d' \<and>
     (\<forall>b \<in> {1 .. nblocks pm}. data_at e pm b \<in> {data_at d pm b, data_at d' pm b} \<and>
        meta_at e pm b \<in> {meta_at d pm b, meta_at d' pm b})"

lemma some_metadata_restored:
  assumes "restored_dev d0 pm P d" "some_metadata_written pm d0 d e"
  shows "partly_restored_dev d0 pm P e"
  unfolding partly_restored_dev_def
proof (intro conjI ballI)
  show "pd_size e = pd_size d0" using assms by (simp add: some_metadata_written_def restored_dev_def)
  fix b assume b: "b \<in> {1 .. nblocks pm}"
  with assms have e: "data_at e pm b = data_at d0 pm b" "data_at d pm b = data_at d0 pm b"
    "meta_at e pm b = meta_at d0 pm b \<or> meta_at e pm b = meta_at d pm b"
    by (auto simp: some_metadata_written_def restored_dev_def)
  show "data_at e pm b = data_at d0 pm b" by (rule e(1))
  show "meta_at e pm b = meta_at d0 pm b \<or>
      b \<in> P \<and> \<not> kept (record_of d0 pm) P b \<and> record_of e pm b = None \<and> block_intact e pm b"
  proof (cases "meta_at e pm b = meta_at d0 pm b")
    case False
    with e have "meta_at e pm b = meta_at d pm b" "data_at e pm b = data_at d pm b" by auto
    from same_record [OF this] False this(1) assms(1) b show ?thesis
      by (auto simp: restored_dev_def split: if_split_asm)
  qed simp
qed

section \<open>A record that is torn\<close>

context pmem_device
begin

lemma block_restore_corrupt:
  assumes env: "env_healthy env" and pm: "header_fits papi d (papi_hdr pa)"
    and b: "1 \<le> b" "b \<le> nblocks (papi_hdr pa)" and cb: "bcb_block_id cb = b"
    and bad: "metadata_hash (meta_at d (papi_hdr pa) b) \<noteq> pmbm_hash_metadata (meta_at d (papi_hdr pa) b)"
  shows "\<exists>pa'. pmem_block_restore dbg papi env d (pa, cb) = Some (- EHWPOISON, pa', cb)"
proof -
  have io: "io_healthy (pe_io env i)" "pe_alloc env i" for i using env by (simp_all add: env_healthy_def)
  note f = header_fitsD [OF pm]
  obtain off where m: "cache_block_id_2_metadata_pmem_offset dbg (pd_size d) (papi_hdr pa) (of_nat b) = Some off"
      "pmem_read_sync dbg papi (pe_io env 0) d off (replicate 64 0) 64 =
        Some (0, dev_read d (metadata_offset (papi_hdr pa) b) 64)"
    using read_metadata [OF pm b io(1), of dbg 0] by blast
  have "unat (of_nat b :: u32) = b" "unat (ucast (of_nat b :: u32) :: u64) = b"
    using b f(2) by (auto intro!: unat_block_id)
  then have "(of_nat b :: u32) \<ge> 1" "ucast (of_nat b :: u32) \<le> lm_cache_blocks (papi_hdr pa)"
    using b by (simp_all add: word_le_nat_alt)
  then show ?thesis using bad m io f cb by (auto simp: pmem_block_restore_def Let_def meta_at_def)
qed

lemma restore_corrupt:
  assumes env: "ctr_env_healthy env" and pm: "header_fits papi d0 pm"
    and st: "restored_state d0 pm P st" and b: "b \<in> {1 .. nblocks pm} - P"
    and bad: "metadata_hash (meta_at d0 pm b) \<noteq> pmbm_hash_metadata (meta_at d0 pm b)"
  shows "\<exists>pa' bc'. cache_ctr_restore_or_init_block dbg papi CACHE_DEVICE_OP_RESTORE env b st =
    Some (- EHWPOISON, fst st, pa', bc')"
proof -
  obtain d pa bc where st': "st = (d, pa, bc)" by (cases st)
  with st b have d: "papi_hdr pa = pm" "pd_size d = pd_size d0" "meta_at d pm b = meta_at d0 pm b"
    and bc: "bittern_cache_ok_unsized bc" "bc_lm_cache_blocks bc = nblocks pm"
    by (auto simp: restored_state_def restored_dev_def restored_cache_def fill_inv_def)
  have "header_fits papi d (papi_hdr pa)" using pm d by (auto intro: header_fits_size_cong)
  from block_restore_corrupt [OF _ this _ _ fresh_block_wf(3), of "ce_restore env" b dbg] env b bad d
  obtain pa' where "pmem_block_restore dbg papi (ce_restore env) d (pa, fresh_block b) = Some (- EHWPOISON, pa', fresh_block b)"
    by (auto simp: ctr_env_healthy_def)
  moreover have "cache_block_initialize bc b = Some (upd_block (\<lambda>_. fresh_block b) b bc)"
    using bc b by (simp add: cache_block_initialize_def)
  ultimately show ?thesis
    unfolding st' by (simp add: cache_ctr_restore_or_init_block_def cache_ctr_restore_block_def Let_def EHWPOISON_def)
qed

end

text \<open>A record whose first 16 bytes are changed has a wrong checksum.\<close>

lemma metadata_hash_torn:
  assumes len: "length old = 64" "length torn = 64" and same: "drop 16 torn = drop 16 old" and ne: "torn \<noteq> old"
    and ok: "metadata_hash (metadata_of_bytes old) = pmbm_hash_metadata (metadata_of_bytes old)"
  shows "metadata_hash (metadata_of_bytes torn) \<noteq> pmbm_hash_metadata (metadata_of_bytes torn)"
proof -
  have nth: "torn ! i = old ! i" if "16 \<le> i" "i < 64" for i
    using arg_cong [OF same, of "\<lambda>xs. xs ! (i - 16)"] that len by simp
  have "take 48 torn \<noteq> take 48 old"
  proof
    assume "take 48 torn = take 48 old"
    then have "torn ! i = old ! i" if "i < 48" for i using that by (metis nth_take)
    with nth have "torn ! i = old ! i" if "i < 64" for i using that by (cases "i < 48") auto
    with ne len show False by (auto intro: nth_equalityI)
  qed
  then have "metadata_hash (metadata_of_bytes torn) \<noteq> metadata_hash (metadata_of_bytes old)"
    unfolding metadata_hash_def PMEM_BLOCK_METADATA_HASHING_SIZE_def
    using len nth
    by (intro murmurhash3_128_differs_at [where g = 0]) (simp_all add: metadata_bytes_of_bytes)
  moreover have "drop 48 torn = drop 48 old" using drop_eq_later [OF same, of 48] by simp
  then have "pmbm_hash_metadata (metadata_of_bytes torn) = pmbm_hash_metadata (metadata_of_bytes old)"
    using len by (simp add: metadata_of_bytes_def metadata_field_sizes_def Let_def)
  ultimately show ?thesis using ok by simp
qed

end
