(* ===== verification/Cache_Examples.thy ===== *)
theory Cache_Examples
  imports Cache_Getput_Correct
begin

unbundle bit_operations_syntax

text \<open>
  A kernel library that satisfies the hypothesis on the red-black tree, an executable test that
  implies the invariant of the cache, and concrete caches at which the theorems about the lookup
  and release operations are applied.
\<close>

section \<open>An example kernel\<close>

fun tree_of :: "nat list \<Rightarrow> nat tree" where
  "tree_of [] = Leaf"
| "tree_of (x # xs) = Node Leaf x (tree_of xs)"

lemma inorder_tree_of [simp]: "inorder (tree_of xs) = xs"
  by (induction xs) simp_all

definition example_kernel :: kernel_env where
  "example_kernel = \<lparr> enable_assert = True, rb_insert_color = (\<lambda>t. t),
     rb_erase = (\<lambda>n t. tree_of (remove1 n (inorder t))) \<rparr>"

lemma example_rbtree_kernel: "rbtree_kernel example_kernel"
  by (simp add: rbtree_kernel_def example_kernel_def)

section \<open>An executable test of the invariant\<close>

definition ids :: "bittern_cache \<Rightarrow> (cache_state \<Rightarrow> bool) \<Rightarrow> nat list" where
  "ids bc P = filter (\<lambda>b. P (bcb_state (blk bc b))) [1 ..< Suc (bc_total_entries bc)]"

lemma members_ids: "members P bc = set (ids bc P)"
  by (auto simp: ids_def members_def block_ids_def)

lemma card_members_ids: "card (members P bc) = length (ids bc P)"
  unfolding members_ids by (rule distinct_card) (simp add: ids_def)

definition same_elems :: "nat list \<Rightarrow> nat list \<Rightarrow> bool" where
  "same_elems xs ys \<longleftrightarrow> distinct xs \<and> list_all (\<lambda>x. x \<in> set ys) xs \<and> list_all (\<lambda>y. y \<in> set xs) ys"

lemma list_of_same: "same_elems xs ys \<Longrightarrow> list_of xs (set ys)"
  by (auto simp: same_elems_def list_of_def list_all_iff)

definition cache_inv_test :: "bittern_cache \<Rightarrow> bool" where
  "cache_inv_test bc \<longleftrightarrow>
     bittern_cache_ok bc \<and> 0 < bc_total_entries bc \<and>
     list_all (\<lambda>b. block_wf b (blk bc b)) [1 ..< Suc (bc_total_entries bc)] \<and>
     same_elems (bc_invalid_entries_list bc) (ids bc (\<lambda>s. s = S_INVALID)) \<and>
     same_elems (bc_valid_entries_list bc) (ids bc (\<lambda>s. s \<noteq> S_INVALID \<and> \<not> writeback_inv_state s)) \<and>
     same_elems (bc_valid_entries_clean_list bc) (ids bc clean_state) \<and>
     same_elems (bc_valid_entries_dirty_list bc) (ids bc (\<lambda>s. dirty_state s \<and> \<not> writeback_state s)) \<and>
     bc_invalid_entries bc = int (length (ids bc (\<lambda>s. s = S_INVALID))) \<and>
     bc_valid_entries bc = int (length (ids bc (\<lambda>s. s \<noteq> S_INVALID))) \<and>
     bc_valid_entries_clean bc = int (length (ids bc clean_state)) \<and>
     bc_valid_entries_dirty bc = int (length (ids bc dirty_state)) \<and>
     same_elems (inorder (bc_rb_root bc)) (ids bc (\<lambda>s. s \<noteq> S_INVALID)) \<and>
     sorted (map (sector_of bc) (inorder (bc_rb_root bc))) \<and>
     list_all (\<lambda>b. list_all (\<lambda>c. b \<noteq> c \<and> sector_of bc b = sector_of bc c \<longrightarrow>
         bcb_refcount (blk bc b) = 1 \<and> bcb_refcount (blk bc c) = 1) (ids bc (\<lambda>s. s \<noteq> S_INVALID)))
       (ids bc (\<lambda>s. s \<noteq> S_INVALID))"

lemma list_all_block_ids: "list_all P [1 ..< Suc (bc_total_entries bc)] \<longleftrightarrow> (\<forall>b \<in> block_ids bc. P b)"
  by (auto simp: list_all_iff block_ids_def simp del: upt_Suc)

lemma cache_inv_testI:
  assumes "bc_env bc = example_kernel" "cache_inv_test bc"
  shows "cache_inv bc"
  using assms
  unfolding cache_inv_defs cache_inv_test_def card_members_ids list_all_block_ids
  unfolding members_ids
  by (auto simp: example_rbtree_kernel list_all_iff intro: list_of_same)

section \<open>Example caches\<close>

definition example_stats :: cache_stats where
  "example_stats = \<lparr> bc_invalidations = 0, bc_idle_invalidations = 0, bc_busy_invalidations = 0,
     bc_no_invalidations_all_blocks_busy = 0, bc_invalidations_map = 0, bc_invalid_blocks_busy = 0,
     bc_dirty_write_clone_alloc_ok = 0, bc_dirty_write_clone_alloc_fail = 0,
     bc_cache_transitions_counters = (\<lambda>_. 0), bc_cache_states_counters = (\<lambda>_. 0),
     bc_rb_hit_loop_sum = 0, bc_rb_hit_loop_count = 0, bc_rb_hit_loop_max = 0,
     bc_rb_miss_loop_sum = 0, bc_rb_miss_loop_count = 0, bc_rb_miss_loop_max = 0 \<rparr>"

definition example_block :: "nat \<Rightarrow> int \<Rightarrow> sector_t \<Rightarrow> cache_state \<Rightarrow> cache_transition \<Rightarrow> cache_block" where
  "example_block b ref s st tr = \<lparr> bcb_block_id = b, bcb_refcount = ref, bcb_sector = s,
     bcb_xid = 1, bcb_last_modify = 10, bcb_hash_data = UINT128_ZERO, bcb_state = st,
     bcb_cache_transition = tr \<rparr>"

text \<open>
  Four blocks: an idle clean one, an invalid one, a dirty one in the middle of a write back, and
  an idle dirty one.
\<close>

definition example_cache :: bittern_cache where
  "example_cache = \<lparr> bc_env = example_kernel, bc_error_state = ES_NOERROR,
     bc_replacement_mode = CACHE_REPLACEMENT_MODE_LRU, bc_cache_mode_writeback = 1, bc_xid = 7,
     bc_max_pending_requests = 500, bc_invalidator_conf_min_invalid_count = 1,
     bc_total_entries = 4, bc_lm_cache_blocks = 4,
     bc_invalid_entries = 1, bc_invalid_entries_list = [2],
     bc_valid_entries = 3, bc_valid_entries_clean = 1, bc_valid_entries_dirty = 2,
     bc_valid_entries_list = [1, 3, 4], bc_valid_entries_clean_list = [1],
     bc_valid_entries_dirty_list = [4],
     bc_cache_blocks = (\<lambda>b. if b = 1 then example_block 1 0 8 S_CLEAN TS_NONE
       else if b = 3 then example_block 3 1 16 S_DIRTY_WRITEBACK_UPD_METADATA_END TS_WRITEBACK_WB
       else if b = 4 then example_block 4 0 64 S_DIRTY TS_NONE
       else example_block b 0 SECTOR_NUMBER_INVALID S_INVALID TS_NONE),
     bc_rb_root = Node (Node Leaf 1 Leaf) 3 (Node Leaf 4 Leaf),
     bc_stats = example_stats \<rparr>"

lemma example_cache_test: "cache_inv_test example_cache"
  by code_simp

lemma example_cache_inv: "cache_inv example_cache"
  by (rule cache_inv_testI [OF _ example_cache_test]) (simp add: example_cache_def)

text \<open>The example cache in terms that the witnesses need.\<close>

lemma example_cache_blocks:
  "block_ids example_cache = {1 .. 4}"
  "blk example_cache 1 = example_block 1 0 8 S_CLEAN TS_NONE"
  "blk example_cache 2 = example_block 2 0 SECTOR_NUMBER_INVALID S_INVALID TS_NONE"
  "blk example_cache 3 = example_block 3 1 16 S_DIRTY_WRITEBACK_UPD_METADATA_END TS_WRITEBACK_WB"
  "blk example_cache 4 = example_block 4 0 64 S_DIRTY TS_NONE"
  by (simp_all add: example_cache_def block_ids_def)

theorem cache_get_correct_witness:
  "cache_inv example_cache \<and> is_sector_number_valid 67 \<and>
   (\<exists>ret ob bc'. cache_get example_cache 67 CACHE_FL_HIT 20 = Some ((ret, ob), bc') \<and> cache_inv bc' \<and>
      cache_get_post example_cache 67 CACHE_FL_HIT 20 ret ob bc') \<and>
   map_option fst (cache_get example_cache 67 CACHE_FL_HIT 20) = Some (CACHE_GET_RET_HIT_IDLE, Some 4)"
proof -
  have "is_sector_number_valid 67" "cache_get_flags_ok CACHE_FL_HIT"
    by (simp_all add: is_sector_number_valid_def cache_get_flags_ok_def)
  moreover have "map_option fst (cache_get example_cache 67 CACHE_FL_HIT 20) =
      Some (CACHE_GET_RET_HIT_IDLE, Some 4)" by code_simp
  ultimately show ?thesis
    using cache_get_correct [OF example_cache_inv, of 67 CACHE_FL_HIT 20] example_cache_inv by blast
qed

lemma sole_idle_ids:
  "sole_idle bc b \<longleftrightarrow>
     list_all (\<lambda>d. d \<noteq> b \<longrightarrow> sector_of bc d = sector_of bc b \<longrightarrow> bcb_refcount (blk bc d) = 1)
       (ids bc (\<lambda>s. s \<noteq> S_INVALID))"
  by (simp add: sole_idle_def members_ids list_all_iff del: in_members)

theorem cache_get_clean_correct_witness:
  "cache_inv example_cache \<and>
   (\<exists>ret ob bc'. cache_get_clean example_cache 5 = Some ((ret, ob), bc') \<and> cache_inv bc' \<and>
      cache_get_clean_post example_cache ret ob bc') \<and>
   map_option fst (cache_get_clean example_cache 5) = Some (CACHE_GET_RET_HIT_IDLE, Some 1)"
proof -
  have "map_option fst (cache_get_clean example_cache 5) = Some (CACHE_GET_RET_HIT_IDLE, Some 1)"
    by code_simp
  with cache_get_clean_correct [OF example_cache_inv] example_cache_inv show ?thesis by blast
qed

theorem cache_get_by_id_correct_witness:
  "cache_inv example_cache \<and> 3 \<in> block_ids example_cache \<and>
   (\<exists>ret ob bc'. cache_get_by_id example_cache 3 = Some ((ret, ob), bc') \<and> cache_inv bc' \<and>
      cache_get_by_id_post example_cache 3 ret ob bc') \<and>
   map_option fst (cache_get_by_id example_cache 3) = Some (CACHE_GET_RET_HIT_BUSY, None)"
proof -
  have "map_option fst (cache_get_by_id example_cache 3) = Some (CACHE_GET_RET_HIT_BUSY, None)"
    by code_simp
  moreover have "3 \<in> block_ids example_cache" by (simp add: example_cache_blocks)
  ultimately show ?thesis
    using cache_get_by_id_correct [OF example_cache_inv] example_cache_inv by blast
qed

theorem cache_get_dirty_from_head_correct_witness:
  "cache_inv example_cache \<and>
   (\<exists>ret ob bc'. cache_get_dirty_from_head example_cache 5 20 = Some ((ret, ob), bc') \<and>
      cache_inv bc' \<and> cache_get_dirty_post example_cache 5 20 ret ob bc') \<and>
   map_option fst (cache_get_dirty_from_head example_cache 5 20) = Some (0, Some 4)"
proof -
  have "map_option fst (cache_get_dirty_from_head example_cache 5 20) = Some (0, Some 4)"
    by code_simp
  with cache_get_dirty_from_head_correct [OF example_cache_inv, of 5 20] example_cache_inv
  show ?thesis by simp
qed

theorem cache_get_clone_correct_witness:
  "3 \<in> valid_members example_cache \<and>
   (\<exists>ret ob bc'. cache_get_clone example_cache 3 True 20 = Some ((ret, ob), bc') \<and>
      cache_inv bc' \<and> cache_get_clone_post example_cache 3 True 20 ret ob bc') \<and>
   map_option fst (cache_get_clone example_cache 3 True 20) =
     Some (CACHE_GET_RET_MISS_INVALID_IDLE, Some 2)"
proof -
  have "map_option fst (cache_get_clone example_cache 3 True 20) =
      Some (CACHE_GET_RET_MISS_INVALID_IDLE, Some 2)" by code_simp
  moreover have "3 \<in> valid_members example_cache" "bcb_refcount (blk example_cache 3) = 1"
    by (simp_all add: example_cache_blocks example_block_def)
  ultimately show ?thesis
    using cache_get_clone_correct [OF example_cache_inv, of 3 True 20] by blast
qed




definition example_invalidating :: bittern_cache where
  "example_invalidating = upd_block (\<lambda>c. c\<lparr> bcb_refcount := 1, bcb_state := S_CLEAN_INVALIDATE_END,
     bcb_cache_transition := TS_CLEAN_INVALIDATION_WTWB \<rparr>) 1 example_cache"

lemma example_invalidating_test: "cache_inv_test example_invalidating"
  by code_simp

lemma example_invalidating_inv: "cache_inv example_invalidating"
  by (rule cache_inv_testI [OF _ example_invalidating_test])
    (simp add: example_invalidating_def example_cache_def)

theorem cache_move_to_invalid_correct_witness:
  "cache_inv example_invalidating \<and>
   (\<exists>bc'. cache_move_to_invalid example_invalidating 1 False = Some bc' \<and> cache_inv bc' \<and>
      last (bc_invalid_entries_list bc') = 1 \<and>
      bc_cache_blocks bc' = (bc_cache_blocks example_invalidating)
        (1 := (dropped (blk example_invalidating 1))\<lparr> bcb_refcount := 0 \<rparr>)) \<and>
   map_option bc_invalid_entries_list (cache_move_to_invalid example_invalidating 1 False) = Some [2, 1]"
proof -
  have "map_option bc_invalid_entries_list (cache_move_to_invalid example_invalidating 1 False) = Some [2, 1]"
    by code_simp
  moreover have "cache_validate_state_transition TS_CLEAN_INVALIDATION_WTWB S_CLEAN_INVALIDATE_END
      TS_NONE S_INVALID = 0" by code_simp
  moreover have "1 \<in> block_ids example_invalidating"
    by (simp add: example_invalidating_def example_cache_blocks)
  ultimately show ?thesis
    using cache_move_to_invalid_correct [OF example_invalidating_inv, of 1 False]
      example_invalidating_inv
    by (simp add: example_invalidating_def example_cache_blocks example_block_def state_class_defs
        stable_state_def)
qed

theorem cache_move_to_clean_correct_witness:
  "cache_inv example_cache \<and> sole_idle example_cache 3 \<and>
   (\<exists>bc'. cache_move_to_clean example_cache 3 = Some bc' \<and> cache_inv bc' \<and>
      last (bc_valid_entries_clean_list bc') = 3 \<and>
      bc_cache_blocks bc' = (bc_cache_blocks example_cache)(3 := (blk example_cache 3)
        \<lparr> bcb_cache_transition := TS_NONE, bcb_state := S_CLEAN, bcb_refcount := 0 \<rparr>)) \<and>
   map_option bc_valid_entries_clean_list (cache_move_to_clean example_cache 3) = Some [1, 3]"
proof -
  have "map_option bc_valid_entries_clean_list (cache_move_to_clean example_cache 3) = Some [1, 3]"
    by code_simp
  moreover have "cache_validate_state_transition TS_WRITEBACK_WB S_DIRTY_WRITEBACK_UPD_METADATA_END
      TS_NONE S_CLEAN = 0" by code_simp
  moreover have "sole_idle example_cache 3" unfolding sole_idle_ids by code_simp
  ultimately show ?thesis
    using cache_move_to_clean_correct [OF example_cache_inv, of 3] example_cache_inv
    by (simp add: example_cache_blocks example_block_def state_class_defs stable_state_def)
qed

end
