(* ===== verification/Cache_Restore_Workers.thy ===== *)
theory Cache_Restore_Workers
  imports Cache_Restore Cache_Examples
begin

text \<open>
  Restoring and creating a cache with the concurrent workers of \<open>bittern_cache_module_ctr.c\<close>.  The
  locale \<open>block_workers\<close> states what the workers need of the operation on one block; its lemmas hold
  for every interleaving of their iterations.  It is interpreted on the operations that restore and
  that create a block, which gives that both end, never stop the kernel, and give a cache that
  satisfies its invariant.
\<close>

section \<open>The workers\<close>

text \<open>
  The contract of a block operation that the workers rely on: it succeeds on each block that has
  not been handled, and the state then covers that block too.
\<close>

locale block_workers =
  fixes dbg :: bool and papi :: papi_ops and cache_op :: cache_device_op and env :: "nat \<Rightarrow> ctr_env"
    and pm :: pmem_header and handled :: "nat set \<Rightarrow> ctr_state \<Rightarrow> bool"
  assumes handle_block: "handled P st \<Longrightarrow> b \<in> {1 .. nblocks pm} - P \<Longrightarrow>
      \<exists>st'. cache_ctr_restore_or_init_block dbg papi cache_op (env b) b st = Some (0, st') \<and>
        handled (insert b P) st'"
    and handled_hdr: "handled P st \<Longrightarrow> papi_hdr (fst (snd st)) = pm"
    and handled_size: "handled P st \<Longrightarrow> nblocks pm + 128 < 2 ^ 32"
begin

definition handled_by :: "nat \<Rightarrow> (nat \<Rightarrow> nat) \<Rightarrow> nat set" where
  "handled_by j k = {b \<in> {1 .. nblocks pm}. (b - 1) mod 128 < j \<and> (b - 1) div 128 < k ((b - 1) mod 128)}"

definition wq_at :: "nat \<Rightarrow> nat \<Rightarrow> restore_workqueue \<Rightarrow> bool" where
  "wq_at i k w \<longleftrightarrow> modulo_offset w = of_nat i \<and> mod_base w = of_nat (1 + 128 * k) \<and> restored w = of_nat k \<and>
     wq_ret w = 0 \<and> 128 * k + i \<le> nblocks pm + 127 \<and> (wq_done w \<longrightarrow> nblocks pm < 1 + 128 * k + i)"

definition workers_at :: "(nat \<Rightarrow> nat) \<Rightarrow> restore_workqueue list \<times> ctr_state \<Rightarrow> bool" where
  "workers_at k = (\<lambda>(wqs, st). length wqs \<le> 128 \<and> (\<forall>i < length wqs. wq_at i (k i) (wqs ! i)) \<and>
     handled (handled_by (length wqs) k) st \<and> (\<Sum>i < length wqs. k i) = card (handled_by (length wqs) k))"

lemma handled_by_Suc:
  assumes "i < j" "j \<le> 128" "1 + 128 * k i + i \<le> nblocks pm"
  shows "handled_by j (k(i := Suc (k i))) = insert (1 + 128 * k i + i) (handled_by j k)"
    "1 + 128 * k i + i \<in> {1 .. nblocks pm} - handled_by j k"
proof -
  have i: "(128 * k i + i) mod 128 = i" "(128 * k i + i) div 128 = k i" using assms(1,2) by auto
  then show "1 + 128 * k i + i \<in> {1 .. nblocks pm} - handled_by j k"
    using assms(3) by (simp add: handled_by_def)
  show "handled_by j (k(i := Suc (k i))) = insert (1 + 128 * k i + i) (handled_by j k)"
  proof (rule set_eqI)
    fix b
    have eq: "b = 1 + 128 * k i + i" if "1 \<le> b" "(b - 1) mod 128 = i" "(b - 1) div 128 = k i"
      using div_mult_mod_eq [of "b - 1" 128] that by linarith
    show "b \<in> handled_by j (k(i := Suc (k i))) \<longleftrightarrow> b \<in> insert (1 + 128 * k i + i) (handled_by j k)"
    proof (cases "b = 1 + 128 * k i + i")
      case True
      then show ?thesis using assms i by (simp add: handled_by_def)
    next
      case False
      with eq show ?thesis unfolding handled_by_def by (auto simp: less_Suc_eq)
    qed
  qed
qed

lemma unat_ucast_u32: "unat (ucast (w :: u32) :: u64) = unat w"
  using unat_block_id(2) [of "unat w"] unat_less_exp [of w] by simp

lemma unat_u32: "n < 2 ^ 32 \<Longrightarrow> unat (of_nat n :: u32) = n"
  by (simp add: unat_of_nat)

lemma worker_iteration:
  assumes at: "workers_at k (wqs, st)" and i: "i < length wqs"
  shows "\<exists>r st'. cache_ctr_restore_or_init dbg papi cache_op env (wqs ! i) st = Some (r, st') \<and>
    (if 1 + 128 * k i + i \<le> nblocks pm
     then r = (wqs ! i)\<lparr> mod_base := of_nat (1 + 128 * Suc (k i)), restored := of_nat (Suc (k i)) \<rparr> \<and>
       handled (insert (1 + 128 * k i + i) (handled_by (length wqs) k)) st'
     else r = (wqs ! i)\<lparr> wq_done := True \<rparr> \<and> st' = st)"
proof -
  let ?b = "1 + 128 * k i + i"
  have w: "wq_at i (k i) (wqs ! i)" and len: "length wqs \<le> 128"
    and h: "handled (handled_by (length wqs) k) st"
    using at i by (auto simp: workers_at_def)
  note size = handled_size [OF h] and hdr = handled_hdr [OF h]
  have lt: "1 + 128 * k i < 2 ^ 32" "?b < 2 ^ 32" using w size unfolding wq_at_def by linarith+
  have sum: "mod_base (wqs ! i) + modulo_offset (wqs ! i) = of_nat ?b" using w by (simp add: wq_at_def)
  have u: "unat (mod_base (wqs ! i)) = 1 + 128 * k i" "unat (of_nat ?b :: u32) = ?b"
    using w lt by (simp_all add: wq_at_def unat_u32 del: of_nat_add of_nat_Suc)
  have cmp: "ucast (mod_base (wqs ! i)) \<le> lm_cache_blocks pm \<longleftrightarrow> 1 + 128 * k i \<le> nblocks pm"
    "ucast (of_nat ?b :: u32) \<le> lm_cache_blocks pm \<longleftrightarrow> ?b \<le> nblocks pm"
    using u lt by (simp_all add: word_le_nat_alt unat_ucast_u32 del: of_nat_add of_nat_Suc)
  show ?thesis
  proof (cases "?b \<le> nblocks pm")
    case True
    have pos: "(1 :: u32) \<le> of_nat ?b" using u(2) by (simp add: word_le_nat_alt del: of_nat_add of_nat_Suc)
    obtain st' where "cache_ctr_restore_or_init_block dbg papi cache_op (env ?b) ?b st = Some (0, st')"
        "handled (insert ?b (handled_by (length wqs) k)) st'"
      using handle_block [OF h handled_by_Suc(2) [of i "length wqs" k, OF i len True]] by blast
    with True cmp u pos w show ?thesis
      unfolding cache_ctr_restore_or_init_def hdr sum Let_def
      by (simp add: wq_at_def RESTORE_WORKQUEUES_def algebra_simps)
  next
    case False
    with cmp w show ?thesis
      unfolding cache_ctr_restore_or_init_def hdr sum Let_def by (simp add: wq_at_def)
  qed
qed

definition workers_inv :: "restore_workqueue list \<times> ctr_state \<Rightarrow> bool" where
  "workers_inv s \<longleftrightarrow> (\<exists>k. workers_at k s)"

definition workers_init :: "restore_workqueue list \<times> ctr_state \<Rightarrow> bool" where
  "workers_init s \<longleftrightarrow> (\<exists>j \<le> 128. fst s = map restore_workqueue_start [0 ..< j]) \<and> handled {} (snd s)"

lemma workers_init_at: "workers_init s \<Longrightarrow> workers_at (\<lambda>_. 0) s"
  by (auto simp: workers_init_def workers_at_def wq_at_def restore_workqueue_start_def handled_by_def)

lemma workers_step_at:
  assumes at: "workers_at k (wqs, st)" and i: "i < length wqs" "\<not> wq_done (wqs ! i)"
    and it: "cache_ctr_restore_or_init dbg papi cache_op env (wqs ! i) st = Some (r, st')"
  shows "if 1 + 128 * k i + i \<le> nblocks pm
    then workers_at (k(i := Suc (k i))) (wqs[i := r], st') \<and> \<not> wq_done r
    else workers_at k (wqs[i := r], st') \<and> wq_done r"
proof -
  let ?b = "1 + 128 * k i + i" and ?k = "k(i := Suc (k i))"
  have w: "wq_at l (k l) (wqs ! l)" if "l < length wqs" for l using at that by (simp add: workers_at_def)
  have len: "length wqs \<le> 128" using at by (simp add: workers_at_def)
  note r = worker_iteration [OF at i(1), unfolded it]
  show ?thesis
  proof (cases "?b \<le> nblocks pm")
    case True
    note P = handled_by_Suc [of i "length wqs" k, OF i(1) len True]
    have "(\<Sum>l < length wqs. ?k l) = Suc (\<Sum>l < length wqs. k l)"
      using i(1) by (simp add: sum.remove [of "{..<length wqs}" i] cong: sum.cong_simp)
    moreover have "card (insert ?b (handled_by (length wqs) k)) = Suc (card (handled_by (length wqs) k))"
      using P(2) by (intro card_insert_disjoint) (auto simp: handled_by_def)
    moreover have "wq_at i (Suc (k i)) r" "\<not> wq_done r" using r True w [OF i(1)] i(2) by (auto simp: wq_at_def)
    moreover have "handled (insert ?b (handled_by (length wqs) k)) st'" using r True by auto
    ultimately show ?thesis
      using at True w i(1) unfolding workers_at_def prod.case P(1) [symmetric]
      by (simp add: nth_list_update del: One_nat_def)
  next
    case False
    then have "wq_at i (k i) r" "wq_done r" "st' = st" using r w [OF i(1)] by (auto simp: wq_at_def)
    with False at w i(1) show ?thesis by (simp add: workers_at_def nth_list_update)
  qed
qed

end

sublocale block_workers \<subseteq> ws: invariant_system workers_init "restore_step dbg papi cache_op env" workers_inv
proof
  show "workers_init s \<Longrightarrow> workers_inv s" for s
    unfolding workers_inv_def using workers_init_at by blast
  show "workers_inv s \<Longrightarrow> restore_step dbg papi cache_op env s t \<Longrightarrow> workers_inv t" for s t
  proof (erule restore_step.cases)
    fix i wqs st r st'
    assume s: "workers_inv s" "s = (wqs, st)" "t = (wqs[i := r], st')" and i: "i < length wqs" "\<not> wq_done (wqs ! i)"
      and it: "cache_ctr_restore_or_init dbg papi cache_op env (wqs ! i) st = Some (r, st')"
    then obtain k where "workers_at k (wqs, st)" by (auto simp: workers_inv_def)
    from workers_step_at [OF this i it] show "workers_inv t"
      unfolding workers_inv_def s(3) by meson
  qed
qed


definition workers_done :: "restore_workqueue list \<Rightarrow> bool" where
  "workers_done wqs \<longleftrightarrow> (\<forall>w \<in> set wqs. wq_done w)"

definition work_count :: "restore_workqueue list \<Rightarrow> nat" where
  "work_count wqs = (\<Sum>i < length wqs. unat (restored (wqs ! i)) + of_bool (wq_done (wqs ! i)))"

lemma fold_wq_flush:
  "(\<And>w. w \<in> set wqs \<Longrightarrow> wq_ret w = 0) \<Longrightarrow>
   fold wq_flush wqs (0, c) = (0, c + (\<Sum>i < length wqs. restored (wqs ! i)))"
proof (induction wqs arbitrary: c)
  case (Cons w wqs)
  have "wq_flush w (0, c) = (0, c + restored w)" using Cons.prems by (simp add: wq_flush_def)
  then have "fold wq_flush (w # wqs) (0, c) = (0, c + restored w + (\<Sum>i < length wqs. restored (wqs ! i)))"
    using Cons by simp
  then show ?case by (simp add: sum.lessThan_Suc_shift add.assoc del: sum.lessThan_Suc)
qed simp

context block_workers
begin

lemma iteration_returns:
  assumes "workers_inv (wqs, st)" "i < length wqs"
  shows "cache_ctr_restore_or_init dbg papi cache_op env (wqs ! i) st \<noteq> None"
proof -
  obtain k where "workers_at k (wqs, st)" using assms(1) by (auto simp: workers_inv_def)
  from worker_iteration [OF this assms(2)] show ?thesis by (elim exE conjE) simp
qed

lemma handled_by_card: "card (handled_by j k) \<le> nblocks pm"
proof -
  have "card (handled_by j k) \<le> card {1 .. nblocks pm}" by (intro card_mono) (auto simp: handled_by_def)
  then show ?thesis by simp
qed

lemma unat_restored:
  assumes "workers_at k (wqs, st)" "i < length wqs"
  shows "unat (restored (wqs ! i)) = k i"
proof -
  have w: "wq_at i (k i) (wqs ! i)" and "handled (handled_by (length wqs) k) st" using assms by (auto simp: workers_at_def)
  from this(2) have "nblocks pm + 128 < 2 ^ 32" by (rule handled_size)
  with w have "k i < 2 ^ 32" unfolding wq_at_def by linarith
  moreover have "restored (wqs ! i) = of_nat (k i)" using w by (simp add: wq_at_def)
  ultimately show ?thesis by (simp add: unat_u32)
qed

lemma work_count_bound: "workers_inv (wqs, st) \<Longrightarrow> work_count wqs \<le> nblocks pm + length wqs"
proof -
  assume "workers_inv (wqs, st)"
  then obtain k where k: "workers_at k (wqs, st)" by (auto simp: workers_inv_def)
  have "work_count wqs = (\<Sum>i < length wqs. k i + of_bool (wq_done (wqs ! i)))"
    unfolding work_count_def using unat_restored [OF k] by (intro sum.cong) auto
  also have "\<dots> \<le> (\<Sum>i < length wqs. k i) + length wqs"
    unfolding sum.distrib using sum_bounded_above [of "{..<length wqs}" "\<lambda>i. of_bool (wq_done (wqs ! i))" "1 :: nat"] by simp
  also have "(\<Sum>i < length wqs. k i) \<le> nblocks pm"
    using k handled_by_card [of "length wqs" k] by (simp add: workers_at_def)
  finally show "work_count wqs \<le> nblocks pm + length wqs" by simp
qed

lemma work_count_step:
  assumes "workers_inv s" "restore_step dbg papi cache_op env s t"
  shows "work_count (fst t) = Suc (work_count (fst s))" "length (fst t) = length (fst s)"
  using assms(2)
proof (atomize (full), cases)
  case (iteration i wqs st r st')
  obtain k where k: "workers_at k (wqs, st)" using assms(1) iteration(1) by (auto simp: workers_inv_def)
  note step = workers_step_at [OF k iteration(3-5)]
  let ?f = "\<lambda>wqs i. unat (restored (wqs ! i)) + of_bool (wq_done (wqs ! i))"
  have "?f (wqs[i := r]) i = Suc (?f wqs i)"
  proof (cases "1 + 128 * k i + i \<le> nblocks pm")
    case True
    then have "workers_at (k(i := Suc (k i))) (wqs[i := r], st')" "\<not> wq_done r" using step by auto
    from unat_restored [OF this(1), of i] this(2) unat_restored [OF k iteration(3)] iteration(3,4) show ?thesis by simp
  next
    case False
    then have "workers_at k (wqs[i := r], st')" "wq_done r" using step by auto
    from unat_restored [OF this(1), of i] this(2) unat_restored [OF k iteration(3)] iteration(3,4) show ?thesis by simp
  qed
  moreover have "(\<Sum>l \<in> {..<length wqs} - {i}. ?f (wqs[i := r]) l) = (\<Sum>l \<in> {..<length wqs} - {i}. ?f wqs l)"
    by (intro sum.cong) auto
  ultimately have "(\<Sum>l < length wqs. ?f (wqs[i := r]) l) = Suc (\<Sum>l < length wqs. ?f wqs l)"
    using iteration(3) by (simp only: sum.remove [of "{..<length wqs}" i] finite_lessThan lessThan_iff simp_thms)
  then show "work_count (fst t) = Suc (work_count (fst s)) \<and> length (fst t) = length (fst s)"
    unfolding iteration(1,2) work_count_def by simp
qed

text \<open>However the workers are scheduled, they end after at most one iteration per block and worker.\<close>

lemma steps_bound:
  assumes "workers_inv s" "(restore_step dbg papi cache_op env ^^ m) s t"
  shows "workers_inv t \<and> length (fst t) = length (fst s) \<and> work_count (fst t) = work_count (fst s) + m"
  using assms(2)
proof (induction m arbitrary: t)
  case (Suc m)
  then obtain u where u: "(restore_step dbg papi cache_op env ^^ m) s u" "restore_step dbg papi cache_op env u t" by auto
  from Suc.IH [OF u(1)] work_count_step [OF _ u(2)] ws.invar_step [OF _ u(2)] show ?case by simp
qed (use assms(1) in simp)

lemma steps_at_most:
  assumes "workers_inv s" "(restore_step dbg papi cache_op env ^^ m) s t"
  shows "m \<le> nblocks pm + length (fst s)"
proof -
  obtain wqs st where "t = (wqs, st)" by (rule prod.exhaust)
  then show ?thesis using steps_bound [OF assms] work_count_bound [of wqs st] by simp
qed

lemma workers_finished:
  assumes "workers_inv (wqs, st)" "workers_done wqs"
  shows "fold wq_flush wqs (0, 0) = (0, of_nat (card {b \<in> {1 .. nblocks pm}. (b - 1) mod 128 < length wqs}))"
    "handled {b \<in> {1 .. nblocks pm}. (b - 1) mod 128 < length wqs} st"
proof -
  obtain k where k: "workers_at k (wqs, st)" using assms(1) by (auto simp: workers_inv_def)
  have w: "wq_at i (k i) (wqs ! i)" "wq_done (wqs ! i)" if "i < length wqs" for i
    using k assms(2) that by (auto simp: workers_at_def workers_done_def)
  have "(b - 1) div 128 < k ((b - 1) mod 128)" if "b \<in> {1 .. nblocks pm}" "(b - 1) mod 128 < length wqs" for b
  proof -
    have "nblocks pm < 1 + 128 * k ((b - 1) mod 128) + (b - 1) mod 128" using w [OF that(2)] by (simp add: wq_at_def)
    with that(1) div_mult_mod_eq [of "b - 1" 128]
    have "(b - 1) div 128 * 128 < 128 * k ((b - 1) mod 128)" unfolding atLeastAtMost_iff by linarith
    then show ?thesis by simp
  qed
  then have P: "handled_by (length wqs) k = {b \<in> {1 .. nblocks pm}. (b - 1) mod 128 < length wqs}"
    by (auto simp: handled_by_def)
  then show "handled {b \<in> {1 .. nblocks pm}. (b - 1) mod 128 < length wqs} st" using k by (simp add: workers_at_def)
  have "fold wq_flush wqs (0, 0) = (0, 0 + (\<Sum>i < length wqs. restored (wqs ! i)))"
    using w by (intro fold_wq_flush) (auto simp: wq_at_def in_set_conv_nth)
  also have "(\<Sum>i < length wqs. restored (wqs ! i)) = (\<Sum>i < length wqs. of_nat (k i))"
    using w by (intro sum.cong) (auto simp: wq_at_def)
  also have "\<dots> = of_nat (card (handled_by (length wqs) k))" using k by (simp add: workers_at_def flip: of_nat_sum)
  finally show "fold wq_flush wqs (0, 0) = (0, of_nat (card {b \<in> {1 .. nblocks pm}. (b - 1) mod 128 < length wqs}))"
    by (simp add: P)
qed

end

section \<open>Creating and restoring a cache\<close>

text \<open>The state after the blocks of a set have been initialised for a new cache.\<close>

definition created_state :: "papi_ops \<Rightarrow> pmem_header \<Rightarrow> nat set \<Rightarrow> ctr_state \<Rightarrow> bool" where
  "created_state papi pm P = (\<lambda>(d, pa, bc).
     papi_hdr pa = pm \<and> header_fits papi d pm \<and> fill_inv P bc \<and> P \<subseteq> {1 .. nblocks pm} \<and>
     bc_lm_cache_blocks bc = nblocks pm \<and>
     (\<forall>b \<in> P. blk bc b = fresh_block b \<and> record_of d pm b = None \<and> block_intact d pm b))"

context pmem_device
begin

lemma create_one:
  assumes env: "ctr_env_healthy env" and st: "created_state papi pm P st" and b: "b \<in> {1 .. nblocks pm} - P"
  shows "\<exists>st'. cache_ctr_restore_or_init_block dbg papi CACHE_DEVICE_OP_CREATE env b st = Some (0, st') \<and>
    created_state papi pm (insert b P) st'"
proof -
  obtain d pa bc where st': "st = (d, pa, bc)" by (cases st)
  have S: "papi_hdr pa = pm" "header_fits papi d pm" "fill_inv P bc" "P \<subseteq> {1 .. nblocks pm}"
    "bc_lm_cache_blocks bc = nblocks pm" "\<And>c. c \<in> P \<Longrightarrow> blk bc c = fresh_block c"
    "\<And>c. c \<in> P \<Longrightarrow> record_of d pm c = None \<and> block_intact d pm c"
    using st st' by (auto simp: created_state_def)
  let ?bc = "upd_block (\<lambda>_. fresh_block b) b bc"
  have init: "cache_block_initialize bc b = Some ?bc"
    using S b by (simp add: cache_block_initialize_def fill_inv_def)
  have "fill_inv P ?bc" using b by (intro fill_inv_upd_block [OF S(3)]) simp
  from block_add_ok [OF this, of b] b obtain bc' where bc': "cache_block_add ?bc b = Some bc'"
      "fill_inv (insert b P) bc'" "bc_cache_blocks bc' = bc_cache_blocks ?bc" "fill_frame bc bc'" by auto
  have h: "env_healthy (ce_init env)" using env by (simp add: ctr_env_healthy_def)
  obtain d' where d': "pmem_metadata_initialize dbg papi (ce_init env) pa (of_nat b) d = Some (0, d')"
      "only_metadata pm b d d'" "record_of d' pm b = None" "block_intact d' pm b"
    using metadata_initialize_healthy [OF h, of d pa b dbg] S(1,2) b by auto
  have "created_state papi pm (insert b P) (d', pa, bc')"
    unfolding created_state_def prod.case
  proof (intro conjI ballI)
    fix c assume c: "c \<in> insert b P"
    show "blk bc' c = fresh_block c" using bc'(3) S(6) [of c] c by auto
    show "record_of d' pm c = None" "block_intact d' pm c"
      using d'(3,4) only_metadata_record [OF d'(2), of c] S(4) S(7) [of c] c by (cases "c = b"; auto)+
  qed (use S b bc' d'(2) in \<open>auto simp: only_metadata_def fill_frame_def intro: header_fits_size_cong\<close>)
  moreover have "cache_ctr_restore_or_init_block dbg papi CACHE_DEVICE_OP_CREATE env b st = Some (0, d', pa, bc')"
    unfolding st' using init bc'(1,3) d'(1)
    by (simp add: cache_ctr_restore_or_init_block_def metadata_initialize_ok_def cache_block_ok_unbounded_def)
      (simp add: fresh_block_def)
  ultimately show ?thesis by blast
qed

end

definition device_ok :: "papi_ops \<Rightarrow> pmem_dev \<Rightarrow> pmem_header \<Rightarrow> bool" where
  "device_ok papi d pm \<longleftrightarrow> header_fits papi d pm \<and> all_intact d pm \<and>
     distinct_copies (record_of d pm) {1 .. nblocks pm} \<and> nblocks pm + 128 < 2 ^ 32"

definition cache_ready :: "bittern_cache \<Rightarrow> pmem_header \<Rightarrow> bool" where
  "cache_ready bc pm \<longleftrightarrow> empty_cache bc \<and> rbtree_kernel (bc_env bc) \<and> bittern_cache_ok_unsized bc \<and>
     bc_lm_cache_blocks bc = nblocks pm"

definition restore_handled ::
  "papi_ops \<Rightarrow> (nat \<Rightarrow> ctr_env) \<Rightarrow> pmem_dev \<Rightarrow> pmem_header \<Rightarrow> nat set \<Rightarrow> ctr_state \<Rightarrow> bool" where
  "restore_handled papi env d0 pm P st \<longleftrightarrow> papi \<in> {papi_mem_ops, papi_block_ops} \<and>
     (\<forall>b. ctr_env_healthy (env b)) \<and> device_ok papi d0 pm \<and> restored_state d0 pm P st"

definition create_handled ::
  "papi_ops \<Rightarrow> (nat \<Rightarrow> ctr_env) \<Rightarrow> pmem_header \<Rightarrow> nat set \<Rightarrow> ctr_state \<Rightarrow> bool" where
  "create_handled papi env pm P st \<longleftrightarrow> papi \<in> {papi_mem_ops, papi_block_ops} \<and>
     (\<forall>b. ctr_env_healthy (env b)) \<and> nblocks pm + 128 < 2 ^ 32 \<and> created_state papi pm P st"

interpretation rw: block_workers dbg papi CACHE_DEVICE_OP_RESTORE env pm "restore_handled papi env d0 pm"
  for dbg papi env pm d0
proof
  fix P st b assume h: "restore_handled papi env d0 pm P st" and b: "b \<in> {1 .. nblocks pm} - P"
  have "restored_cache d0 pm P (snd (snd st))"
    using h by (auto simp: restore_handled_def restored_state_def split: prod.splits)
  then have "insert b P \<subseteq> {1 .. nblocks pm}" using b by (auto simp: restored_cache_def)
  then have dist: "distinct_copies (record_of d0 pm) (insert b P)"
    using h distinct_copies_subset by (auto simp: restore_handled_def device_ok_def)
  show "\<exists>st'. cache_ctr_restore_or_init_block dbg papi CACHE_DEVICE_OP_RESTORE (env b) b st = Some (0, st') \<and>
      restore_handled papi env d0 pm (insert b P) st'"
    using h mem_dev.restore_one [of "env b" d0 pm b P st dbg] block_dev.restore_one [of "env b" d0 pm b P st dbg] dist b
    by (auto simp: restore_handled_def device_ok_def)
qed (auto simp: restore_handled_def restored_state_def device_ok_def split: prod.splits)

interpretation cw: block_workers dbg papi CACHE_DEVICE_OP_CREATE env pm "create_handled papi env pm"
  for dbg papi env pm
proof
  fix P st b assume h: "create_handled papi env pm P st" and b: "b \<in> {1 .. nblocks pm} - P"
  show "\<exists>st'. cache_ctr_restore_or_init_block dbg papi CACHE_DEVICE_OP_CREATE (env b) b st = Some (0, st') \<and>
      create_handled papi env pm (insert b P) st'"
    using h mem_dev.create_one [of "env b" pm P st b dbg] block_dev.create_one [of "env b" pm P st b dbg] b
    by (auto simp: create_handled_def)
qed (auto simp: create_handled_def created_state_def split: prod.splits)

context block_workers
begin

lemma run_completes:
  assumes "workers_inv s"
  shows "\<exists>t. (restore_step dbg papi cache_op env)\<^sup>*\<^sup>* s t \<and> workers_done (fst t)"
  using assms
proof (induction "nblocks pm + length (fst s) - work_count (fst s)" arbitrary: s rule: less_induct)
  case less
  show ?case
  proof (cases "workers_done (fst s)")
    case False
    obtain wqs st where s: "s = (wqs, st)" by (rule prod.exhaust)
    obtain i where i: "i < length wqs" "\<not> wq_done (wqs ! i)"
      using False s by (auto simp: workers_done_def in_set_conv_nth)
    obtain r st' where "cache_ctr_restore_or_init dbg papi cache_op env (wqs ! i) st = Some (r, st')"
      using iteration_returns [of wqs st i] less.prems s i by auto
    from iteration [where env = env, OF i this] have step: "restore_step dbg papi cache_op env s (wqs[i := r], st')"
      unfolding s .
    note inv = ws.invar_step [OF less.prems step] and count = work_count_step [OF less.prems step]
    have "nblocks pm + length (fst (wqs[i := r], st')) - work_count (fst (wqs[i := r], st')) <
        nblocks pm + length (fst s) - work_count (fst s)"
      using count work_count_bound [OF inv] by simp
    from less.hyps [OF this inv] step show ?thesis by (meson converse_rtranclp_into_rtranclp)
  next
    case True
    then show ?thesis by blast
  qed
qed

end



lemma all_workers_ids: "{b \<in> {1 .. n}. (b - 1) mod 128 < (128 :: nat)} = {1 .. n}"
  by auto

definition started_workers :: "nat \<Rightarrow> restore_workqueue list" where
  "started_workers j = map restore_workqueue_start [0 ..< j]"

lemma restore_start:
  assumes "papi \<in> {papi_mem_ops, papi_block_ops}" "\<And>b. ctr_env_healthy (env b)"
    "device_ok papi d (papi_hdr pa)" "cache_ready bc (papi_hdr pa)" "j \<le> 128"
  shows "rw.workers_init papi env d (papi_hdr pa) (started_workers j, d, pa, bc)"
  using assms restored_state_empty [of bc pa d]
  unfolding rw.workers_init_def restore_handled_def cache_ready_def
  by (auto simp: started_workers_def)

lemma create_start:
  assumes "papi \<in> {papi_mem_ops, papi_block_ops}" "\<And>b. ctr_env_healthy (env b)"
    "header_fits papi d (papi_hdr pa)" "nblocks (papi_hdr pa) + 128 < 2 ^ 32" "cache_ready bc (papi_hdr pa)"
  shows "cw.workers_init papi env (papi_hdr pa) (started_workers 128, d, pa, bc)"
proof -
  have "created_state papi (papi_hdr pa) {} (d, pa, bc)"
    using assms by (simp add: created_state_def cache_ready_def fill_inv_def empty_cache_def list_of_def in_state_def)
  then show ?thesis
    using assms unfolding cw.workers_init_def create_handled_def
    by (auto simp: started_workers_def intro!: exI [of _ 128])
qed

lemma restore_run:
  assumes "papi \<in> {papi_mem_ops, papi_block_ops}" "\<And>b. ctr_env_healthy (env b)"
    "device_ok papi d (papi_hdr pa)" "cache_ready bc (papi_hdr pa)" "j \<le> 128"
    and run: "(restore_step dbg papi CACHE_DEVICE_OP_RESTORE env ^^ m) (started_workers j, d, pa, bc) (wqs, st)"
  shows "rw.workers_inv (papi_hdr pa) papi env d (wqs, st)" "length wqs = j" "m \<le> nblocks (papi_hdr pa) + j"
proof -
  have inv: "rw.workers_inv (papi_hdr pa) papi env d (started_workers j, d, pa, bc)"
    by (rule rw.ws.invar_init [OF restore_start [OF assms(1-5)]])
  from rw.steps_bound [OF inv run] rw.steps_at_most [OF inv run]
  show "rw.workers_inv (papi_hdr pa) papi env d (wqs, st)" "length wqs = j" "m \<le> nblocks (papi_hdr pa) + j"
    by (simp_all add: started_workers_def)
qed

lemma restore_steps:
  assumes "papi \<in> {papi_mem_ops, papi_block_ops}" "\<And>b. ctr_env_healthy (env b)"
    "device_ok papi d (papi_hdr pa)" "cache_ready bc (papi_hdr pa)" "j \<le> 128"
    and run: "(restore_step dbg papi CACHE_DEVICE_OP_RESTORE env)\<^sup>*\<^sup>* (started_workers j, d, pa, bc) (wqs, st)"
  shows "rw.workers_inv (papi_hdr pa) papi env d (wqs, st)" "length wqs = j"
proof -
  obtain m where "(restore_step dbg papi CACHE_DEVICE_OP_RESTORE env ^^ m) (started_workers j, d, pa, bc) (wqs, st)"
    by (rule exE [OF rtranclp_imp_relpowp [OF run]])
  from restore_run [OF assms(1-5) this] show "rw.workers_inv (papi_hdr pa) papi env d (wqs, st)" "length wqs = j" by simp_all
qed


lemma create_steps:
  assumes "papi \<in> {papi_mem_ops, papi_block_ops}" "\<And>b. ctr_env_healthy (env b)"
    "header_fits papi d (papi_hdr pa)" "nblocks (papi_hdr pa) + 128 < 2 ^ 32" "cache_ready bc (papi_hdr pa)"
    and run: "(restore_step dbg papi CACHE_DEVICE_OP_CREATE env)\<^sup>*\<^sup>* (started_workers 128, d, pa, bc) (wqs, st)"
  shows "cw.workers_inv (papi_hdr pa) papi env (wqs, st)" "length wqs = 128"
proof -
  have inv: "cw.workers_inv (papi_hdr pa) papi env (started_workers 128, d, pa, bc)"
    by (rule cw.ws.invar_init [OF create_start [OF assms(1-5)]])
  obtain m where "(restore_step dbg papi CACHE_DEVICE_OP_CREATE env ^^ m) (started_workers 128, d, pa, bc) (wqs, st)"
    by (rule exE [OF rtranclp_imp_relpowp [OF run]])
  from cw.steps_bound [OF inv this]
  show "cw.workers_inv (papi_hdr pa) papi env (wqs, st)" "length wqs = 128" by (simp_all add: started_workers_def)
qed

text \<open>
  C21: However the workers are interleaved, the restore ends: a run has at most one step per block
  and one per worker, and as long as a worker is not done some step is possible.
\<close>

theorem restore_terminates:
  assumes "papi \<in> {papi_mem_ops, papi_block_ops}" "\<And>b. ctr_env_healthy (env b)"
    and "device_ok papi d (papi_hdr pa)" "cache_ready bc (papi_hdr pa)"
    and run: "(restore_step dbg papi CACHE_DEVICE_OP_RESTORE env ^^ m) (started_workers 128, d, pa, bc) (wqs, st)"
  shows "m \<le> nblocks (papi_hdr pa) + 128 \<and>
    (workers_done wqs \<or> (\<exists>t. restore_step dbg papi CACHE_DEVICE_OP_RESTORE env (wqs, st) t))"
proof -
  note R = restore_run [OF assms(1-4) order_refl run]
  have "\<exists>t. restore_step dbg papi CACHE_DEVICE_OP_RESTORE env (wqs, st) t" if "\<not> workers_done wqs"
  proof -
    obtain i where i: "i < length wqs" "\<not> wq_done (wqs ! i)" using \<open>\<not> workers_done wqs\<close>
      by (auto simp: workers_done_def in_set_conv_nth)
    obtain r st' where "cache_ctr_restore_or_init dbg papi CACHE_DEVICE_OP_RESTORE env (wqs ! i) st = Some (r, st')"
      using rw.iteration_returns [OF R(1) i(1), of dbg] by auto
    from iteration [where env = env, OF i this] show ?thesis by blast
  qed
  with R(3) show ?thesis by blast
qed

text \<open>
  C6: A crash during the restore of an intact device is harmless as long as the write of a record
  is not torn.  Whatever the workers have done, and whichever of their metadata writes have reached
  the device, each completely or not at all and in any order, the device is still intact, and
  restoring it gives every block the descriptor that the device before the interrupted restore
  gave it.
\<close>

theorem restore_interrupted:
  fixes pa :: pmem_api
  defines "pm \<equiv> papi_hdr pa"
  assumes "papi \<in> {papi_mem_ops, papi_block_ops}" "\<And>b. ctr_env_healthy (env b)"
    and "device_ok papi d pm" "cache_ready bc pm"
    and run: "(restore_step dbg papi CACHE_DEVICE_OP_RESTORE env)\<^sup>*\<^sup>* (started_workers 128, d, pa, bc) (wqs, d', pa', bc')"
    and crash: "some_metadata_written pm d d' e"
  shows "device_ok papi e pm \<and>
    (\<forall>b \<in> {1 .. nblocks pm}. restored_block e pm {1 .. nblocks pm} b = restored_block d pm {1 .. nblocks pm} b)"
proof -
  have "rw.workers_inv pm papi env d (wqs, d', pa', bc')"
    using restore_steps [OF assms(2,3) _ _ _ run] assms(4,5) by (simp add: pm_def)
  then obtain P where "restored_state d pm P (d', pa', bc')"
    by (auto simp: rw.workers_inv_def rw.workers_at_def restore_handled_def)
  then have dev: "restored_dev d pm P d'" and P: "P \<subseteq> {1 .. nblocks pm}"
    by (auto simp: restored_state_def restored_cache_def)
  note part = some_metadata_restored [OF dev crash]
  have "all_intact d pm" "distinct_copies (record_of d pm) {1 .. nblocks pm}"
    using assms(4) by (simp_all add: device_ok_def)
  note R = partly_restored_dev_restorable [OF part P this]
  moreover have "header_fits papi e pm"
    using assms(4) part header_fits_size_cong by (auto simp: device_ok_def partly_restored_dev_def)
  ultimately show ?thesis using assms(4) by (simp add: device_ok_def)
qed

text \<open>
  C20: A torn record is not rolled back, it makes the restore fail.  If a write of the metadata of an
  intact block stops within its first 16 bytes after it has changed one of them, the restore of
  that block ends with EHWPOISON, whichever blocks were restored before it, and the device is left
  as it is.
\<close>

theorem torn_metadata_fails_restore:
  assumes papi: "papi \<in> {papi_mem_ops, papi_block_ops}" and env: "ctr_env_healthy env"
    and pm: "header_fits papi d pm" "block_intact d pm b" "b \<in> {1 .. nblocks pm} - P"
    and torn: "length new = 64" "m \<le> 16" "take m new \<noteq> dev_read d (metadata_offset pm b) m"
    and st: "restored_state (dev_write d (metadata_offset pm b) (take m new)) pm P st"
  shows "\<exists>pa' bc'. cache_ctr_restore_or_init_block dbg papi CACHE_DEVICE_OP_RESTORE env b st =
    Some (- EHWPOISON, fst st, pa', bc')"
proof -
  obtain access_ok span where p: "pmem_device papi access_ok span" by (rule papi_cases [OF papi])
  let ?o = "metadata_offset pm b"
  let ?e = "dev_write d ?o (take m new)"
  let ?old = "dev_read d ?o 64" and ?new = "dev_read ?e ?o 64"
  have fits: "header_fits papi ?e pm" using pm(1) by (auto intro: header_fits_size_cong simp: dev_write_def)
  have byte: "?new ! i = (if i < m then new ! i else ?old ! i)" if "i < 64" for i
    using that torn(1,2) by (simp add: dev_read_def pd_bytes_dev_write)
  have "drop 16 ?new = drop 16 ?old"
    using byte torn(2) by (intro nth_equalityI) (simp_all add: dev_read_def)
  moreover have "?new \<noteq> ?old"
  proof
    assume "?new = ?old"
    then have "new ! i = pd_bytes d (?o + i)" if "i < m" for i
      using byte [of i] that torn(2) by (simp add: dev_read_def)
    then have "take m new = dev_read d ?o m"
      using torn(1,2) by (intro nth_equalityI) (simp_all add: dev_read_def)
    with torn(3) show False ..
  qed
  moreover have "metadata_hash (meta_at d pm b) = pmbm_hash_metadata (meta_at d pm b)"
    using pm(2) by (simp add: block_intact_def Let_def)
  ultimately have "metadata_hash (meta_at ?e pm b) \<noteq> pmbm_hash_metadata (meta_at ?e pm b)"
    unfolding meta_at_def by (intro metadata_hash_torn [of ?old]) (simp_all add: dev_read_def)
  from pmem_device.restore_corrupt [OF p env fits st pm(3) this] show ?thesis .
qed


text \<open>
  C24: When a work queue cannot be allocated, the workers from that one on are not started, the
  blocks they would have restored are missing, and the constructor stops the kernel on its check of
  the number of blocks instead of returning an error.
\<close>

theorem too_few_workers_stop_the_kernel:
  assumes "papi \<in> {papi_mem_ops, papi_block_ops}" "\<And>b. ctr_env_healthy (env b)"
    and "device_ok papi d (papi_hdr pa)" "cache_ready bc (papi_hdr pa)"
    and j: "j < 128" "j < nblocks (papi_hdr pa)"
    and run: "(restore_step dbg papi CACHE_DEVICE_OP_RESTORE env)\<^sup>*\<^sup>* (started_workers j, d, pa, bc) (wqs, st)"
    and "workers_done wqs"
  shows "cache_ctr_restore_or_init_workqueues dbg (wqs, st) = None"
proof -
  let ?pm = "papi_hdr pa" and ?P = "{b \<in> {1 .. nblocks (papi_hdr pa)}. (b - 1) mod 128 < j}"
  obtain d' pa' bc' where st: "st = (d', pa', bc')" by (cases st)
  have inv: "rw.workers_inv ?pm papi env d (wqs, st)" and len: "length wqs = j"
    using restore_steps [OF assms(1-4) _ run] j by simp_all
  note F = rw.workers_finished [OF inv assms(8), unfolded len]
  have "?P \<subset> {1 .. nblocks ?pm}"
  proof
    have "Suc j \<notin> ?P" "Suc j \<in> {1 .. nblocks ?pm}" using j by auto
    then show "?P \<noteq> {1 .. nblocks ?pm}" by blast
  qed auto
  from psubset_card_mono [OF _ this] have less: "card ?P < nblocks ?pm" by simp
  have "nblocks ?pm < 2 ^ 32" using assms(3) by (simp add: device_ok_def)
  then have "unat (ucast (of_nat (card ?P) :: u32) :: u64) = card ?P" using less by (intro unat_block_id(2)) linarith
  moreover have "papi_hdr pa' = ?pm" using F(2) st by (simp add: restore_handled_def restored_state_def)
  ultimately have "ucast (of_nat (card ?P) :: u32) \<noteq> lm_cache_blocks (papi_hdr pa')" using less by auto
  then show ?thesis
    unfolding st cache_ctr_restore_or_init_workqueues_def prod.case F(1) by simp
qed

text \<open>
  C23: One block step of the restore detects a copy with the same transaction id as the newest copy
  of the sector among the blocks restored so far: it fails with EL2NSYNC and leaves the device as
  it is.  Only the newest copy is compared; equal ids of two copies that are both older are not
  seen.
\<close>

theorem same_xid_rejected:
  assumes "papi \<in> {papi_mem_ops, papi_block_ops}" "ctr_env_healthy env"
    and "header_fits papi d pm" "all_intact d pm" "distinct_copies (record_of d pm) P"
    and "restored_state d pm P st" "b \<in> {1 .. nblocks pm} - P" "record_of d pm b = Some p"
    and "kept (record_of d pm) P k" "record_of d pm k = Some q"
    and "pmbm_device_sector q = pmbm_device_sector p" "pmbm_xid q = pmbm_xid p"
  shows "\<exists>pa' bc'. cache_ctr_restore_or_init_block dbg papi CACHE_DEVICE_OP_RESTORE env b st =
    Some (- EL2NSYNC, fst st, pa', bc')"
proof -
  have "\<exists>st'. cache_ctr_restore_or_init_block dbg papi CACHE_DEVICE_OP_RESTORE env b st = Some (- EL2NSYNC, st') \<and>
      fst st' = fst st"
    using assms(1)
  proof (elim insertE emptyE)
    assume papi: "papi = papi_mem_ops"
    show ?thesis unfolding papi by (rule mem_dev.restore_conflict [OF assms(2-12) [unfolded papi]])
  next
    assume papi: "papi = papi_block_ops"
    show ?thesis unfolding papi by (rule block_dev.restore_conflict [OF assms(2-12) [unfolded papi]])
  qed
  then show ?thesis by auto
qed

section \<open>A device with two copies of a sector\<close>

definition example_empty_cache :: "pmem_header \<Rightarrow> bittern_cache" where
  "example_empty_cache pm = example_cache\<lparr> bc_total_entries := 0, bc_lm_cache_blocks := nblocks pm,
     bc_invalid_entries := 0, bc_invalid_entries_list := [], bc_valid_entries := 0,
     bc_valid_entries_clean := 0, bc_valid_entries_dirty := 0, bc_valid_entries_list := [],
     bc_valid_entries_clean_list := [], bc_valid_entries_dirty_list := [], bc_rb_root := Leaf \<rparr>"

definition example_ctr_env :: "nat \<Rightarrow> ctr_env" where
  "example_ctr_env b = \<lparr> ce_restore = example_env, ce_init = example_env \<rparr>"

lemma example_ctr_setup [simp]: "cache_ready (example_empty_cache pm) pm" "ctr_env_healthy (example_ctr_env b)"
  by (simp_all add: cache_ready_def empty_cache_def example_empty_cache_def example_cache_def example_rbtree_kernel
      bittern_cache_ok_unsized_def cache_replacement_mode_ok_def ctr_env_healthy_def example_ctr_env_def)

text \<open>A clean record of a sector, with its hashes.\<close>

definition example_record :: "pmem_dev \<Rightarrow> pmem_header \<Rightarrow> nat \<Rightarrow> sector_t \<Rightarrow> u64 \<Rightarrow> pmem_block_metadata" where
  "example_record d pm b s x =
     (let p = \<lparr> pmbm_magic = MCBM_MAGIC, pmbm_block_id = of_nat b, pmbm_device_sector = s, pmbm_xid = x,
        pmbm_status = 1, pmbm_alignment_gap = replicate 4 0,
        pmbm_hash_data = murmurhash3_128 (data_at d pm b) PAGE_SIZE, pmbm_hash_metadata = UINT128_ZERO \<rparr>
      in p\<lparr> pmbm_hash_metadata := metadata_hash p \<rparr>)"

lemma place_record:
  fixes d :: pmem_dev and x :: u64
  assumes wf: "layout_wf pm" and b: "b \<in> {1 .. nblocks pm}"
    and s: "is_sector_cache_aligned s" "is_sector_number_valid s"
  defines "d' \<equiv> dev_write d (metadata_offset pm b) (metadata_bytes (example_record d pm b s x))"
  shows "only_metadata pm b d d'" "record_of d' pm b = Some (example_record d pm b s x)" "block_intact d' pm b"
proof -
  let ?p = "example_record d pm b s x"
  have sz: "metadata_sized ?p" by (simp add: example_record_def Let_def metadata_sized_def)
  note len = length_metadata_bytes [OF sz]
  have bb: "1 \<le> b" "b \<le> nblocks pm" using b by auto
  show om: "only_metadata pm b d d'"
    using len block_regions(3) [OF wf bb bb]
    by (intro only_metadataI [OF wf bb]) (auto simp: d'_def pd_bytes_dev_write)
  have "dev_read d' (metadata_offset pm b) 64 = metadata_bytes ?p"
    unfolding d'_def using dev_read_dev_write [of d "metadata_offset pm b" "metadata_bytes ?p"] len by simp
  then have meta: "meta_at d' pm b = ?p" by (simp add: meta_at_def metadata_of_bytes_bytes sz)
  show r: "record_of d' pm b = Some ?p"
    by (simp add: record_of_def meta) (simp add: example_record_def Let_def)
  have "data_at d' pm b = data_at d pm b" using om b by (simp add: only_metadata_def)
  moreover have "metadata_hash ?p = pmbm_hash_metadata ?p"
    unfolding example_record_def Let_def by (subst metadata_hash_upd) (simp_all add: metadata_sized_def)
  ultimately show "block_intact d' pm b"
    unfolding block_intact_def Let_def meta r using s
    by (simp add: example_record_def Let_def CACHE_STATE_VALID_def cache_states_def)
qed

lemma nblocks_bound: "layout_wf pm \<Longrightarrow> nblocks pm * 4096 \<le> cache_size pm"
  using layout_wf_seq(3) [of pm] layout_wf_int(4) [of pm] by (cases "sequential pm") auto

lemma example_created:
  obtains d and pa :: pmem_api where "header_fits papi_mem_ops d (papi_hdr pa)"
    "nblocks (papi_hdr pa) + 128 < 2 ^ 32"
    "\<And>b. b \<in> {1 .. nblocks (papi_hdr pa)} \<Longrightarrow> block_intact d (papi_hdr pa) b \<and> record_of d (papi_hdr pa) b = None"
proof -
  obtain d and pa :: pmem_api where d: "copies_valid papi_mem_ops d (papi_hdr pa)" "pd_size d = 0x200000"
    using example_new_cache by blast
  have f: "header_fits papi_mem_ops d (papi_hdr pa)" using copies_validD(1) [OF d(1)] .
  then have "nblocks (papi_hdr pa) * 4096 \<le> cache_size (papi_hdr pa)" "cache_size (papi_hdr pa) \<le> 2097152"
    using nblocks_bound [of "papi_hdr pa"] d(2) by (simp_all add: header_fits_def)
  then have n: "nblocks (papi_hdr pa) + 128 < 2 ^ 32" by simp
  let ?s = "(started_workers 128, d, pa, example_empty_cache (papi_hdr pa))"
  have inv: "cw.workers_inv (papi_hdr pa) papi_mem_ops example_ctr_env ?s"
    by (rule cw.ws.invar_init [OF create_start]) (use f n in simp_all)
  obtain wqs d' pa' bc' where run: "(restore_step True papi_mem_ops CACHE_DEVICE_OP_CREATE example_ctr_env)\<^sup>*\<^sup>* ?s (wqs, d', pa', bc')"
      "workers_done wqs"
    using cw.run_completes [OF inv, of True] by auto
  note steps = create_steps [OF _ _ f n _ run(1)]
  have "create_handled papi_mem_ops example_ctr_env (papi_hdr pa) {1 .. nblocks (papi_hdr pa)} (d', pa', bc')"
    using cw.workers_finished(2) [OF steps(1) run(2)] steps(2) all_workers_ids by simp
  then have "created_state papi_mem_ops (papi_hdr pa) {1 .. nblocks (papi_hdr pa)} (d', pa', bc')"
    by (simp add: create_handled_def)
  then have F: "header_fits papi_mem_ops d' (papi_hdr pa)"
    "b \<in> {1 .. nblocks (papi_hdr pa)} \<Longrightarrow> block_intact d' (papi_hdr pa) b \<and> record_of d' (papi_hdr pa) b = None" for b
    by (simp_all add: created_state_def)
  show thesis by (rule that [OF F(1) n F(2)])
qed

lemma example_two_copies:
  obtains d and pa :: pmem_api where "header_fits papi_mem_ops d (papi_hdr pa)"
    "nblocks (papi_hdr pa) + 128 < 2 ^ 32" "all_intact d (papi_hdr pa)" "2 < nblocks (papi_hdr pa)"
    "record_of d (papi_hdr pa) 1 = Some (example_record d (papi_hdr pa) 1 8 x)"
    "record_of d (papi_hdr pa) 2 = Some (example_record d (papi_hdr pa) 2 8 y)"
    "\<And>b. b \<in> {1 .. nblocks (papi_hdr pa)} \<Longrightarrow> 2 < b \<Longrightarrow> record_of d (papi_hdr pa) b = None"
proof (rule example_created)
  fix d0 and pa :: pmem_api
  assume d0: "header_fits papi_mem_ops d0 (papi_hdr pa)" "nblocks (papi_hdr pa) + 128 < 2 ^ 32"
    "\<And>b. b \<in> {1 .. nblocks (papi_hdr pa)} \<Longrightarrow> block_intact d0 (papi_hdr pa) b \<and> record_of d0 (papi_hdr pa) b = None"
  let ?pm = "papi_hdr pa"
  define d1 where "d1 = dev_write d0 (metadata_offset ?pm 1) (metadata_bytes (example_record d0 ?pm 1 8 x))"
  define d2 where "d2 = dev_write d1 (metadata_offset ?pm 2) (metadata_bytes (example_record d1 ?pm 2 8 y))"
  have s: "is_sector_cache_aligned 8" "is_sector_number_valid 8"
    by (simp_all add: is_sector_cache_aligned_unat is_sector_number_valid_unat)
  have wf: "layout_wf ?pm" "2 < nblocks ?pm" using d0(1) by (auto simp: header_fits_def)
  then have in12: "1 \<in> {1 .. nblocks ?pm}" "2 \<in> {1 .. nblocks ?pm}" by auto
  have r1: "only_metadata ?pm 1 d0 d1" "record_of d1 ?pm 1 = Some (example_record d0 ?pm 1 8 x)" "block_intact d1 ?pm 1"
    unfolding d1_def by (rule place_record [OF wf(1) in12(1) s])+
  have r2: "only_metadata ?pm 2 d1 d2" "record_of d2 ?pm 2 = Some (example_record d1 ?pm 2 8 y)" "block_intact d2 ?pm 2"
    unfolding d2_def by (rule place_record [OF wf(1) in12(2) s])+
  have same: "example_record d ?pm b 8 z = example_record d' ?pm b 8 z" if "data_at d ?pm b = data_at d' ?pm b" for d d' b z
    using that by (simp add: example_record_def)
  have data: "data_at d2 ?pm 1 = data_at d0 ?pm 1" "data_at d2 ?pm 2 = data_at d1 ?pm 2"
    using r1(1) r2(1) in12 by (simp_all add: only_metadata_def)
  have b1: "record_of d2 ?pm 1 = Some (example_record d2 ?pm 1 8 x)" "block_intact d2 ?pm 1"
    using only_metadata_record(1,2) [OF r2(1) in12(1)] r1(2,3) same [OF data(1)] by simp_all
  have b2: "record_of d2 ?pm 2 = Some (example_record d2 ?pm 2 8 y)" using r2(2) same [OF data(2)] by simp
  have rest: "record_of d2 ?pm b = None" "block_intact d2 ?pm b" if "b \<in> {1 .. nblocks ?pm}" "2 < b" for b
    using only_metadata_record(1,2) [OF r2(1) that(1)] only_metadata_record(1,2) [OF r1(1) that(1)] d0(3) [OF that(1)] that(2)
    by auto
  have intact: "all_intact d2 ?pm"
    unfolding all_intact_def
  proof
    fix b assume b: "b \<in> {1 .. nblocks ?pm}"
    then consider "b = 1" | "b = 2" | "2 < b" by fastforce
    then show "block_intact d2 ?pm b" using b1(2) r2(3) rest(2) [OF b] by cases simp_all
  qed
  have "pd_size d2 = pd_size d0" using r1(1) r2(1) by (simp add: only_metadata_def)
  note fits = header_fits_size_cong [OF d0(1) this]
  show thesis by (rule that [OF fits d0(2) intact wf(2) b1(1) b2 rest(1)])
qed

lemma example_record_sel [simp]:
  "pmbm_device_sector (example_record d pm b s x) = s" "pmbm_xid (example_record d pm b s x) = x"
  by (simp_all add: example_record_def Let_def)

lemma example_copies_device:
  obtains d and pa :: pmem_api where "device_ok papi_mem_ops d (papi_hdr pa)" "2 < nblocks (papi_hdr pa)"
    "restored_block d (papi_hdr pa) {1 .. nblocks (papi_hdr pa)} 1 = fresh_block 1"
    "bcb_sector (restored_block d (papi_hdr pa) {1 .. nblocks (papi_hdr pa)} 2) = 8"
    "bcb_xid (restored_block d (papi_hdr pa) {1 .. nblocks (papi_hdr pa)} 2) = 9"
proof (rule example_two_copies [of 5 9])
  fix d and pa :: pmem_api
  let ?pm = "papi_hdr pa" and ?N = "{1 .. nblocks (papi_hdr pa)}"
  assume d: "header_fits papi_mem_ops d ?pm" "nblocks ?pm + 128 < 2 ^ 32" "all_intact d ?pm" "2 < nblocks ?pm"
    and r: "record_of d ?pm 1 = Some (example_record d ?pm 1 8 5)" "record_of d ?pm 2 = Some (example_record d ?pm 2 8 9)"
    and none: "\<And>b. b \<in> ?N \<Longrightarrow> 2 < b \<Longrightarrow> record_of d ?pm b = None"
  have cases: "b = 1 \<or> b = 2" if "b \<in> ?N" "record_of d ?pm b = Some p" for b p
  proof (rule ccontr)
    assume "\<not> (b = 1 \<or> b = 2)"
    then have "2 < b" using that(1) by auto
    with none [OF that(1)] that(2) show False by simp
  qed
  have "distinct_copies (record_of d ?pm) ?N"
    unfolding distinct_copies_def
  proof (intro ballI allI impI, elim conjE)
    fix b c p q assume *: "b \<in> ?N" "c \<in> ?N" "b \<noteq> c" "record_of d ?pm b = Some p" "record_of d ?pm c = Some q"
    with cases [OF *(1,4)] cases [OF *(2,5)] r show "pmbm_xid p \<noteq> pmbm_xid q" by auto
  qed
  then have ok: "device_ok papi_mem_ops d ?pm" using d by (simp add: device_ok_def)
  have le: "pmbm_xid q \<le> 9" if "c \<in> ?N" "record_of d ?pm c = Some q" for c q
    using cases [OF that] that r by auto
  then have k2: "kept (record_of d ?pm) ?N 2" using d(4) r(2) by (simp add: kept_def)
  have k1: "\<not> kept (record_of d ?pm) ?N 1"
  proof
    assume "kept (record_of d ?pm) ?N 1"
    from kept_max [OF this r(1) _ r(2)] d(4) show False by simp
  qed
  show thesis
    using k1 k2 d(4) record_of_meta [OF r(2), symmetric] by (intro that [OF ok]) (simp_all add: restored_block_def)
qed

lemma example_restore:
  assumes j: "j \<le> 128"
  obtains d and pa :: pmem_api and wqs d' pa' bc' where
    "device_ok papi_mem_ops d (papi_hdr pa)" "2 < nblocks (papi_hdr pa)"
    "restored_block d (papi_hdr pa) {1 .. nblocks (papi_hdr pa)} 1 = fresh_block 1"
    "bcb_sector (restored_block d (papi_hdr pa) {1 .. nblocks (papi_hdr pa)} 2) = 8"
    "bcb_xid (restored_block d (papi_hdr pa) {1 .. nblocks (papi_hdr pa)} 2) = 9"
    "(restore_step True papi_mem_ops CACHE_DEVICE_OP_RESTORE example_ctr_env)\<^sup>*\<^sup>*
       (started_workers j, d, pa, example_empty_cache (papi_hdr pa)) (wqs, d', pa', bc')" "workers_done wqs"
proof (rule example_copies_device)
  fix d and pa :: pmem_api
  assume d: "device_ok papi_mem_ops d (papi_hdr pa)" "2 < nblocks (papi_hdr pa)"
    "restored_block d (papi_hdr pa) {1 .. nblocks (papi_hdr pa)} 1 = fresh_block 1"
    "bcb_sector (restored_block d (papi_hdr pa) {1 .. nblocks (papi_hdr pa)} 2) = 8"
    "bcb_xid (restored_block d (papi_hdr pa) {1 .. nblocks (papi_hdr pa)} 2) = 9"
  have inv: "rw.workers_inv (papi_hdr pa) papi_mem_ops example_ctr_env d
      (started_workers j, d, pa, example_empty_cache (papi_hdr pa))"
    using d(1) j by (intro rw.ws.invar_init restore_start) simp_all
  obtain t where t: "(restore_step True papi_mem_ops CACHE_DEVICE_OP_RESTORE example_ctr_env)\<^sup>*\<^sup>*
       (started_workers j, d, pa, example_empty_cache (papi_hdr pa)) t" "workers_done (fst t)"
    using rw.run_completes [OF inv, of True] by blast
  obtain wqs d' pa' bc' where "t = (wqs, d', pa', bc')" by (cases t)
  with t that [OF d] show thesis by simp
qed


theorem restore_terminates_witness:
  "\<exists>d pa m wqs st. (restore_step True papi_mem_ops CACHE_DEVICE_OP_RESTORE example_ctr_env ^^ m)
      (started_workers 128, d, pa, example_empty_cache (papi_hdr pa)) (wqs, st) \<and>
    workers_done wqs \<and> m \<le> nblocks (papi_hdr pa) + 128"
proof (rule example_restore [of 128])
  fix d and pa :: pmem_api and wqs d' pa' bc'
  assume d: "device_ok papi_mem_ops d (papi_hdr pa)" and fin: "workers_done wqs"
    and run: "(restore_step True papi_mem_ops CACHE_DEVICE_OP_RESTORE example_ctr_env)\<^sup>*\<^sup>*
       (started_workers 128, d, pa, example_empty_cache (papi_hdr pa)) (wqs, d', pa', bc')"
  obtain m where m: "(restore_step True papi_mem_ops CACHE_DEVICE_OP_RESTORE example_ctr_env ^^ m)
      (started_workers 128, d, pa, example_empty_cache (papi_hdr pa)) (wqs, d', pa', bc')"
    by (rule exE [OF rtranclp_imp_relpowp [OF run]])
  from restore_terminates [OF _ _ d _ m] have "m \<le> nblocks (papi_hdr pa) + 128" by simp
  with m fin show ?thesis by blast
qed simp

theorem restore_interrupted_witness:
  "\<exists>d pa wqs d' pa' bc'. (restore_step True papi_mem_ops CACHE_DEVICE_OP_RESTORE example_ctr_env)\<^sup>*\<^sup>*
      (started_workers 128, d, pa, example_empty_cache (papi_hdr pa)) (wqs, d', pa', bc') \<and>
    device_ok papi_mem_ops d' (papi_hdr pa) \<and>
    bcb_xid (restored_block d' (papi_hdr pa) {1 .. nblocks (papi_hdr pa)} 2) = 9"
proof (rule example_restore [of 128])
  fix d and pa :: pmem_api and wqs d' pa' bc'
  assume d: "device_ok papi_mem_ops d (papi_hdr pa)" "2 < nblocks (papi_hdr pa)"
    "bcb_xid (restored_block d (papi_hdr pa) {1 .. nblocks (papi_hdr pa)} 2) = 9"
    and run: "(restore_step True papi_mem_ops CACHE_DEVICE_OP_RESTORE example_ctr_env)\<^sup>*\<^sup>*
       (started_workers 128, d, pa, example_empty_cache (papi_hdr pa)) (wqs, d', pa', bc')"
  have crash: "some_metadata_written (papi_hdr pa) d d' d'" by (simp add: some_metadata_written_def)
  from restore_interrupted [OF _ _ d(1) _ run crash] have "device_ok papi_mem_ops d' (papi_hdr pa)"
    "restored_block d' (papi_hdr pa) {1 .. nblocks (papi_hdr pa)} 2 = restored_block d (papi_hdr pa) {1 .. nblocks (papi_hdr pa)} 2"
    using d(2) by auto
  with run d(3) show ?thesis by metis
qed simp

theorem torn_metadata_fails_restore_witness:
  "\<exists>(d :: pmem_dev) (pa :: pmem_api) new pa' bc'. block_intact d (papi_hdr pa) 1 \<and>
    cache_ctr_restore_or_init_block True papi_mem_ops CACHE_DEVICE_OP_RESTORE (example_ctr_env 1) 1
      (dev_write d (metadata_offset (papi_hdr pa) 1) (take 1 new), pa, example_empty_cache (papi_hdr pa)) =
      Some (- EHWPOISON, dev_write d (metadata_offset (papi_hdr pa) 1) (take 1 new), pa', bc')"
proof (rule example_created)
  fix d :: pmem_dev and pa :: pmem_api
  let ?pm = "papi_hdr pa"
  let ?o = "metadata_offset ?pm 1"
  let ?new = "replicate 64 (pd_bytes d ?o + 1)"
  assume d: "header_fits papi_mem_ops d ?pm"
    "\<And>b. b \<in> {1 .. nblocks ?pm} \<Longrightarrow> block_intact d ?pm b \<and> record_of d ?pm b = None"
  have one: "1 \<in> {1 .. nblocks ?pm} - {}" using d(1) by (simp add: header_fits_def)
  have ne: "take 1 ?new \<noteq> dev_read d ?o 1" by (simp add: dev_read_def)
  have st: "restored_state (dev_write d ?o (take 1 ?new)) ?pm {}
      (dev_write d ?o (take 1 ?new), pa, example_empty_cache ?pm)"
    using example_ctr_setup(1) [of ?pm] by (intro restored_state_empty) (simp_all add: cache_ready_def)
  have i: "block_intact d ?pm 1" using d(2) [of 1] one by simp
  have "\<exists>pa' bc'. cache_ctr_restore_or_init_block True papi_mem_ops CACHE_DEVICE_OP_RESTORE (example_ctr_env 1) 1
      (dev_write d ?o (take 1 ?new), pa, example_empty_cache ?pm) = Some (- EHWPOISON, dev_write d ?o (take 1 ?new), pa', bc')"
    using torn_metadata_fails_restore [OF _ example_ctr_setup(2) d(1) i one _ _ ne st, of True 1] by simp
  with i show ?thesis by blast
qed



theorem too_few_workers_stop_the_kernel_witness:
  "\<exists>d pa wqs st. (restore_step True papi_mem_ops CACHE_DEVICE_OP_RESTORE example_ctr_env)\<^sup>*\<^sup>*
      (started_workers 1, d, pa, example_empty_cache (papi_hdr pa)) (wqs, st) \<and> workers_done wqs \<and>
    cache_ctr_restore_or_init_workqueues True (wqs, st) = None"
proof (rule example_restore [of 1])
  fix d and pa :: pmem_api and wqs d' pa' bc'
  assume d: "device_ok papi_mem_ops d (papi_hdr pa)" "2 < nblocks (papi_hdr pa)" and fin: "workers_done wqs"
    and run: "(restore_step True papi_mem_ops CACHE_DEVICE_OP_RESTORE example_ctr_env)\<^sup>*\<^sup>*
       (started_workers 1, d, pa, example_empty_cache (papi_hdr pa)) (wqs, d', pa', bc')"
  have "cache_ctr_restore_or_init_workqueues True (wqs, d', pa', bc') = None"
    using too_few_workers_stop_the_kernel [OF _ _ d(1) _ _ _ run fin] d(2) by simp
  with run fin show ?thesis by blast
qed simp

theorem same_xid_rejected_witness:
  "\<exists>d (pa :: pmem_api) st pa' bc'. restored_state d (papi_hdr pa) {1} st \<and>
    cache_ctr_restore_or_init_block True papi_mem_ops CACHE_DEVICE_OP_RESTORE (example_ctr_env 2) 2 st =
      Some (- EL2NSYNC, fst st, pa', bc')"
proof (rule example_two_copies [of 7 7])
  fix d and pa :: pmem_api
  let ?pm = "papi_hdr pa"
  assume d: "header_fits papi_mem_ops d ?pm" "all_intact d ?pm" "2 < nblocks ?pm"
    and r: "record_of d ?pm 1 = Some (example_record d ?pm 1 8 7)" "record_of d ?pm 2 = Some (example_record d ?pm 2 8 7)"
  have st0: "restored_state d ?pm {} (d, pa, example_empty_cache ?pm)"
    using example_ctr_setup(1) [of ?pm] by (intro restored_state_empty) (simp_all add: cache_ready_def)
  have dist: "distinct_copies (record_of d ?pm) {1}" by (simp add: distinct_copies_def)
  have "1 \<in> {1 .. nblocks ?pm} - {}" using d(3) by simp
  from mem_dev.restore_one [OF example_ctr_setup(2) d(1,2) dist st0 this, of True]
  obtain st where st: "restored_state d ?pm {1} st" by blast
  have "kept (record_of d ?pm) {1} 1" using r(1) by (simp add: kept_def)
  from same_xid_rejected [OF _ example_ctr_setup(2) d(1,2) dist st _ r(2) this r(1)] d(3)
  have "\<exists>pa' bc'. cache_ctr_restore_or_init_block True papi_mem_ops CACHE_DEVICE_OP_RESTORE (example_ctr_env 2) 2 st =
      Some (- EL2NSYNC, fst st, pa', bc')" by simp
  with st show ?thesis by blast
qed

end
