(* ===== verification/Pmem_Async.thy ===== *)
theory Pmem_Async
  imports Cache_Restore
begin

unbundle bit_operations_syntax

text \<open>
  The asynchronous transfers of pages and metadata (\<open>bittern_cache_pmem_api.c\<close> and the two
  providers).  A request has a context that says which buffer it works on: the memory provider
  hands out the mapped page of the device itself, the block provider a page of its own that is
  transferred later, in two requests when data and metadata are written.  Both are shown to
  implement one contract, the interface \<open>page_provider\<close>: what a page holds, what is on the
  device at every moment, and that nothing outside the block is touched.
\<close>

section \<open>Contexts\<close>

definition CACHE_DI_FLAGS_DOUBLE_BUFFERING :: int where
  "CACHE_DI_FLAGS_DOUBLE_BUFFERING = 1"

definition CACHE_DI_FLAGS_PMEM_READ :: int where
  "CACHE_DI_FLAGS_PMEM_READ = 2"

definition CACHE_DI_FLAGS_PMEM_WRITE :: int where
  "CACHE_DI_FLAGS_PMEM_WRITE = 4"

text \<open>
  A page is in the mapped memory of the device, at the offset given, or it is the page that was
  allocated for the context.  The pointer to the page descriptor always goes with the pointer to
  the bytes and is not kept separately.
\<close>

datatype di_addr = Mapped nat | Vmalloc

record data_buffer_info =
  di_buffer_vmalloc_buffer :: "u8 list option"
  di_buffer :: "di_addr option"
  di_flags :: int
  di_busy :: int

datatype bio_dir = READ | WRITE

text \<open>The completion function of the request in progress.\<close>

datatype ctx_endio_t =
    Metadata_async_write_endio
  | Data_get_page_read_endio
  | Data_put_page_write_endio
  | Data_put_page_write_metadata_endio

record pmem_context =
  ctx_pmbm :: pmem_block_metadata
  dbi :: data_buffer_info
  ma_cache_block :: nat
  ma_metadata_state :: cache_state
  bi_datadir :: bio_dir
  ctx_bi_sector :: u64
  ctx_endio :: ctx_endio_t

type_synonym pmem_state = "pmem_context \<times> pmem_dev"

definition pmem_dbi_ok :: "data_buffer_info \<Rightarrow> int \<Rightarrow> bool" where
  "pmem_dbi_ok di flags \<longleftrightarrow>
     di_buffer_vmalloc_buffer di \<noteq> None \<and>
     di_flags di AND flags = flags \<and>
     (if di_flags di AND CACHE_DI_FLAGS_DOUBLE_BUFFERING \<noteq> 0 then di_buffer di = Some Vmalloc
      else di_buffer di \<noteq> None) \<and>
     di_flags di \<noteq> 0 \<and> di_busy di = 1"

definition pmem_set_dbi :: "bool \<Rightarrow> int \<Rightarrow> nat \<Rightarrow> data_buffer_info \<Rightarrow> data_buffer_info option" where
  "pmem_set_dbi dbg flags vaddr di =
     do {
       ASSERT dbg (flags AND CACHE_DI_FLAGS_DOUBLE_BUFFERING = 0);
       ASSERT dbg (di_buffer di = None);
       ASSERT dbg (di_flags di = 0);
       ASSERT dbg (di_busy di = 0);
       Some (di\<lparr> di_buffer := Some (Mapped vaddr), di_flags := flags, di_busy := di_busy di + 1 \<rparr>)
     }"

definition pmem_set_dbi_double_buffering ::
  "bool \<Rightarrow> int \<Rightarrow> data_buffer_info \<Rightarrow> data_buffer_info option" where
  "pmem_set_dbi_double_buffering dbg flags di =
     do {
       ASSERT dbg (flags AND CACHE_DI_FLAGS_DOUBLE_BUFFERING \<noteq> 0);
       ASSERT dbg (di_buffer di = None);
       ASSERT dbg (di_flags di = 0);
       ASSERT dbg (di_busy di = 0);
       ASSERT dbg (di_buffer_vmalloc_buffer di \<noteq> None);
       Some (di\<lparr> di_buffer := (if di_buffer_vmalloc_buffer di = None then None else Some Vmalloc),
                 di_flags := flags, di_busy := di_busy di + 1 \<rparr>)
     }"

definition pmem_clear_dbi :: "bool \<Rightarrow> int \<Rightarrow> data_buffer_info \<Rightarrow> data_buffer_info option" where
  "pmem_clear_dbi dbg flags di =
     do {
       ASSERT dbg (pmem_dbi_ok di flags);
       let di = di\<lparr> di_buffer := None, di_flags := 0, di_busy := di_busy di - 1 \<rparr>;
       ASSERT dbg (di_busy di = 0);
       Some di
     }"

definition zero_metadata :: pmem_block_metadata where
  "zero_metadata =
     \<lparr> pmbm_magic = 0, pmbm_block_id = 0, pmbm_device_sector = 0, pmbm_xid = 0, pmbm_status = 0,
       pmbm_alignment_gap = replicate 4 0, pmbm_hash_data = UINT128_ZERO,
       pmbm_hash_metadata = UINT128_ZERO \<rparr>"

definition pmem_context_initialize :: pmem_context where
  "pmem_context_initialize =
     \<lparr> ctx_pmbm = zero_metadata,
       dbi = \<lparr> di_buffer_vmalloc_buffer = None, di_buffer = None, di_flags = 0, di_busy = 0 \<rparr>,
       ma_cache_block = 0, ma_metadata_state = S_INVALID, bi_datadir = READ, ctx_bi_sector = 0,
       ctx_endio = Metadata_async_write_endio \<rparr>"

text \<open>The argument is the page that the allocator returns, with its contents.\<close>

definition pmem_context_setup ::
  "bittern_cache \<Rightarrow> u8 list option \<Rightarrow> pmem_context \<Rightarrow> (int \<times> pmem_context) option" where
  "pmem_context_setup bc page ctx =
     do {
       ASSERT_BITTERN_CACHE bc;
       let di = dbi ctx;
       ASSERT (assert_on bc) (di_buffer_vmalloc_buffer di = None);
       ASSERT (assert_on bc) (di_buffer di = None);
       ASSERT (assert_on bc) (di_flags di = 0);
       ASSERT (assert_on bc) (di_busy di = 0);
       let di = di\<lparr> di_buffer_vmalloc_buffer := page \<rparr>;
       if page = None then Some (- ENOMEM, ctx\<lparr> dbi := di \<rparr>)
       else Some (0, ctx\<lparr> dbi := di \<rparr>)
     }"

definition pmem_context_destroy :: "bittern_cache \<Rightarrow> pmem_context \<Rightarrow> pmem_context option" where
  "pmem_context_destroy bc ctx =
     do {
       ASSERT_BITTERN_CACHE bc;
       let di = dbi ctx;
       ASSERT (assert_on bc) (di_buffer di = None);
       ASSERT (assert_on bc) (di_flags di = 0);
       ASSERT (assert_on bc) (di_busy di = 0);
       Some (ctx\<lparr> dbi := di\<lparr> di_buffer_vmalloc_buffer := None \<rparr> \<rparr>)
     }"

text \<open>
  Access through the address that \<open>pmem_context_data_vaddr\<close> returns: the page it points to, and
  the state after bytes have been copied to an offset in it.
\<close>

definition pmem_context_data_vaddr :: "bool \<Rightarrow> pmem_context \<Rightarrow> di_addr option" where
  "pmem_context_data_vaddr dbg ctx =
     do {
       ASSERT dbg (pmem_dbi_ok (dbi ctx) 0);
       ASSERT dbg (di_buffer (dbi ctx) \<noteq> None);
       di_buffer (dbi ctx)
     }"

definition overwrite :: "nat \<Rightarrow> 'a list \<Rightarrow> 'a list \<Rightarrow> 'a list" where
  "overwrite off bs xs = take off xs @ bs @ drop (off + length bs) xs"

definition page_at :: "pmem_state \<Rightarrow> di_addr \<Rightarrow> u8 list option" where
  "page_at st a =
     (case a of Mapped off \<Rightarrow> Some (dev_read (snd st) off PAGE_SIZE)
      | Vmalloc \<Rightarrow> di_buffer_vmalloc_buffer (dbi (fst st)))"

definition copy_to_page :: "di_addr \<Rightarrow> nat \<Rightarrow> u8 list \<Rightarrow> pmem_state \<Rightarrow> pmem_state option" where
  "copy_to_page a pos bs st =
     (case (a, st) of
        (Mapped off, (ctx, d)) \<Rightarrow> Some (ctx, dev_write d (off + pos) bs)
      | (Vmalloc, (ctx, d)) \<Rightarrow>
          (case di_buffer_vmalloc_buffer (dbi ctx) of None \<Rightarrow> None
           | Some page \<Rightarrow> Some (ctx\<lparr> dbi := (dbi ctx)
               \<lparr> di_buffer_vmalloc_buffer := Some (overwrite pos bs page) \<rparr> \<rparr>, d)))"

section \<open>The metadata of a block\<close>

text \<open>
  The fields that every writer of metadata sets; the bytes that belong to no field are those of
  the buffer the record is built in.
\<close>

definition pmbm_fill ::
  "bittern_cache \<Rightarrow> nat \<Rightarrow> cache_state \<Rightarrow> u64 \<Rightarrow> pmem_block_metadata \<Rightarrow> pmem_block_metadata" where
  "pmbm_fill bc b metadata_update_state sector pmbm =
     (let pmbm = pmbm\<lparr> pmbm_magic := MCBM_MAGIC,
            pmbm_block_id := of_nat (bcb_block_id (blk bc b)),
            pmbm_status := pmbm_status_of metadata_update_state,
            pmbm_device_sector := sector,
            pmbm_xid := bcb_xid (blk bc b),
            pmbm_hash_data := bcb_hash_data (blk bc b) \<rparr>
      in pmbm\<lparr> pmbm_hash_metadata := metadata_hash pmbm \<rparr>)"

definition pmem_block_asserts :: "pmem_api \<Rightarrow> bittern_cache \<Rightarrow> nat \<Rightarrow> unit option" where
  "pmem_block_asserts pa bc b =
     do {
       ASSERT_BITTERN_CACHE bc;
       ASSERT_CACHE_BLOCK b bc;
       ASSERT (assert_on bc) (lm_cache_blocks (papi_hdr pa) \<noteq> 0);
       ASSERT (assert_on bc) (bcb_state (blk bc b) \<noteq> S_INVALID)
     }"

abbreviation metadata_offset_of ::
  "pmem_api \<Rightarrow> bittern_cache \<Rightarrow> nat \<Rightarrow> pmem_dev \<Rightarrow> u64 option" where
  "metadata_offset_of pa bc b d \<equiv>
     cache_block_id_2_metadata_pmem_offset (assert_on bc) (pd_size d) (papi_hdr pa)
       (of_nat (bcb_block_id (blk bc b)))"

abbreviation data_offset_of ::
  "pmem_api \<Rightarrow> bittern_cache \<Rightarrow> nat \<Rightarrow> pmem_dev \<Rightarrow> u64 option" where
  "data_offset_of pa bc b d \<equiv>
     cache_block_id_2_data_pmem_offset (assert_on bc) (pd_size d) (papi_hdr pa)
       (of_nat (bcb_block_id (blk bc b)))"

section \<open>Memory provider\<close>

text \<open>
  An operation with a callback returns the error with which the callback is called, if it is
  called before the operation returns.
\<close>

definition pmem_metadata_write_mem ::
  "pmem_io \<Rightarrow> pmem_api \<Rightarrow> bittern_cache \<Rightarrow> nat \<Rightarrow> pmem_block_metadata \<Rightarrow> pmem_dev \<Rightarrow>
     pmem_dev option" where
  "pmem_metadata_write_mem io pa bc b pmbm d =
     do {
       to_offset \<leftarrow> metadata_offset_of pa bc b d;
       let end_offset = to_offset + PMEM_BLOCK_METADATA_SIZE - 1;
       M_ASSERT (to_offset AND PAGE_MASK = end_offset AND PAGE_MASK);
       M_ASSERT (io_dax_ok io);
       let dax_addr = unat ((to_offset AND PAGE_MASK) div of_nat SECTOR_SIZE) * SECTOR_SIZE;
       Some (dev_write d (dax_addr + unat (to_offset mod PAGE_SIZE64)) (metadata_bytes pmbm))
     }"

definition pmem_metadata_async_write_mem ::
  "pmem_io \<Rightarrow> pmem_api \<Rightarrow> bittern_cache \<Rightarrow> nat \<Rightarrow> cache_state \<Rightarrow> pmem_state \<Rightarrow>
     (pmem_state \<times> int option) option" where
  "pmem_metadata_async_write_mem io pa bc b metadata_update_state st =
     do {
       let (ctx, d) = st;
       pmem_block_asserts pa bc b;
       ASSERT (assert_on bc) (stable_state metadata_update_state);
       ASSERT (assert_on bc) (is_sector_number_valid (bcb_sector (blk bc b)));
       ASSERT (assert_on bc) (lm_mcb_size_bytes (papi_hdr pa) = ucast PMEM_BLOCK_METADATA_SIZE);
       let pmbm = pmbm_fill bc b metadata_update_state
         (if metadata_update_state = S_INVALID then - 1 else bcb_sector (blk bc b)) (ctx_pmbm ctx);
       d \<leftarrow> pmem_metadata_write_mem io pa bc b pmbm d;
       Some ((ctx\<lparr> ctx_pmbm := pmbm \<rparr>, d), Some 0)
     }"

text \<open>The mapped page of the data of a block.\<close>

definition pmem_data_map ::
  "pmem_io \<Rightarrow> pmem_api \<Rightarrow> bittern_cache \<Rightarrow> nat \<Rightarrow> pmem_dev \<Rightarrow> nat option" where
  "pmem_data_map io pa bc b d =
     do {
       offset \<leftarrow> data_offset_of pa bc b d;
       ASSERT (assert_on bc) (offset mod PAGE_SIZE64 = 0);
       M_ASSERT (io_dax_ok io);
       Some (unat (offset div of_nat SECTOR_SIZE) * SECTOR_SIZE)
     }"

definition pmem_data_get_page_read_mem ::
  "pmem_io \<Rightarrow> pmem_api \<Rightarrow> bittern_cache \<Rightarrow> nat \<Rightarrow> pmem_state \<Rightarrow> (pmem_state \<times> int option) option" where
  "pmem_data_get_page_read_mem io pa bc b st =
     do {
       let (ctx, d) = st;
       pmem_block_asserts pa bc b;
       cache_vaddr \<leftarrow> pmem_data_map io pa bc b d;
       di \<leftarrow> pmem_set_dbi (assert_on bc) CACHE_DI_FLAGS_PMEM_READ cache_vaddr (dbi ctx);
       Some ((ctx\<lparr> dbi := di \<rparr>, d), Some 0)
     }"

definition pmem_data_put_page_read_mem ::
  "pmem_api \<Rightarrow> bittern_cache \<Rightarrow> nat \<Rightarrow> pmem_state \<Rightarrow> pmem_state option" where
  "pmem_data_put_page_read_mem pa bc b st =
     do {
       let (ctx, d) = st;
       pmem_block_asserts pa bc b;
       ASSERT (assert_on bc) (di_buffer (dbi ctx) \<noteq> None);
       ASSERT (assert_on bc) (di_flags (dbi ctx) = CACHE_DI_FLAGS_PMEM_READ);
       di \<leftarrow> pmem_clear_dbi (assert_on bc) 0 (dbi ctx);
       Some (ctx\<lparr> dbi := di \<rparr>, d)
     }"

definition pmem_data_convert_read_to_write_mem ::
  "pmem_api \<Rightarrow> bittern_cache \<Rightarrow> nat \<Rightarrow> pmem_state \<Rightarrow> pmem_state option" where
  "pmem_data_convert_read_to_write_mem pa bc b st =
     do {
       let (ctx, d) = st;
       pmem_block_asserts pa bc b;
       ASSERT (assert_on bc) (pmem_dbi_ok (dbi ctx) 0);
       ASSERT (assert_on bc) (di_flags (dbi ctx) AND CACHE_DI_FLAGS_PMEM_READ \<noteq> 0);
       ASSERT (assert_on bc) (di_flags (dbi ctx) AND CACHE_DI_FLAGS_PMEM_WRITE = 0);
       Some (ctx\<lparr> dbi := (dbi ctx)\<lparr> di_flags := di_flags (dbi ctx) OR CACHE_DI_FLAGS_PMEM_WRITE \<rparr> \<rparr>, d)
     }"

definition pmem_data_clone_read_to_write_mem ::
  "pmem_io \<Rightarrow> pmem_api \<Rightarrow> bittern_cache \<Rightarrow> nat \<Rightarrow> nat \<Rightarrow> pmem_state \<Rightarrow> pmem_state option" where
  "pmem_data_clone_read_to_write_mem io pa bc from to st =
     do {
       let (ctx, d) = st;
       pmem_block_asserts pa bc from;
       pmem_block_asserts pa bc to;
       ASSERT (assert_on bc) (bcb_block_id (blk bc to) \<noteq> bcb_block_id (blk bc from));
       ASSERT (assert_on bc) (pmem_dbi_ok (dbi ctx) 0);
       ASSERT (assert_on bc) (di_flags (dbi ctx) AND CACHE_DI_FLAGS_PMEM_READ \<noteq> 0);
       ASSERT (assert_on bc) (di_flags (dbi ctx) AND CACHE_DI_FLAGS_PMEM_WRITE = 0);
       to_buffer \<leftarrow> pmem_data_map io pa bc to d;
       from_buffer \<leftarrow> di_buffer (dbi ctx);
       page \<leftarrow> page_at st from_buffer;
       Some (ctx\<lparr> dbi := (dbi ctx)\<lparr> di_buffer := Some (Mapped to_buffer),
                 di_flags := di_flags (dbi ctx) OR CACHE_DI_FLAGS_PMEM_WRITE \<rparr> \<rparr>,
             dev_write d to_buffer page)
     }"

definition pmem_data_get_page_write_mem ::
  "pmem_io \<Rightarrow> pmem_api \<Rightarrow> bittern_cache \<Rightarrow> nat \<Rightarrow> pmem_state \<Rightarrow> pmem_state option" where
  "pmem_data_get_page_write_mem io pa bc b st =
     do {
       let (ctx, d) = st;
       pmem_block_asserts pa bc b;
       cache_vaddr \<leftarrow> pmem_data_map io pa bc b d;
       di \<leftarrow> pmem_set_dbi (assert_on bc) CACHE_DI_FLAGS_PMEM_WRITE cache_vaddr (dbi ctx);
       Some (ctx\<lparr> dbi := di \<rparr>, d)
     }"

definition pmem_data_put_page_write_mem ::
  "pmem_io \<Rightarrow> pmem_api \<Rightarrow> bittern_cache \<Rightarrow> nat \<Rightarrow> cache_state \<Rightarrow> pmem_state \<Rightarrow>
     (pmem_state \<times> int option) option" where
  "pmem_data_put_page_write_mem io pa bc b metadata_update_state st =
     do {
       let (ctx, d) = st;
       pmem_block_asserts pa bc b;
       ASSERT (assert_on bc) (pmem_dbi_ok (dbi ctx) 0);
       ASSERT (assert_on bc) (metadata_update_state = S_CLEAN \<or> metadata_update_state = S_DIRTY);
       ASSERT (assert_on bc) (di_buffer_vmalloc_buffer (dbi ctx) \<noteq> None);
       ASSERT (assert_on bc) (di_buffer (dbi ctx) \<noteq> None);
       ASSERT (assert_on bc) (di_flags (dbi ctx) AND CACHE_DI_FLAGS_PMEM_WRITE \<noteq> 0);
       ASSERT (assert_on bc) (is_sector_number_valid (bcb_sector (blk bc b)));
       let pmbm = pmbm_fill bc b metadata_update_state (bcb_sector (blk bc b)) zero_metadata;
       d \<leftarrow> pmem_metadata_write_mem io pa bc b pmbm d;
       di \<leftarrow> pmem_clear_dbi (assert_on bc) 0 (dbi ctx);
       Some ((ctx\<lparr> ctx_pmbm := pmbm, dbi := di \<rparr>, d), Some 0)
     }"

section \<open>Block provider\<close>

text \<open>
  A request is queued to a worker, which transfers the page and then calls the completion
  function of the context.
\<close>

definition pmem_make_request_defer_block ::
  "bio_dir \<Rightarrow> u64 \<Rightarrow> ctx_endio_t \<Rightarrow> pmem_context \<Rightarrow> pmem_context" where
  "pmem_make_request_defer_block dir pmem_offset endio ctx =
     ctx\<lparr> bi_datadir := dir, ctx_bi_sector := pmem_offset div of_nat SECTOR_SIZE, ctx_endio := endio \<rparr>"

definition pmem_do_make_request_block :: "pmem_io \<Rightarrow> pmem_state \<Rightarrow> (int \<times> pmem_state) option" where
  "pmem_do_make_request_block io st =
     (let (ctx, d) = st in
      if \<not> io_alloc_ok io then Some (- ENOMEM, ctx, d)
      else do {
        di_page \<leftarrow> di_buffer (dbi ctx);
        page \<leftarrow> page_at st di_page;
        let addr = unat (ctx_bi_sector ctx) * SECTOR_SIZE;
        (case bi_datadir ctx of
           READ \<Rightarrow> do {
             st \<leftarrow> copy_to_page di_page 0
               (if io_err io = 0 then dev_read d addr PAGE_SIZE else io_page io) st;
             Some (io_err io, st)
           }
         | WRITE \<Rightarrow>
             Some (io_err io, ctx, dev_write d addr (if io_err io = 0 then page else io_page io)))
      })"

definition pmem_metadata_async_write_endio ::
  "bittern_cache \<Rightarrow> int \<Rightarrow> pmem_state \<Rightarrow> (pmem_state \<times> int option) option" where
  "pmem_metadata_async_write_endio bc err st =
     do {
       let (ctx, d) = st;
       ASSERT_BITTERN_CACHE bc;
       ASSERT_CACHE_BLOCK (ma_cache_block ctx) bc;
       ASSERT (assert_on bc) (di_flags (dbi ctx) =
         CACHE_DI_FLAGS_DOUBLE_BUFFERING OR CACHE_DI_FLAGS_PMEM_WRITE);
       ASSERT (assert_on bc) (pmem_dbi_ok (dbi ctx) CACHE_DI_FLAGS_DOUBLE_BUFFERING);
       di \<leftarrow> pmem_clear_dbi (assert_on bc) CACHE_DI_FLAGS_DOUBLE_BUFFERING (dbi ctx);
       Some ((ctx\<lparr> dbi := di \<rparr>, d), Some err)
     }"

text \<open>The page buffer as a record of metadata that starts with the record and is zero after it.\<close>

definition metadata_page :: "pmem_block_metadata \<Rightarrow> u8 list" where
  "metadata_page pmbm = overwrite 0 (metadata_bytes pmbm) (replicate PAGE_SIZE 0)"

definition set_page :: "u8 list \<Rightarrow> pmem_context \<Rightarrow> pmem_context" where
  "set_page page ctx =
     ctx\<lparr> dbi := (dbi ctx)\<lparr> di_buffer_vmalloc_buffer := Some page \<rparr> \<rparr>"

definition pmem_metadata_async_write_block ::
  "pmem_api \<Rightarrow> bittern_cache \<Rightarrow> nat \<Rightarrow> cache_state \<Rightarrow> pmem_state \<Rightarrow>
     (pmem_state \<times> int option) option" where
  "pmem_metadata_async_write_block pa bc b metadata_update_state st =
     do {
       let (ctx, d) = st;
       pmem_block_asserts pa bc b;
       ASSERT (assert_on bc) (stable_state metadata_update_state);
       ASSERT (assert_on bc) (di_buffer_vmalloc_buffer (dbi ctx) \<noteq> None);
       ASSERT (assert_on bc) (di_buffer (dbi ctx) = None);
       di \<leftarrow> pmem_set_dbi_double_buffering (assert_on bc)
         (CACHE_DI_FLAGS_DOUBLE_BUFFERING OR CACHE_DI_FLAGS_PMEM_WRITE) (dbi ctx);
       ASSERT (assert_on bc) (di_buffer di \<noteq> None);
       ASSERT (assert_on bc) (is_sector_number_valid (bcb_sector (blk bc b)));
       ASSERT (assert_on bc) (lm_mcb_size_bytes (papi_hdr pa) = ucast PAGE_SIZE64);
       let pmbm = pmbm_fill bc b metadata_update_state
         (if metadata_update_state = S_INVALID then - 1 else bcb_sector (blk bc b)) zero_metadata;
       let ctx = set_page (metadata_page pmbm) (ctx\<lparr> dbi := di \<rparr>);
       let ctx = ctx\<lparr> ma_cache_block := b, ma_metadata_state := metadata_update_state \<rparr>;
       to_pmem_offset \<leftarrow> metadata_offset_of pa bc b d;
       Some ((pmem_make_request_defer_block WRITE to_pmem_offset Metadata_async_write_endio ctx, d), None)
     }"

definition pmem_data_get_page_read_endio ::
  "bittern_cache \<Rightarrow> int \<Rightarrow> pmem_state \<Rightarrow> (pmem_state \<times> int option) option" where
  "pmem_data_get_page_read_endio bc err st =
     do {
       let (ctx, d) = st;
       ASSERT_BITTERN_CACHE bc;
       ASSERT_CACHE_BLOCK (ma_cache_block ctx) bc;
       ASSERT (assert_on bc) (di_flags (dbi ctx) =
         CACHE_DI_FLAGS_DOUBLE_BUFFERING OR CACHE_DI_FLAGS_PMEM_READ);
       ASSERT (assert_on bc) (pmem_dbi_ok (dbi ctx) 0);
       Some ((ctx, d), Some err)
     }"

definition pmem_data_get_page_read_block ::
  "pmem_api \<Rightarrow> bittern_cache \<Rightarrow> nat \<Rightarrow> pmem_state \<Rightarrow> (pmem_state \<times> int option) option" where
  "pmem_data_get_page_read_block pa bc b st =
     do {
       let (ctx, d) = st;
       pmem_block_asserts pa bc b;
       di \<leftarrow> pmem_set_dbi_double_buffering (assert_on bc)
         (CACHE_DI_FLAGS_DOUBLE_BUFFERING OR CACHE_DI_FLAGS_PMEM_READ) (dbi ctx);
       let ctx = ctx\<lparr> dbi := di, ma_cache_block := b \<rparr>;
       from_pmem_offset \<leftarrow> data_offset_of pa bc b d;
       Some ((pmem_make_request_defer_block READ from_pmem_offset Data_get_page_read_endio ctx, d), None)
     }"

definition pmem_data_put_page_read_block ::
  "pmem_api \<Rightarrow> bittern_cache \<Rightarrow> nat \<Rightarrow> pmem_state \<Rightarrow> pmem_state option" where
  "pmem_data_put_page_read_block pa bc b st =
     do {
       let (ctx, d) = st;
       pmem_block_asserts pa bc b;
       ASSERT (assert_on bc) (di_flags (dbi ctx) =
         CACHE_DI_FLAGS_DOUBLE_BUFFERING OR CACHE_DI_FLAGS_PMEM_READ);
       di \<leftarrow> pmem_clear_dbi (assert_on bc) CACHE_DI_FLAGS_DOUBLE_BUFFERING (dbi ctx);
       Some (ctx\<lparr> dbi := di \<rparr>, d)
     }"

definition pmem_data_convert_read_to_write_block ::
  "pmem_api \<Rightarrow> bittern_cache \<Rightarrow> nat \<Rightarrow> pmem_state \<Rightarrow> pmem_state option" where
  "pmem_data_convert_read_to_write_block pa bc b st =
     do {
       let (ctx, d) = st;
       pmem_block_asserts pa bc b;
       ASSERT (assert_on bc) (pmem_dbi_ok (dbi ctx) 0);
       ASSERT (assert_on bc) (di_flags (dbi ctx) AND CACHE_DI_FLAGS_PMEM_READ \<noteq> 0);
       ASSERT (assert_on bc) (di_flags (dbi ctx) AND CACHE_DI_FLAGS_PMEM_WRITE = 0);
       Some (ctx\<lparr> dbi := (dbi ctx)\<lparr> di_flags := di_flags (dbi ctx) OR CACHE_DI_FLAGS_PMEM_WRITE \<rparr> \<rparr>, d)
     }"

definition pmem_data_clone_read_to_write_block ::
  "pmem_api \<Rightarrow> bittern_cache \<Rightarrow> nat \<Rightarrow> nat \<Rightarrow> pmem_state \<Rightarrow> pmem_state option" where
  "pmem_data_clone_read_to_write_block pa bc from to st =
     do {
       let (ctx, d) = st;
       pmem_block_asserts pa bc from;
       pmem_block_asserts pa bc to;
       ASSERT (assert_on bc) (bcb_block_id (blk bc to) \<noteq> bcb_block_id (blk bc from));
       ASSERT (assert_on bc) (pmem_dbi_ok (dbi ctx) 0);
       ASSERT (assert_on bc) (di_flags (dbi ctx) AND CACHE_DI_FLAGS_PMEM_READ \<noteq> 0);
       ASSERT (assert_on bc) (di_flags (dbi ctx) AND CACHE_DI_FLAGS_PMEM_WRITE = 0);
       Some (ctx\<lparr> dbi := (dbi ctx)\<lparr> di_flags := di_flags (dbi ctx) OR CACHE_DI_FLAGS_PMEM_WRITE \<rparr> \<rparr>, d)
     }"

definition pmem_data_get_page_write_block ::
  "pmem_api \<Rightarrow> bittern_cache \<Rightarrow> nat \<Rightarrow> pmem_state \<Rightarrow> pmem_state option" where
  "pmem_data_get_page_write_block pa bc b st =
     do {
       let (ctx, d) = st;
       pmem_block_asserts pa bc b;
       di \<leftarrow> pmem_set_dbi_double_buffering (assert_on bc)
         (CACHE_DI_FLAGS_DOUBLE_BUFFERING OR CACHE_DI_FLAGS_PMEM_WRITE) (dbi ctx);
       Some (ctx\<lparr> dbi := di \<rparr>, d)
     }"

definition pmem_write_endio_asserts :: "bittern_cache \<Rightarrow> pmem_context \<Rightarrow> unit option" where
  "pmem_write_endio_asserts bc ctx =
     do {
       ASSERT_BITTERN_CACHE bc;
       ASSERT_CACHE_BLOCK (ma_cache_block ctx) bc;
       ASSERT (assert_on bc) (di_flags (dbi ctx) AND CACHE_DI_FLAGS_DOUBLE_BUFFERING \<noteq> 0);
       ASSERT (assert_on bc) (di_flags (dbi ctx) AND CACHE_DI_FLAGS_PMEM_WRITE \<noteq> 0);
       ASSERT (assert_on bc) (pmem_dbi_ok (dbi ctx) CACHE_DI_FLAGS_DOUBLE_BUFFERING)
     }"

definition pmem_data_put_page_write_metadata_endio ::
  "bittern_cache \<Rightarrow> int \<Rightarrow> pmem_state \<Rightarrow> (pmem_state \<times> int option) option" where
  "pmem_data_put_page_write_metadata_endio bc err st =
     do {
       let (ctx, d) = st;
       pmem_write_endio_asserts bc ctx;
       di \<leftarrow> pmem_clear_dbi (assert_on bc) 0 (dbi ctx);
       Some ((ctx\<lparr> dbi := di \<rparr>, d), Some err)
     }"

text \<open>After the data, the same buffer is used to write the metadata.\<close>

definition pmem_data_put_page_write_endio ::
  "pmem_api \<Rightarrow> bittern_cache \<Rightarrow> int \<Rightarrow> pmem_state \<Rightarrow> (pmem_state \<times> int option) option" where
  "pmem_data_put_page_write_endio pa bc err st =
     do {
       let (ctx, d) = st;
       let b = ma_cache_block ctx;
       pmem_write_endio_asserts bc ctx;
       if err \<noteq> 0 then do {
         di \<leftarrow> pmem_clear_dbi (assert_on bc) 0 (dbi ctx);
         Some ((ctx\<lparr> dbi := di \<rparr>, d), Some err)
       } else do {
         ASSERT (assert_on bc) (di_buffer (dbi ctx) \<noteq> None);
         ASSERT (assert_on bc) (lm_mcb_size_bytes (papi_hdr pa) = ucast PAGE_SIZE64);
         ASSERT (assert_on bc) (ma_metadata_state ctx = S_CLEAN \<or> ma_metadata_state ctx = S_DIRTY);
         ASSERT (assert_on bc) (is_sector_number_valid (bcb_sector (blk bc b)));
         let pmbm = pmbm_fill bc b (ma_metadata_state ctx) (bcb_sector (blk bc b)) zero_metadata;
         let ctx = set_page (metadata_page pmbm) ctx;
         to_pmem_offset \<leftarrow> metadata_offset_of pa bc b d;
         Some ((pmem_make_request_defer_block WRITE to_pmem_offset
           Data_put_page_write_metadata_endio ctx, d), None)
       }
     }"

definition pmem_data_put_page_write_block ::
  "pmem_api \<Rightarrow> bittern_cache \<Rightarrow> nat \<Rightarrow> cache_state \<Rightarrow> pmem_state \<Rightarrow>
     (pmem_state \<times> int option) option" where
  "pmem_data_put_page_write_block pa bc b metadata_update_state st =
     do {
       let (ctx, d) = st;
       pmem_block_asserts pa bc b;
       ASSERT (assert_on bc) (pmem_dbi_ok (dbi ctx) 0);
       ASSERT (assert_on bc) (metadata_update_state = S_CLEAN \<or> metadata_update_state = S_DIRTY);
       ASSERT (assert_on bc) (di_buffer_vmalloc_buffer (dbi ctx) \<noteq> None);
       ASSERT (assert_on bc) (pmem_dbi_ok (dbi ctx) CACHE_DI_FLAGS_DOUBLE_BUFFERING);
       ASSERT (assert_on bc) (di_flags (dbi ctx) AND CACHE_DI_FLAGS_DOUBLE_BUFFERING \<noteq> 0);
       ASSERT (assert_on bc) (di_flags (dbi ctx) AND CACHE_DI_FLAGS_PMEM_WRITE \<noteq> 0);
       let ctx = ctx\<lparr> ma_cache_block := b, ma_metadata_state := metadata_update_state \<rparr>;
       to_pmem_offset \<leftarrow> data_offset_of pa bc b d;
       Some ((pmem_make_request_defer_block WRITE to_pmem_offset Data_put_page_write_endio ctx, d), None)
     }"

text \<open>The worker: the transfer and the call of the completion function.\<close>

definition pmem_make_request_worker_block ::
  "pmem_io \<Rightarrow> pmem_api \<Rightarrow> bittern_cache \<Rightarrow> pmem_state \<Rightarrow> (pmem_state \<times> int option) option" where
  "pmem_make_request_worker_block io pa bc st =
     do {
       ASSERT_BITTERN_CACHE bc;
       (err, st) \<leftarrow> pmem_do_make_request_block io st;
       (case ctx_endio (fst st) of
          Metadata_async_write_endio \<Rightarrow> pmem_metadata_async_write_endio bc err st
        | Data_get_page_read_endio \<Rightarrow> pmem_data_get_page_read_endio bc err st
        | Data_put_page_write_endio \<Rightarrow> pmem_data_put_page_write_endio pa bc err st
        | Data_put_page_write_metadata_endio \<Rightarrow> pmem_data_put_page_write_metadata_endio bc err st)
     }"

section \<open>The table of a provider\<close>

record papi_pages =
  pp_ops :: papi_ops
  metadata_async_write :: "pmem_io \<Rightarrow> pmem_api \<Rightarrow> bittern_cache \<Rightarrow> nat \<Rightarrow> cache_state \<Rightarrow>
    pmem_state \<Rightarrow> (pmem_state \<times> int option) option"
  data_cache_get_page_read :: "pmem_io \<Rightarrow> pmem_api \<Rightarrow> bittern_cache \<Rightarrow> nat \<Rightarrow>
    pmem_state \<Rightarrow> (pmem_state \<times> int option) option"
  data_cache_put_page_read :: "pmem_api \<Rightarrow> bittern_cache \<Rightarrow> nat \<Rightarrow> pmem_state \<Rightarrow> pmem_state option"
  data_cache_convert_read_to_write :: "pmem_api \<Rightarrow> bittern_cache \<Rightarrow> nat \<Rightarrow> pmem_state \<Rightarrow>
    pmem_state option"
  data_cache_clone_read_to_write :: "pmem_io \<Rightarrow> pmem_api \<Rightarrow> bittern_cache \<Rightarrow> nat \<Rightarrow> nat \<Rightarrow>
    pmem_state \<Rightarrow> pmem_state option"
  data_cache_get_page_write :: "pmem_io \<Rightarrow> pmem_api \<Rightarrow> bittern_cache \<Rightarrow> nat \<Rightarrow>
    pmem_state \<Rightarrow> pmem_state option"
  data_cache_put_page_write :: "pmem_io \<Rightarrow> pmem_api \<Rightarrow> bittern_cache \<Rightarrow> nat \<Rightarrow> cache_state \<Rightarrow>
    pmem_state \<Rightarrow> (pmem_state \<times> int option) option"
  make_request_worker :: "pmem_io \<Rightarrow> pmem_api \<Rightarrow> bittern_cache \<Rightarrow> pmem_state \<Rightarrow>
    (pmem_state \<times> int option) option"

text \<open>The memory provider queues no request, so it has no worker.\<close>

definition papi_mem_pages :: papi_pages where
  "papi_mem_pages =
     \<lparr> pp_ops = papi_mem_ops,
       metadata_async_write = pmem_metadata_async_write_mem,
       data_cache_get_page_read = pmem_data_get_page_read_mem,
       data_cache_put_page_read = pmem_data_put_page_read_mem,
       data_cache_convert_read_to_write = pmem_data_convert_read_to_write_mem,
       data_cache_clone_read_to_write = pmem_data_clone_read_to_write_mem,
       data_cache_get_page_write = pmem_data_get_page_write_mem,
       data_cache_put_page_write = pmem_data_put_page_write_mem,
       make_request_worker = (\<lambda>_ _ _ _. None) \<rparr>"

definition papi_block_pages :: papi_pages where
  "papi_block_pages =
     \<lparr> pp_ops = papi_block_ops,
       metadata_async_write = (\<lambda>_. pmem_metadata_async_write_block),
       data_cache_get_page_read = (\<lambda>_. pmem_data_get_page_read_block),
       data_cache_put_page_read = pmem_data_put_page_read_block,
       data_cache_convert_read_to_write = pmem_data_convert_read_to_write_block,
       data_cache_clone_read_to_write = (\<lambda>_. pmem_data_clone_read_to_write_block),
       data_cache_get_page_write = (\<lambda>_. pmem_data_get_page_write_block),
       data_cache_put_page_write = (\<lambda>_. pmem_data_put_page_write_block),
       make_request_worker = pmem_make_request_worker_block \<rparr>"

text \<open>The calls of the cache, which go through the table.\<close>

definition pmem_metadata_async_write ::
  "papi_pages \<Rightarrow> pmem_io \<Rightarrow> pmem_api \<Rightarrow> bittern_cache \<Rightarrow> nat \<Rightarrow> cache_state \<Rightarrow> pmem_state \<Rightarrow>
     (pmem_state \<times> int option) option" where
  "pmem_metadata_async_write pp io pa bc b metadata_update_state st =
     do {
       ASSERT (assert_on bc) (pd_size (snd st) > 0);
       metadata_async_write pp io pa bc b metadata_update_state st
     }"

definition pmem_data_get_page_read ::
  "papi_pages \<Rightarrow> pmem_io \<Rightarrow> pmem_api \<Rightarrow> bittern_cache \<Rightarrow> nat \<Rightarrow> pmem_state \<Rightarrow>
     (pmem_state \<times> int option) option" where
  "pmem_data_get_page_read pp io pa bc b st =
     do {
       ASSERT (assert_on bc) (pd_size (snd st) > 0);
       data_cache_get_page_read pp io pa bc b st
     }"

definition pmem_data_put_page_read ::
  "papi_pages \<Rightarrow> pmem_api \<Rightarrow> bittern_cache \<Rightarrow> nat \<Rightarrow> pmem_state \<Rightarrow> pmem_state option" where
  "pmem_data_put_page_read pp pa bc b st =
     do {
       ASSERT (assert_on bc) (pd_size (snd st) > 0);
       data_cache_put_page_read pp pa bc b st
     }"

definition pmem_data_convert_read_to_write ::
  "papi_pages \<Rightarrow> pmem_api \<Rightarrow> bittern_cache \<Rightarrow> nat \<Rightarrow> pmem_state \<Rightarrow> pmem_state option" where
  "pmem_data_convert_read_to_write pp pa bc b st =
     do {
       ASSERT (assert_on bc) (pd_size (snd st) > 0);
       data_cache_convert_read_to_write pp pa bc b st
     }"

definition pmem_data_clone_read_to_write ::
  "papi_pages \<Rightarrow> pmem_io \<Rightarrow> pmem_api \<Rightarrow> bittern_cache \<Rightarrow> nat \<Rightarrow> nat \<Rightarrow> pmem_state \<Rightarrow>
     pmem_state option" where
  "pmem_data_clone_read_to_write pp io pa bc from to st =
     do {
       ASSERT (assert_on bc) (pd_size (snd st) > 0);
       data_cache_clone_read_to_write pp io pa bc from to st
     }"

definition pmem_data_get_page_write ::
  "papi_pages \<Rightarrow> pmem_io \<Rightarrow> pmem_api \<Rightarrow> bittern_cache \<Rightarrow> nat \<Rightarrow> pmem_state \<Rightarrow> pmem_state option" where
  "pmem_data_get_page_write pp io pa bc b st =
     do {
       ASSERT (assert_on bc) (pd_size (snd st) > 0);
       data_cache_get_page_write pp io pa bc b st
     }"

definition pmem_data_put_page_write ::
  "papi_pages \<Rightarrow> pmem_io \<Rightarrow> pmem_api \<Rightarrow> bittern_cache \<Rightarrow> nat \<Rightarrow> cache_state \<Rightarrow> pmem_state \<Rightarrow>
     (pmem_state \<times> int option) option" where
  "pmem_data_put_page_write pp io pa bc b metadata_update_state st =
     do {
       ASSERT (assert_on bc) (pd_size (snd st) > 0);
       data_cache_put_page_write pp io pa bc b metadata_update_state st
     }"

end
