(* ===== verification/Pmem_Pages.thy ===== *)
theory Pmem_Pages
  imports Pmem_Async Cache_Examples
begin

unbundle bit_operations_syntax

text \<open>
  The contract of the asynchronous transfers, \<open>page_provider\<close>, that both providers implement, and
  what the cache gets from it: a page that is stored reaches the device together with its metadata,
  in an order in which a crash never leaves metadata for data that are not there, and is read back.
\<close>

section \<open>The contract of a provider\<close>

definition data_region :: "pmem_header \<Rightarrow> nat \<Rightarrow> nat set" where
  "data_region pm b = {data_offset pm b ..< data_offset pm b + 4096}"

definition meta_region :: "pmem_header \<Rightarrow> nat \<Rightarrow> nat set" where
  "meta_region pm b = {metadata_offset pm b ..< metadata_offset pm b + mcb_size pm}"

definition changed_in :: "nat set \<Rightarrow> pmem_dev \<Rightarrow> pmem_dev \<Rightarrow> bool" where
  "changed_in R d d' \<longleftrightarrow> pd_size d' = pd_size d \<and> (\<forall>i. i \<notin> R \<longrightarrow> pd_bytes d' i = pd_bytes d i)"

text \<open>The record that describes a block on the device.\<close>

definition block_record :: "bittern_cache \<Rightarrow> nat \<Rightarrow> cache_state \<Rightarrow> pmem_block_metadata" where
  "block_record bc b st =
     pmbm_fill bc b st (if st = S_INVALID then - 1 else bcb_sector (blk bc b)) zero_metadata"

text \<open>
  What a context is doing: nothing; it has a page of a block for reading or for writing, with the
  contents given; or a request for the block is queued.
\<close>

datatype page_phase =
    Idle
  | Reading nat "u8 list"
  | Writing nat "u8 list"
  | PendRead nat
  | PendData nat "u8 list" cache_state
  | PendMeta nat pmem_block_metadata

text \<open>What the caller of an operation on a block guarantees.\<close>

definition page_pre :: "papi_pages \<Rightarrow> pmem_api \<Rightarrow> bittern_cache \<Rightarrow> pmem_dev \<Rightarrow> nat \<Rightarrow> bool" where
  "page_pre pp pa bc d b \<longleftrightarrow>
     header_fits (pp_ops pp) d (papi_hdr pa) \<and> bittern_cache_ok bc \<and> cache_block_ok bc b \<and>
     b \<le> nblocks (papi_hdr pa) \<and> bcb_state (blk bc b) \<noteq> S_INVALID \<and>
     is_sector_number_valid (bcb_sector (blk bc b))"

locale page_provider =
  fixes pp :: papi_pages
    and ctx_in :: "pmem_header \<Rightarrow> page_phase \<Rightarrow> pmem_state \<Rightarrow> bool"
  assumes ctx_setup: "length page = 4096 \<Longrightarrow>
      pmem_context_setup bc (Some page) pmem_context_initialize = Some (e, ctx) \<Longrightarrow>
      ctx_in pm Idle (ctx, d)"
    and ctx_destroy: "ctx_in pm Idle (ctx, d) \<Longrightarrow> bittern_cache_ok bc \<Longrightarrow>
      \<exists>ctx'. pmem_context_destroy bc ctx = Some ctx'"
    and ctx_stable: "ctx_in pm ph (ctx, d) \<Longrightarrow> changed_in R d d' \<Longrightarrow>
      (\<And>b p. ph \<in> {Reading b p, Writing b p} \<Longrightarrow> data_region pm b \<inter> R = {}) \<Longrightarrow>
      ctx_in pm ph (ctx, d')"
    and get_page_read: "page_pre pp pa bc d b \<Longrightarrow> io_healthy io \<Longrightarrow>
      ctx_in (papi_hdr pa) Idle (ctx, d) \<Longrightarrow>
      \<exists>ctx' r. data_cache_get_page_read pp io pa bc b (ctx, d) = Some ((ctx', d), r) \<and>
        (r = Some 0 \<and> ctx_in (papi_hdr pa) (Reading b (data_at d (papi_hdr pa) b)) (ctx', d) \<or>
         r = None \<and> ctx_in (papi_hdr pa) (PendRead b) (ctx', d))"
    and worker_read: "page_pre pp pa bc d b \<Longrightarrow> io_healthy io \<Longrightarrow>
      ctx_in (papi_hdr pa) (PendRead b) (ctx, d) \<Longrightarrow>
      \<exists>ctx'. make_request_worker pp io pa bc (ctx, d) = Some ((ctx', d), Some 0) \<and>
        ctx_in (papi_hdr pa) (Reading b (data_at d (papi_hdr pa) b)) (ctx', d)"
    and put_page_read: "page_pre pp pa bc d b \<Longrightarrow> ctx_in (papi_hdr pa) (Reading b p) (ctx, d) \<Longrightarrow>
      \<exists>ctx'. data_cache_put_page_read pp pa bc b (ctx, d) = Some (ctx', d) \<and>
        ctx_in (papi_hdr pa) Idle (ctx', d)"
    and get_page_write: "page_pre pp pa bc d b \<Longrightarrow> io_healthy io \<Longrightarrow>
      ctx_in (papi_hdr pa) Idle (ctx, d) \<Longrightarrow>
      \<exists>ctx' p. data_cache_get_page_write pp io pa bc b (ctx, d) = Some (ctx', d) \<and>
        ctx_in (papi_hdr pa) (Writing b p) (ctx', d)"
    and page_clone: "page_pre pp pa bc d from \<Longrightarrow> page_pre pp pa bc d to \<Longrightarrow> from \<noteq> to \<Longrightarrow> io_healthy io \<Longrightarrow>
      ctx_in (papi_hdr pa) (Reading from p) (ctx, d) \<Longrightarrow>
      \<exists>ctx' d'. data_cache_clone_read_to_write pp io pa bc from to (ctx, d) = Some (ctx', d') \<and>
        ctx_in (papi_hdr pa) (Writing to p) (ctx', d') \<and> changed_in (data_region (papi_hdr pa) to) d d'"
    and page_access: "ctx_in pm (Reading b p) (ctx, d) \<or> ctx_in pm (Writing b p) (ctx, d) \<Longrightarrow>
      length p = 4096 \<and>
      (\<exists>a. (\<forall>dbg. pmem_context_data_vaddr dbg ctx = Some a) \<and> page_at (ctx, d) a = Some p)"
    and page_copy: "ctx_in pm (Writing b p) (ctx, d) \<Longrightarrow> pmem_context_data_vaddr dbg ctx = Some a \<Longrightarrow>
      pos + length bs \<le> 4096 \<Longrightarrow>
      \<exists>ctx' d'. copy_to_page a pos bs (ctx, d) = Some (ctx', d') \<and>
        ctx_in pm (Writing b (overwrite pos bs p)) (ctx', d') \<and>
        (\<forall>dbg. pmem_context_data_vaddr dbg ctx' = Some a) \<and> changed_in (data_region pm b) d d'"
    and put_page_write: "page_pre pp pa bc d b \<Longrightarrow> io_healthy io \<Longrightarrow> st = S_CLEAN \<or> st = S_DIRTY \<Longrightarrow>
      ctx_in (papi_hdr pa) (Writing b p) (ctx, d) \<Longrightarrow>
      \<exists>ctx' d' r. data_cache_put_page_write pp io pa bc b st (ctx, d) = Some ((ctx', d'), r) \<and>
        (r = Some 0 \<and> ctx_in (papi_hdr pa) Idle (ctx', d') \<and>
           changed_in (meta_region (papi_hdr pa) b) d d' \<and> data_at d (papi_hdr pa) b = p \<and>
           meta_at d' (papi_hdr pa) b = block_record bc b st \<or>
         r = None \<and> d' = d \<and> ctx_in (papi_hdr pa) (PendData b p st) (ctx', d'))"
    and worker_data: "page_pre pp pa bc d b \<Longrightarrow> io_healthy io \<Longrightarrow> st = S_CLEAN \<or> st = S_DIRTY \<Longrightarrow>
      ctx_in (papi_hdr pa) (PendData b p st) (ctx, d) \<Longrightarrow>
      \<exists>ctx' d'. make_request_worker pp io pa bc (ctx, d) = Some ((ctx', d'), None) \<and>
        ctx_in (papi_hdr pa) (PendMeta b (block_record bc b st)) (ctx', d') \<and>
        changed_in (data_region (papi_hdr pa) b) d d' \<and> data_at d' (papi_hdr pa) b = p"
    and worker_meta: "page_pre pp pa bc d b \<Longrightarrow> io_healthy io \<Longrightarrow>
      ctx_in (papi_hdr pa) (PendMeta b r) (ctx, d) \<Longrightarrow>
      \<exists>ctx' d'. make_request_worker pp io pa bc (ctx, d) = Some ((ctx', d'), Some 0) \<and>
        ctx_in (papi_hdr pa) Idle (ctx', d') \<and>
        changed_in (meta_region (papi_hdr pa) b) d d' \<and> meta_at d' (papi_hdr pa) b = r"
    and metadata_write: "page_pre pp pa bc d b \<Longrightarrow> io_healthy io \<Longrightarrow> stable_state st \<Longrightarrow>
      ctx_in (papi_hdr pa) Idle (ctx, d) \<Longrightarrow>
      \<exists>ctx' d' r. metadata_async_write pp io pa bc b st (ctx, d) = Some ((ctx', d'), r) \<and>
        (r = Some 0 \<and> ctx_in (papi_hdr pa) Idle (ctx', d') \<and>
           changed_in (meta_region (papi_hdr pa) b) d d' \<and>
           meta_at d' (papi_hdr pa) b = block_record bc b st \<or>
         r = None \<and> d' = d \<and> ctx_in (papi_hdr pa) (PendMeta b (block_record bc b st)) (ctx', d'))"
    and worker_error: "page_pre pp pa bc d b \<Longrightarrow> io_dax_ok io \<Longrightarrow> \<not> io_healthy io \<Longrightarrow>
      ph \<in> {PendRead b, PendData b p st, PendMeta b r} \<Longrightarrow> ctx_in (papi_hdr pa) ph (ctx, d) \<Longrightarrow>
      \<exists>st' e. make_request_worker pp io pa bc (ctx, d) = Some (st', Some e) \<and> e \<noteq> 0"

section \<open>The two providers\<close>

lemmas di_flags_defs =
  CACHE_DI_FLAGS_DOUBLE_BUFFERING_def CACHE_DI_FLAGS_PMEM_READ_def CACHE_DI_FLAGS_PMEM_WRITE_def

definition ctx_free :: "pmem_context \<Rightarrow> bool" where
  "ctx_free ctx \<longleftrightarrow> di_buffer (dbi ctx) = None \<and> di_flags (dbi ctx) = 0 \<and> di_busy (dbi ctx) = 0"

definition mem_ctx :: "pmem_header \<Rightarrow> page_phase \<Rightarrow> pmem_state \<Rightarrow> bool" where
  "mem_ctx pm ph st \<longleftrightarrow>
     (let (ctx, d) = st;
          page = (\<lambda>b fl. di_buffer (dbi ctx) = Some (Mapped (data_offset pm b)) \<and>
                    di_flags (dbi ctx) = fl \<and> di_busy (dbi ctx) = 1)
      in pmbm_alignment_gap (ctx_pmbm ctx) = replicate 4 0 \<and>
         di_buffer_vmalloc_buffer (dbi ctx) \<noteq> None \<and>
         (case ph of
            Idle \<Rightarrow> ctx_free ctx
          | Reading b p \<Rightarrow> page b CACHE_DI_FLAGS_PMEM_READ \<and> p = data_at d pm b
          | Writing b p \<Rightarrow> (page b CACHE_DI_FLAGS_PMEM_WRITE \<or>
              page b (CACHE_DI_FLAGS_PMEM_READ OR CACHE_DI_FLAGS_PMEM_WRITE)) \<and> p = data_at d pm b
          | _ \<Rightarrow> False))"

definition block_ctx :: "pmem_header \<Rightarrow> page_phase \<Rightarrow> pmem_state \<Rightarrow> bool" where
  "block_ctx pm ph st \<longleftrightarrow>
     (let (ctx, d) = st;
          rd = CACHE_DI_FLAGS_DOUBLE_BUFFERING OR CACHE_DI_FLAGS_PMEM_READ;
          wr = CACHE_DI_FLAGS_DOUBLE_BUFFERING OR CACHE_DI_FLAGS_PMEM_WRITE;
          rw = CACHE_DI_FLAGS_DOUBLE_BUFFERING OR CACHE_DI_FLAGS_PMEM_READ OR CACHE_DI_FLAGS_PMEM_WRITE;
          page = (\<lambda>p. di_buffer (dbi ctx) = Some Vmalloc \<and> di_busy (dbi ctx) = 1 \<and>
                    di_buffer_vmalloc_buffer (dbi ctx) = Some p \<and> length p = 4096);
          request = (\<lambda>b dir off. ma_cache_block ctx = b \<and> bi_datadir ctx = dir \<and>
                    unat (ctx_bi_sector ctx) * SECTOR_SIZE = off)
      in (case ph of
            Idle \<Rightarrow> ctx_free ctx \<and> (\<exists>p. di_buffer_vmalloc_buffer (dbi ctx) = Some p \<and> length p = 4096)
          | Reading b p \<Rightarrow> page p \<and> di_flags (dbi ctx) = rd
          | Writing b p \<Rightarrow> page p \<and> di_flags (dbi ctx) \<in> {wr, rw}
          | PendRead b \<Rightarrow> (\<exists>p. page p) \<and> di_flags (dbi ctx) = rd \<and>
              request b READ (data_offset pm b) \<and> ctx_endio ctx = Data_get_page_read_endio
          | PendData b p st \<Rightarrow> page p \<and> di_flags (dbi ctx) \<in> {wr, rw} \<and> ma_metadata_state ctx = st \<and>
              request b WRITE (data_offset pm b) \<and> ctx_endio ctx = Data_put_page_write_endio
          | PendMeta b r \<Rightarrow> page (metadata_page r) \<and> metadata_sized r \<and>
              request b WRITE (metadata_offset pm b) \<and>
              (ctx_endio ctx = Metadata_async_write_endio \<and> di_flags (dbi ctx) = wr \<or>
               ctx_endio ctx = Data_put_page_write_metadata_endio \<and> di_flags (dbi ctx) \<in> {wr, rw})))"


lemma page_preD:
  assumes "page_pre pp pa bc d b"
  shows "header_fits (pp_ops pp) d (papi_hdr pa)" "bittern_cache_ok bc" "cache_block_ok bc b"
    "1 \<le> b" "b \<le> nblocks (papi_hdr pa)" "bcb_block_id (blk bc b) = b"
    "pmem_block_asserts pa bc b = Some ()" "is_sector_number_valid (bcb_sector (blk bc b))"
  using assms header_fitsD(7) [of "pp_ops pp" d "papi_hdr pa"]
  by (auto simp: page_pre_def pmem_block_asserts_def ASSERT_BITTERN_CACHE_def ASSERT_CACHE_BLOCK_def
      cache_block_ok_def ASSERT_def)

lemma page_pre_offsets:
  assumes "page_pre pp pa bc d b"
  obtains m q where "metadata_offset_of pa bc b d = Some m" "unat m = metadata_offset (papi_hdr pa) b"
    "data_offset_of pa bc b d = Some q" "unat q = data_offset (papi_hdr pa) b"
proof -
  note D = page_preD [OF assms] and f = header_fitsD [OF page_preD(1) [OF assms]]
  show thesis
    using pmem_offsets_ok [OF f(1) D(4,5) f(2,3), of "assert_on bc"] that D(6) by auto
qed

lemma pmbm_fill_gap:
  "pmbm_alignment_gap p = replicate 4 0 \<Longrightarrow> pmbm_fill bc b st s p = pmbm_fill bc b st s zero_metadata"
proof (cases p)
  case (fields mg id s' x st' g h hm)
  assume "pmbm_alignment_gap p = replicate 4 0"
  with fields have g: "g = replicate 4 0" by simp
  let ?q = "\<lparr> pmbm_magic = MCBM_MAGIC, pmbm_block_id = of_nat (bcb_block_id (blk bc b)),
    pmbm_device_sector = s, pmbm_xid = bcb_xid (blk bc b), pmbm_status = pmbm_status_of st,
    pmbm_alignment_gap = replicate 4 0, pmbm_hash_data = bcb_hash_data (blk bc b),
    pmbm_hash_metadata = UINT128_ZERO \<rparr>"
  have "metadata_hash (?q\<lparr> pmbm_hash_metadata := hm \<rparr>) = metadata_hash ?q"
    by (rule metadata_hash_upd) (simp add: metadata_sized_def)
  then show ?thesis by (simp add: pmbm_fill_def zero_metadata_def Let_def fields g)
qed

lemma pmbm_fill_zero_gap [simp]:
  "pmbm_alignment_gap (pmbm_fill bc b st s zero_metadata) = replicate 4 0"
  by (simp add: pmbm_fill_def zero_metadata_def Let_def)

lemma block_record_sized: "metadata_sized (block_record bc b st)"
  by (simp add: block_record_def metadata_sized_def)

lemma changed_in_refl [simp]: "changed_in R d d"
  by (simp add: changed_in_def)

lemma changed_in_write: "{off ..< off + length bs} \<subseteq> R \<Longrightarrow> changed_in R d (dev_write d off bs)"
  by (auto simp: changed_in_def pd_bytes_dev_write)

lemma changed_in_trans: "changed_in R d d' \<Longrightarrow> changed_in S d' d'' \<Longrightarrow> changed_in (R \<union> S) d d''"
  by (simp add: changed_in_def)

lemma changed_in_read:
  "changed_in R d d' \<Longrightarrow> {off ..< off + n} \<inter> R = {} \<Longrightarrow> dev_read d' off n = dev_read d off n"
  by (intro dev_read_cong) (auto simp: changed_in_def)

lemma data_at_write:
  "length p = 4096 \<Longrightarrow> data_at (dev_write d (data_offset pm b) p) pm b = p"
  using dev_read_dev_write [of d "data_offset pm b" p] by (simp add: data_at_def)

lemma length_data_at [simp]: "length (data_at d pm b) = 4096"
  by (simp add: data_at_def)

lemma length_overwrite [simp]: "pos + length bs \<le> length xs \<Longrightarrow> length (overwrite pos bs xs) = length xs"
  by (simp add: overwrite_def)

lemma data_at_overwrite:
  assumes "pos + length bs \<le> 4096"
  shows "data_at (dev_write d (data_offset pm b + pos) bs) pm b = overwrite pos bs (data_at d pm b)"
proof (rule nth_equalityI)
  show "length (data_at (dev_write d (data_offset pm b + pos) bs) pm b) =
      length (overwrite pos bs (data_at d pm b))" using assms by simp
  fix i assume "i < length (data_at (dev_write d (data_offset pm b + pos) bs) pm b)"
  then have i: "i < 4096" by simp
  then show "data_at (dev_write d (data_offset pm b + pos) bs) pm b ! i =
      overwrite pos bs (data_at d pm b) ! i"
    using assms by (auto simp: data_at_def dev_read_def overwrite_def pd_bytes_dev_write nth_append)
qed

lemma mem_fits:
  assumes "header_fits papi_mem_ops d pm"
  shows "mcb_size pm = 64" "lm_mcb_size_bytes pm = ucast PMEM_BLOCK_METADATA_SIZE"
proof -
  show m: "mcb_size pm = 64" using assms by (simp add: header_fits_def)
  show "lm_mcb_size_bytes pm = ucast PMEM_BLOCK_METADATA_SIZE"
    using m by (simp add: word_unat_eq_iff PMEM_BLOCK_METADATA_SIZE_def)
qed

lemma block_fits:
  assumes "header_fits papi_block_ops d pm"
  shows "mcb_size pm = 4096" "lm_mcb_size_bytes pm = ucast PAGE_SIZE64"
proof -
  show m: "mcb_size pm = 4096" using assms by (simp add: header_fits_def)
  show "lm_mcb_size_bytes pm = ucast PAGE_SIZE64"
    using m by (simp add: word_unat_eq_iff PAGE_SIZE64_def PAGE_SIZE_def)
qed

lemma pp_ops_simps [simp]: "pp_ops papi_mem_pages = papi_mem_ops" "pp_ops papi_block_pages = papi_block_ops"
  by (simp_all add: papi_mem_pages_def papi_block_pages_def)

lemma page_base_address: "unat ((off AND PAGE_MASK) div of_nat SECTOR_SIZE) * SECTOR_SIZE = unat (off AND PAGE_MASK)"
  by (rule sector_address) (simp add: word_unat_eq_iff unat_mod unat_page_base)

lemma metadata_write_mem_ok:
  assumes pre: "page_pre papi_mem_pages pa bc d b" and io: "io_healthy io" and r: "metadata_sized r"
  shows "\<exists>d'. pmem_metadata_write_mem io pa bc b r d = Some d' \<and>
    changed_in (meta_region (papi_hdr pa) b) d d' \<and> meta_at d' (papi_hdr pa) b = r"
proof -
  note D = page_preD [OF pre, unfolded pp_ops_simps] and f = header_fitsD [OF page_preD(1) [OF pre]]
  obtain m where m: "metadata_offset_of pa bc b d = Some m" "unat m = metadata_offset (papi_hdr pa) b"
    using page_pre_offsets [OF pre] by metis
  have acc: "mem_access_ok d m 64"
    using mem_dev.metadata_access [OF f(1) f(4) [unfolded pp_ops_simps] D(4,5) f(5) m(2)] by simp
  have len: "length (metadata_bytes r) = 64" by (rule length_metadata_bytes [OF r])
  let ?d = "dev_write d (unat m) (metadata_bytes r)"
  have "pmem_metadata_write_mem io pa bc b r d = Some ?d"
    using m io mem_same_page [OF acc]
    by (simp add: pmem_metadata_write_mem_def io_healthy_def PMEM_BLOCK_METADATA_SIZE_def Let_def
        page_base_address page_address)
  moreover have "changed_in (meta_region (papi_hdr pa) b) d ?d"
    using mem_fits(1) [OF D(1)] len m by (intro changed_in_write) (simp add: meta_region_def)
  moreover have "meta_at ?d (papi_hdr pa) b = r"
    using dev_read_dev_write [of d "unat m" "metadata_bytes r"] len m
    by (simp add: meta_at_def metadata_of_bytes_bytes r)
  ultimately show ?thesis by blast
qed

lemma data_map_ok:
  assumes pre: "page_pre papi_mem_pages pa bc d b" and io: "io_healthy io"
  shows "pmem_data_map io pa bc b d = Some (data_offset (papi_hdr pa) b)"
proof -
  note D = page_preD [OF pre, unfolded pp_ops_simps] and f = header_fitsD [OF page_preD(1) [OF pre]]
  obtain q where q: "data_offset_of pa bc b d = Some q" "unat q = data_offset (papi_hdr pa) b"
    using page_pre_offsets [OF pre] by metis
  have "mem_access_ok d q 4096"
    using mem_dev.data_access [OF f(1) f(4) [unfolded pp_ops_simps] D(4,5) f(5) q(2)] by simp
  then have al: "q mod PAGE_SIZE64 = 0"
    by (intro page_aligned_word) (simp add: mem_access_ok_def)
  show ?thesis
    using q io al sector_address [OF al] by (simp add: pmem_data_map_def io_healthy_def)
qed


lemma data_disjoint:
  assumes "layout_wf pm" "1 \<le> b" "b \<le> nblocks pm" "1 \<le> k" "k \<le> nblocks pm" "b \<noteq> k"
  shows "data_region pm b \<inter> data_region pm k = {}"
proof -
  have r: "data_region pm i = region_bytes pm (Data i)" if "1 \<le> i" "i \<le> nblocks pm" for i
    using that by (simp add: data_region_def region_bytes_def region_start_eq [OF assms(1)] PAGE_SIZE_def
        del: region_start.simps)
  show ?thesis
    using regions_disjoint [OF assms(1), of "Data b" "Data k"] assms by (simp add: r)
qed

lemma data_meta_disjoint:
  assumes "layout_wf pm" "1 \<le> b" "b \<le> nblocks pm" "1 \<le> k" "k \<le> nblocks pm"
  shows "data_region pm b \<inter> meta_region pm k = {}"
  using block_regions(2) [OF assms] by (auto simp: data_region_def meta_region_def)

lemmas mem_ops_defs =
  pmem_data_get_page_read_mem_def pmem_data_put_page_read_mem_def pmem_data_get_page_write_mem_def
  pmem_data_put_page_write_mem_def pmem_data_clone_read_to_write_mem_def
  pmem_metadata_async_write_mem_def

lemmas dbi_defs =
  pmem_set_dbi_def pmem_set_dbi_double_buffering_def pmem_clear_dbi_def pmem_dbi_ok_def
  pmem_context_data_vaddr_def ctx_free_def

lemma page_base: "dev_read d (data_offset pm b) 4096 = data_at d pm b"
  by (simp add: data_at_def)

interpretation mem_pages: page_provider papi_mem_pages mem_ctx
proof unfold_locales
  fix pm ph ctx d R d'
  assume c: "mem_ctx pm ph (ctx, d)" "changed_in R d d'"
    "\<And>b p. ph \<in> {Reading b p, Writing b p} \<Longrightarrow> data_region pm b \<inter> R = {}"
  have "data_at d' pm b = data_at d pm b" if "ph = Reading b p \<or> ph = Writing b p" for b p
    using changed_in_read [OF c(2), of "data_offset pm b" 4096] c(3) [of b p] that
    by (auto simp: data_at_def data_region_def)
  with c(1) show "mem_ctx pm ph (ctx, d')" by (cases ph) (simp_all add: mem_ctx_def)
next
  fix page :: "u8 list" and bc e ctx pm d
  assume "length page = 4096" "pmem_context_setup bc (Some page) pmem_context_initialize = Some (e, ctx)"
  then show "mem_ctx pm Idle (ctx, d)"
    by (auto simp: pmem_context_setup_def pmem_context_initialize_def ASSERT_BITTERN_CACHE_def ASSERT_def
        mem_ctx_def ctx_free_def zero_metadata_def split: if_splits)
next
  fix pm ctx d bc assume "mem_ctx pm Idle (ctx, d)" "bittern_cache_ok bc"
  then show "\<exists>ctx'. pmem_context_destroy bc ctx = Some ctx'"
    by (simp add: pmem_context_destroy_def mem_ctx_def ctx_free_def ASSERT_BITTERN_CACHE_def)
next
  fix pa bc d b io ctx
  assume pre: "page_pre papi_mem_pages pa bc d b" and io: "io_healthy io"
    and c: "mem_ctx (papi_hdr pa) Idle (ctx, d)"
  note D = page_preD [OF pre]
  show "\<exists>ctx' r. data_cache_get_page_read papi_mem_pages io pa bc b (ctx, d) = Some ((ctx', d), r) \<and>
        (r = Some 0 \<and> mem_ctx (papi_hdr pa) (Reading b (data_at d (papi_hdr pa) b)) (ctx', d) \<or>
         r = None \<and> mem_ctx (papi_hdr pa) (PendRead b) (ctx', d))"
    using c data_map_ok [OF pre io] D(7)
    by (simp add: papi_mem_pages_def mem_ops_defs dbi_defs mem_ctx_def di_flags_defs)
  show "\<exists>ctx' p. data_cache_get_page_write papi_mem_pages io pa bc b (ctx, d) = Some (ctx', d) \<and>
        mem_ctx (papi_hdr pa) (Writing b p) (ctx', d)"
    using c data_map_ok [OF pre io] D(7)
    by (simp add: papi_mem_pages_def mem_ops_defs dbi_defs mem_ctx_def di_flags_defs)
next
  fix pa bc d b p ctx
  assume pre: "page_pre papi_mem_pages pa bc d b" and c: "mem_ctx (papi_hdr pa) (Reading b p) (ctx, d)"
  then show "\<exists>ctx'. data_cache_put_page_read papi_mem_pages pa bc b (ctx, d) = Some (ctx', d) \<and>
        mem_ctx (papi_hdr pa) Idle (ctx', d)"
    using page_preD(7) [OF pre]
    by (simp add: papi_mem_pages_def mem_ops_defs dbi_defs mem_ctx_def di_flags_defs)
next
  fix pa bc d "from" to io p ctx
  assume pre: "page_pre papi_mem_pages pa bc d from" "page_pre papi_mem_pages pa bc d to" "from \<noteq> to"
    and io: "io_healthy io" and c: "mem_ctx (papi_hdr pa) (Reading from p) (ctx, d)"
  have p: "p = data_at d (papi_hdr pa) from" using c by (simp add: mem_ctx_def)
  let ?d = "dev_write d (data_offset (papi_hdr pa) to) p"
  have "data_at ?d (papi_hdr pa) to = p" by (rule data_at_write) (simp add: p)
  moreover have "changed_in (data_region (papi_hdr pa) to) d ?d"
    by (rule changed_in_write) (simp add: data_region_def p)
  ultimately show "\<exists>ctx' d'. data_cache_clone_read_to_write papi_mem_pages io pa bc from to (ctx, d) = Some (ctx', d') \<and>
        mem_ctx (papi_hdr pa) (Writing to p) (ctx', d') \<and> changed_in (data_region (papi_hdr pa) to) d d'"
    using c pre(3) data_map_ok [OF pre(2) io] page_preD(6,7) [OF pre(1)] page_preD(6,7) [OF pre(2)]
    by (simp add: papi_mem_pages_def mem_ops_defs dbi_defs mem_ctx_def di_flags_defs page_at_def
        PAGE_SIZE_def page_base)
next
  fix pm b p ctx d
  assume "mem_ctx pm (Reading b p) (ctx, d) \<or> mem_ctx pm (Writing b p) (ctx, d)"
  then show "length p = 4096 \<and>
      (\<exists>a. (\<forall>dbg. pmem_context_data_vaddr dbg ctx = Some a) \<and> page_at (ctx, d) a = Some p)"
    by (auto simp: mem_ctx_def dbi_defs di_flags_defs page_at_def PAGE_SIZE_def page_base)
next
  fix pm b p ctx d dbg a pos and bs :: "u8 list"
  assume c: "mem_ctx pm (Writing b p) (ctx, d)" "pmem_context_data_vaddr dbg ctx = Some a"
    "pos + length bs \<le> 4096"
  have a: "a = Mapped (data_offset pm b)" using c(1,2)
    by (auto simp: mem_ctx_def pmem_context_data_vaddr_def split: if_splits)
  let ?d = "dev_write d (data_offset pm b + pos) bs"
  have "changed_in (data_region pm b) d ?d"
    using c(3) by (intro changed_in_write) (auto simp: data_region_def)
  then show "\<exists>ctx' d'. copy_to_page a pos bs (ctx, d) = Some (ctx', d') \<and>
        mem_ctx pm (Writing b (overwrite pos bs p)) (ctx', d') \<and>
        (\<forall>dbg. pmem_context_data_vaddr dbg ctx' = Some a) \<and> changed_in (data_region pm b) d d'"
    using c(1) data_at_overwrite [OF c(3)]
    by (auto simp: a copy_to_page_def mem_ctx_def dbi_defs di_flags_defs)
next
  fix pa bc d b io st p ctx
  assume pre: "page_pre papi_mem_pages pa bc d b" and io: "io_healthy io"
    and st: "st = S_CLEAN \<or> st = S_DIRTY" and c: "mem_ctx (papi_hdr pa) (Writing b p) (ctx, d)"
  note D = page_preD [OF pre]
  obtain d' where d': "pmem_metadata_write_mem io pa bc b (block_record bc b st) d = Some d'"
    "changed_in (meta_region (papi_hdr pa) b) d d'" "meta_at d' (papi_hdr pa) b = block_record bc b st"
    using metadata_write_mem_ok [OF pre io block_record_sized] by blast
  have "st \<noteq> S_INVALID" using st by auto
  then have r: "pmbm_fill bc b st (bcb_sector (blk bc b)) zero_metadata = block_record bc b st"
    by (simp add: block_record_def)
  have gap: "pmbm_alignment_gap (block_record bc b st) = replicate 4 0" by (simp add: block_record_def)
  show "\<exists>ctx' d' r. data_cache_put_page_write papi_mem_pages io pa bc b st (ctx, d) = Some ((ctx', d'), r) \<and>
        (r = Some 0 \<and> mem_ctx (papi_hdr pa) Idle (ctx', d') \<and>
           changed_in (meta_region (papi_hdr pa) b) d d' \<and> data_at d (papi_hdr pa) b = p \<and>
           meta_at d' (papi_hdr pa) b = block_record bc b st \<or>
         r = None \<and> d' = d \<and> mem_ctx (papi_hdr pa) (PendData b p st) (ctx', d'))"
    using c d' D(7,8) st gap
    by (auto simp: papi_mem_pages_def mem_ops_defs dbi_defs mem_ctx_def di_flags_defs r)
next
  fix pa bc d b io st ctx
  assume pre: "page_pre papi_mem_pages pa bc d b" and io: "io_healthy io"
    and st: "stable_state st" and c: "mem_ctx (papi_hdr pa) Idle (ctx, d)"
  note D = page_preD [OF pre, unfolded pp_ops_simps]
  obtain d' where d': "pmem_metadata_write_mem io pa bc b (block_record bc b st) d = Some d'"
    "changed_in (meta_region (papi_hdr pa) b) d d'" "meta_at d' (papi_hdr pa) b = block_record bc b st"
    using metadata_write_mem_ok [OF pre io block_record_sized] by blast
  have r: "pmbm_fill bc b st (if st = S_INVALID then - 1 else bcb_sector (blk bc b)) (ctx_pmbm ctx) =
      block_record bc b st"
    unfolding block_record_def using c by (intro pmbm_fill_gap) (simp add: mem_ctx_def)
  have gap: "pmbm_alignment_gap (block_record bc b st) = replicate 4 0" by (simp add: block_record_def)
  show "\<exists>ctx' d' r. metadata_async_write papi_mem_pages io pa bc b st (ctx, d) = Some ((ctx', d'), r) \<and>
        (r = Some 0 \<and> mem_ctx (papi_hdr pa) Idle (ctx', d') \<and>
           changed_in (meta_region (papi_hdr pa) b) d d' \<and>
           meta_at d' (papi_hdr pa) b = block_record bc b st \<or>
         r = None \<and> d' = d \<and> mem_ctx (papi_hdr pa) (PendMeta b (block_record bc b st)) (ctx', d'))"
    using c d' D(7,8) st gap mem_fits(2) [OF D(1)]
    by (simp add: papi_mem_pages_def mem_ops_defs dbi_defs mem_ctx_def di_flags_defs r)
qed (auto simp: mem_ctx_def)


lemma block_pre_sectors:
  assumes pre: "page_pre papi_block_pages pa bc d b"
  obtains m q where "metadata_offset_of pa bc b d = Some m" "data_offset_of pa bc b d = Some q"
    "unat (m div of_nat SECTOR_SIZE) * SECTOR_SIZE = metadata_offset (papi_hdr pa) b"
    "unat (q div of_nat SECTOR_SIZE) * SECTOR_SIZE = data_offset (papi_hdr pa) b"
proof -
  note D = page_preD [OF pre, unfolded pp_ops_simps] and f = header_fitsD [OF page_preD(1) [OF pre], unfolded pp_ops_simps]
  obtain m q where o: "metadata_offset_of pa bc b d = Some m" "unat m = metadata_offset (papi_hdr pa) b"
    "data_offset_of pa bc b d = Some q" "unat q = data_offset (papi_hdr pa) b"
    using page_pre_offsets [OF pre] by metis
  have "block_access_ok d m 64" "block_access_ok d q 4096"
    using block_dev.metadata_access [OF f(1,4) D(4,5) f(5) o(2)] block_dev.data_access [OF f(1,4) D(4,5) f(5) o(4)]
    by simp_all
  then have "m mod PAGE_SIZE64 = 0" "q mod PAGE_SIZE64 = 0" by (simp_all add: block_access_ok_def)
  then show thesis using that [OF o(1,3)] o by (simp add: sector_address)
qed

lemma length_metadata_page: "metadata_sized r \<Longrightarrow> length (metadata_page r) = 4096"
  by (simp add: metadata_page_def overwrite_def length_metadata_bytes PAGE_SIZE_def)

lemma meta_at_write_page:
  assumes "metadata_sized r"
  shows "meta_at (dev_write d (metadata_offset pm b) (metadata_page r)) pm b = r"
proof -
  have "dev_read (dev_write d (metadata_offset pm b) (metadata_page r)) (metadata_offset pm b) 4096 = metadata_page r"
    using dev_read_dev_write [of d "metadata_offset pm b" "metadata_page r"] length_metadata_page [OF assms] by simp
  then have "dev_read (dev_write d (metadata_offset pm b) (metadata_page r)) (metadata_offset pm b) 64 = metadata_bytes r"
    using dev_read_prefix [of 64 4096 "dev_write d (metadata_offset pm b) (metadata_page r)" "metadata_offset pm b"]
      length_metadata_bytes [OF assms]
    by (simp add: metadata_page_def overwrite_def)
  then show ?thesis by (simp add: meta_at_def metadata_of_bytes_bytes assms)
qed

lemma overwrite_all: "length bs = length xs \<Longrightarrow> overwrite 0 bs xs = bs"
  by (simp add: overwrite_def)

lemmas block_ops_defs =
  pmem_data_get_page_read_block_def pmem_data_put_page_read_block_def pmem_data_get_page_write_block_def
  pmem_data_put_page_write_block_def pmem_data_clone_read_to_write_block_def
  pmem_metadata_async_write_block_def pmem_make_request_defer_block_def

lemmas endio_defs =
  pmem_metadata_async_write_endio_def pmem_data_get_page_read_endio_def
  pmem_data_put_page_write_metadata_endio_def pmem_data_put_page_write_endio_def
  pmem_write_endio_asserts_def ASSERT_BITTERN_CACHE_def ASSERT_CACHE_BLOCK_def

lemmas block_ctx_defs = block_ctx_def dbi_defs di_flags_defs set_page_def

lemma block_worker_ok:
  assumes pre: "page_pre papi_block_pages pa bc d b" and io: "io_healthy io"
  shows "block_ctx (papi_hdr pa) (PendRead b) (ctx, d) \<Longrightarrow>
      \<exists>ctx'. make_request_worker papi_block_pages io pa bc (ctx, d) = Some ((ctx', d), Some 0) \<and>
        block_ctx (papi_hdr pa) (Reading b (data_at d (papi_hdr pa) b)) (ctx', d)"
    and "st = S_CLEAN \<or> st = S_DIRTY \<Longrightarrow> block_ctx (papi_hdr pa) (PendData b p st) (ctx, d) \<Longrightarrow>
      \<exists>ctx' d'. make_request_worker papi_block_pages io pa bc (ctx, d) = Some ((ctx', d'), None) \<and>
        block_ctx (papi_hdr pa) (PendMeta b (block_record bc b st)) (ctx', d') \<and>
        changed_in (data_region (papi_hdr pa) b) d d' \<and> data_at d' (papi_hdr pa) b = p"
    and "block_ctx (papi_hdr pa) (PendMeta b r) (ctx, d) \<Longrightarrow>
      \<exists>ctx' d'. make_request_worker papi_block_pages io pa bc (ctx, d) = Some ((ctx', d'), Some 0) \<and>
        block_ctx (papi_hdr pa) Idle (ctx', d') \<and>
        changed_in (meta_region (papi_hdr pa) b) d d' \<and> meta_at d' (papi_hdr pa) b = r"
proof -
  note D = page_preD [OF pre, unfolded pp_ops_simps]
  have io': "io_alloc_ok io" "io_err io = 0" using io by (simp_all add: io_healthy_def)
  note simps = papi_block_pages_def pmem_make_request_worker_block_def pmem_do_make_request_block_def
    page_at_def copy_to_page_def endio_defs
  { assume c: "block_ctx (papi_hdr pa) (PendRead b) (ctx, d)"
    then obtain p where "di_buffer_vmalloc_buffer (dbi ctx) = Some p" "length p = 4096"
      by (auto simp: block_ctx_def)
    then show "\<exists>ctx'. make_request_worker papi_block_pages io pa bc (ctx, d) = Some ((ctx', d), Some 0) \<and>
        block_ctx (papi_hdr pa) (Reading b (data_at d (papi_hdr pa) b)) (ctx', d)"
      using c io' D(2,3)
      by (simp add: simps block_ctx_defs overwrite_all PAGE_SIZE_def page_base) }
  { assume st: "st = S_CLEAN \<or> st = S_DIRTY" and c: "block_ctx (papi_hdr pa) (PendData b p st) (ctx, d)"
    obtain m where m: "metadata_offset_of pa bc b d = Some m"
      "unat (m div of_nat SECTOR_SIZE) * SECTOR_SIZE = metadata_offset (papi_hdr pa) b"
      using block_pre_sectors [OF pre] by metis
    let ?d = "dev_write d (data_offset (papi_hdr pa) b) p"
    have p: "length p = 4096" using c by (auto simp: block_ctx_def)
    have r: "pmbm_fill bc b st (bcb_sector (blk bc b)) zero_metadata = block_record bc b st"
      using st by (auto simp: block_record_def)
    have m': "metadata_offset_of pa bc b ?d = Some m" using m by simp
    have w: "changed_in (data_region (papi_hdr pa) b) d ?d" "data_at ?d (papi_hdr pa) b = p"
      using p by (auto simp: data_region_def intro!: changed_in_write data_at_write)
    have sz: "length (metadata_page (block_record bc b st)) = 4096" "metadata_sized (block_record bc b st)"
      using length_metadata_page block_record_sized by blast+
    show "\<exists>ctx' d'. make_request_worker papi_block_pages io pa bc (ctx, d) = Some ((ctx', d'), None) \<and>
        block_ctx (papi_hdr pa) (PendMeta b (block_record bc b st)) (ctx', d') \<and>
        changed_in (data_region (papi_hdr pa) b) d d' \<and> data_at d' (papi_hdr pa) b = p"
      using c io' D(2,3,8) st m m' w sz block_fits(2) [OF D(1)]
      by (auto simp: simps block_ctx_defs r pmem_make_request_defer_block_def) }
  { assume c: "block_ctx (papi_hdr pa) (PendMeta b r) (ctx, d)"
    let ?d = "dev_write d (metadata_offset (papi_hdr pa) b) (metadata_page r)"
    have r: "metadata_sized r" using c by (simp add: block_ctx_def Let_def)
    have w: "changed_in (meta_region (papi_hdr pa) b) d ?d" "meta_at ?d (papi_hdr pa) b = r"
      using length_metadata_page [OF r] block_fits(1) [OF D(1)] meta_at_write_page [OF r]
      by (auto simp: meta_region_def intro!: changed_in_write)
    show "\<exists>ctx' d'. make_request_worker papi_block_pages io pa bc (ctx, d) = Some ((ctx', d'), Some 0) \<and>
        block_ctx (papi_hdr pa) Idle (ctx', d') \<and>
        changed_in (meta_region (papi_hdr pa) b) d d' \<and> meta_at d' (papi_hdr pa) b = r"
      using c io' D(2,3) w length_metadata_page [OF r]
      by (auto simp: simps block_ctx_defs) }
qed

lemma block_worker_fails:
  assumes pre: "page_pre papi_block_pages pa bc d b" and io: "io_dax_ok io" "\<not> io_healthy io"
    and c: "ph \<in> {PendRead b, PendData b p st, PendMeta b r}" "block_ctx (papi_hdr pa) ph (ctx, d)"
  shows "\<exists>st' e. make_request_worker papi_block_pages io pa bc (ctx, d) = Some (st', Some e) \<and> e \<noteq> 0"
proof -
  note D = page_preD [OF pre, unfolded pp_ops_simps]
  define e where "e = (if io_alloc_ok io then io_err io else - ENOMEM)"
  have e: "e \<noteq> 0" using io by (auto simp: e_def io_healthy_def ENOMEM_def)
  obtain q where q: "di_buffer (dbi ctx) = Some Vmalloc" "di_buffer_vmalloc_buffer (dbi ctx) = Some q"
    using c by (auto simp: block_ctx_def Let_def)
  note simps = pmem_do_make_request_block_def page_at_def copy_to_page_def set_page_def e_def Let_def
  have "\<exists>ctx' d'. pmem_do_make_request_block io (ctx, d) = Some (e, ctx', d') \<and>
      (ctx' = ctx \<or> (\<exists>q. ctx' = set_page q ctx))"
  proof (cases "io_alloc_ok io")
    case True
    show ?thesis
    proof (cases "bi_datadir ctx")
      case READ
      with True q have "pmem_do_make_request_block io (ctx, d) = Some (e, set_page (overwrite 0
          (if io_err io = 0 then dev_read d (unat (ctx_bi_sector ctx) * SECTOR_SIZE) PAGE_SIZE else io_page io) q)
          ctx, d)" by (simp add: simps)
      then show ?thesis by blast
    qed (use True q in \<open>simp add: simps\<close>)
  qed (simp add: simps)
  then show ?thesis
    using c D(2,3) e
    by (auto simp: papi_block_pages_def pmem_make_request_worker_block_def endio_defs block_ctx_defs)
qed


interpretation block_pages: page_provider papi_block_pages block_ctx
proof unfold_locales
  fix pm ph ctx d R d'
  assume "block_ctx pm ph (ctx, d)"
  then show "block_ctx pm ph (ctx, d')" by (cases ph) (simp_all add: block_ctx_def Let_def)
next
  fix page :: "u8 list" and bc e ctx pm d
  assume "length page = 4096" "pmem_context_setup bc (Some page) pmem_context_initialize = Some (e, ctx)"
  then show "block_ctx pm Idle (ctx, d)"
    by (auto simp: pmem_context_setup_def pmem_context_initialize_def ASSERT_BITTERN_CACHE_def ASSERT_def
        block_ctx_def ctx_free_def Let_def split: if_splits)
next
  fix pm ctx d bc assume "block_ctx pm Idle (ctx, d)" "bittern_cache_ok bc"
  then show "\<exists>ctx'. pmem_context_destroy bc ctx = Some ctx'"
    by (simp add: pmem_context_destroy_def block_ctx_def ctx_free_def ASSERT_BITTERN_CACHE_def Let_def)
next
  fix pa bc d b io ctx
  assume pre: "page_pre papi_block_pages pa bc d b" and c: "block_ctx (papi_hdr pa) Idle (ctx, d)"
  note D = page_preD [OF pre]
  obtain q where q: "data_offset_of pa bc b d = Some q"
    "unat (q div of_nat SECTOR_SIZE) * SECTOR_SIZE = data_offset (papi_hdr pa) b"
    using block_pre_sectors [OF pre] by metis
  show "\<exists>ctx' r. data_cache_get_page_read papi_block_pages io pa bc b (ctx, d) = Some ((ctx', d), r) \<and>
        (r = Some 0 \<and> block_ctx (papi_hdr pa) (Reading b (data_at d (papi_hdr pa) b)) (ctx', d) \<or>
         r = None \<and> block_ctx (papi_hdr pa) (PendRead b) (ctx', d))"
    using c q D(7) by (auto simp: papi_block_pages_def block_ops_defs block_ctx_defs Let_def)
  show "\<exists>ctx' p. data_cache_get_page_write papi_block_pages io pa bc b (ctx, d) = Some (ctx', d) \<and>
        block_ctx (papi_hdr pa) (Writing b p) (ctx', d)"
    using c D(7) by (auto simp: papi_block_pages_def block_ops_defs block_ctx_defs Let_def)
next
  fix pa bc d b p ctx
  assume pre: "page_pre papi_block_pages pa bc d b" and c: "block_ctx (papi_hdr pa) (Reading b p) (ctx, d)"
  then show "\<exists>ctx'. data_cache_put_page_read papi_block_pages pa bc b (ctx, d) = Some (ctx', d) \<and>
        block_ctx (papi_hdr pa) Idle (ctx', d)"
    using page_preD(7) [OF pre]
    by (simp add: papi_block_pages_def block_ops_defs block_ctx_defs Let_def)
next
  fix pa bc d "from" to io p ctx
  assume pre: "page_pre papi_block_pages pa bc d from" "page_pre papi_block_pages pa bc d to" "from \<noteq> to"
    and c: "block_ctx (papi_hdr pa) (Reading from p) (ctx, d)"
  then show "\<exists>ctx' d'. data_cache_clone_read_to_write papi_block_pages io pa bc from to (ctx, d) = Some (ctx', d') \<and>
        block_ctx (papi_hdr pa) (Writing to p) (ctx', d') \<and> changed_in (data_region (papi_hdr pa) to) d d'"
    using page_preD(6,7) [OF pre(1)] page_preD(6,7) [OF pre(2)]
    by (simp add: papi_block_pages_def block_ops_defs block_ctx_defs Let_def)
next
  fix pm b p ctx d
  assume "block_ctx pm (Reading b p) (ctx, d) \<or> block_ctx pm (Writing b p) (ctx, d)"
  then show "length p = 4096 \<and>
      (\<exists>a. (\<forall>dbg. pmem_context_data_vaddr dbg ctx = Some a) \<and> page_at (ctx, d) a = Some p)"
    by (auto simp: block_ctx_defs page_at_def Let_def)
next
  fix pm b p ctx d dbg a pos and bs :: "u8 list"
  assume c: "block_ctx pm (Writing b p) (ctx, d)" "pmem_context_data_vaddr dbg ctx = Some a"
    "pos + length bs \<le> 4096"
  have a: "a = Vmalloc" using c(1,2)
    by (auto simp: block_ctx_def pmem_context_data_vaddr_def Let_def split: if_splits)
  show "\<exists>ctx' d'. copy_to_page a pos bs (ctx, d) = Some (ctx', d') \<and>
        block_ctx pm (Writing b (overwrite pos bs p)) (ctx', d') \<and>
        (\<forall>dbg. pmem_context_data_vaddr dbg ctx' = Some a) \<and> changed_in (data_region pm b) d d'"
    using c(1,3) by (auto simp: a copy_to_page_def block_ctx_defs Let_def)
next
  fix pa bc d b io st p ctx
  assume pre: "page_pre papi_block_pages pa bc d b" and st: "st = S_CLEAN \<or> st = S_DIRTY"
    and c: "block_ctx (papi_hdr pa) (Writing b p) (ctx, d)"
  obtain q where q: "data_offset_of pa bc b d = Some q"
    "unat (q div of_nat SECTOR_SIZE) * SECTOR_SIZE = data_offset (papi_hdr pa) b"
    using block_pre_sectors [OF pre] by metis
  show "\<exists>ctx' d' r. data_cache_put_page_write papi_block_pages io pa bc b st (ctx, d) = Some ((ctx', d'), r) \<and>
        (r = Some 0 \<and> block_ctx (papi_hdr pa) Idle (ctx', d') \<and>
           changed_in (meta_region (papi_hdr pa) b) d d' \<and> data_at d (papi_hdr pa) b = p \<and>
           meta_at d' (papi_hdr pa) b = block_record bc b st \<or>
         r = None \<and> d' = d \<and> block_ctx (papi_hdr pa) (PendData b p st) (ctx', d'))"
    using c q st page_preD(7) [OF pre]
    by (auto simp: papi_block_pages_def block_ops_defs block_ctx_defs Let_def)
next
  fix pa bc d b io st ctx
  assume pre: "page_pre papi_block_pages pa bc d b" and st: "stable_state st"
    and c: "block_ctx (papi_hdr pa) Idle (ctx, d)"
  note D = page_preD [OF pre, unfolded pp_ops_simps]
  obtain m where m: "metadata_offset_of pa bc b d = Some m"
    "unat (m div of_nat SECTOR_SIZE) * SECTOR_SIZE = metadata_offset (papi_hdr pa) b"
    using block_pre_sectors [OF pre] by metis
  have sz: "length (metadata_page (block_record bc b st)) = 4096" "metadata_sized (block_record bc b st)"
    using length_metadata_page block_record_sized by blast+
  show "\<exists>ctx' d' r. metadata_async_write papi_block_pages io pa bc b st (ctx, d) = Some ((ctx', d'), r) \<and>
        (r = Some 0 \<and> block_ctx (papi_hdr pa) Idle (ctx', d') \<and>
           changed_in (meta_region (papi_hdr pa) b) d d' \<and>
           meta_at d' (papi_hdr pa) b = block_record bc b st \<or>
         r = None \<and> d' = d \<and> block_ctx (papi_hdr pa) (PendMeta b (block_record bc b st)) (ctx', d'))"
    using c m st sz D(7,8) block_fits(2) [OF D(1)]
    by (auto simp: papi_block_pages_def block_ops_defs block_ctx_defs Let_def block_record_def)
qed (fact block_worker_ok block_worker_fails)+


section \<open>Storing and fetching a page\<close>

text \<open>
  The queued requests of a context, executed until its callback is called; the devices after each
  of them are collected.  A context never has more than two requests to go.
\<close>

primrec run_requests ::
  "papi_pages \<Rightarrow> pmem_io \<Rightarrow> pmem_api \<Rightarrow> bittern_cache \<Rightarrow> nat \<Rightarrow> pmem_state \<times> int option \<Rightarrow>
     (pmem_dev list \<times> pmem_state \<times> int) option" where
  "run_requests pp io pa bc 0 sr =
     (case snd sr of Some err \<Rightarrow> Some ([], fst sr, err) | None \<Rightarrow> None)"
| "run_requests pp io pa bc (Suc n) sr =
     (case snd sr of
        Some err \<Rightarrow> Some ([], fst sr, err)
      | None \<Rightarrow> do {
          sr \<leftarrow> make_request_worker pp io pa bc (fst sr);
          (ds, out) \<leftarrow> run_requests pp io pa bc n sr;
          Some (snd (fst sr) # ds, out)
        })"

definition store_page ::
  "papi_pages \<Rightarrow> pmem_io \<Rightarrow> pmem_api \<Rightarrow> bittern_cache \<Rightarrow> nat \<Rightarrow> cache_state \<Rightarrow> u8 list \<Rightarrow>
     pmem_state \<Rightarrow> (pmem_dev list \<times> pmem_state \<times> int) option" where
  "store_page pp io pa bc b metadata_update_state page st =
     do {
       st1 \<leftarrow> pmem_data_get_page_write pp io pa bc b st;
       cache_vaddr \<leftarrow> pmem_context_data_vaddr (assert_on bc) (fst st1);
       st2 \<leftarrow> copy_to_page cache_vaddr 0 page st1;
       (st3, r) \<leftarrow> pmem_data_put_page_write pp io pa bc b metadata_update_state st2;
       (ds, out) \<leftarrow> run_requests pp io pa bc 2 (st3, r);
       Some (snd st1 # snd st2 # snd st3 # ds, out)
     }"

definition fetch_page ::
  "papi_pages \<Rightarrow> pmem_io \<Rightarrow> pmem_api \<Rightarrow> bittern_cache \<Rightarrow> nat \<Rightarrow> pmem_state \<Rightarrow>
     (u8 list \<times> pmem_state) option" where
  "fetch_page pp io pa bc b st =
     do {
       (st, r) \<leftarrow> pmem_data_get_page_read pp io pa bc b st;
       (ds, st, err) \<leftarrow> run_requests pp io pa bc 2 (st, r);
       M_ASSERT (err = 0);
       cache_vaddr \<leftarrow> pmem_context_data_vaddr (assert_on bc) (fst st);
       page \<leftarrow> page_at st cache_vaddr;
       st \<leftarrow> pmem_data_put_page_read pp pa bc b st;
       Some (page, st)
     }"

lemma page_pre_changed:
  "page_pre pp pa bc d b \<Longrightarrow> changed_in R d d' \<Longrightarrow> page_pre pp pa bc d' b"
  by (auto simp: page_pre_def changed_in_def header_fits_def)

lemma changed_in_mono: "changed_in R d d' \<Longrightarrow> R \<subseteq> S \<Longrightarrow> changed_in S d d'"
  by (auto simp: changed_in_def)

lemma changed_data_meta:
  assumes "page_pre pp pa bc d b" "changed_in (data_region (papi_hdr pa) b) d d'"
  shows "meta_at d' (papi_hdr pa) b = meta_at d (papi_hdr pa) b"
proof -
  note D = page_preD [OF assms(1)] and f = header_fitsD [OF page_preD(1) [OF assms(1)]]
  have "{metadata_offset (papi_hdr pa) b ..< metadata_offset (papi_hdr pa) b + 64} \<subseteq> meta_region (papi_hdr pa) b"
    using block_regions(3) [OF f(1) D(4,5) D(4,5)] by (auto simp: meta_region_def)
  then have "dev_read d' (metadata_offset (papi_hdr pa) b) 64 = dev_read d (metadata_offset (papi_hdr pa) b) 64"
    using data_meta_disjoint [OF f(1) D(4,5) D(4,5)] by (intro changed_in_read [OF assms(2)]) auto
  then show ?thesis by (simp add: meta_at_def)
qed

lemma changed_meta_data:
  assumes "page_pre pp pa bc d b" "changed_in (meta_region (papi_hdr pa) b) d d'"
  shows "data_at d' (papi_hdr pa) b = data_at d (papi_hdr pa) b"
proof -
  note D = page_preD [OF assms(1)] and f = header_fitsD [OF page_preD(1) [OF assms(1)]]
  show ?thesis
    unfolding data_at_def using data_meta_disjoint [OF f(1) D(4,5) D(4,5)]
    by (intro changed_in_read [OF assms(2)]) (auto simp: data_region_def)
qed

definition stored ::
  "pmem_header \<Rightarrow> nat \<Rightarrow> u8 list \<Rightarrow> pmem_block_metadata \<Rightarrow> pmem_dev \<Rightarrow> pmem_dev \<Rightarrow> bool" where
  "stored pm b page r d d' \<longleftrightarrow>
     changed_in (data_region pm b \<union> meta_region pm b) d d' \<and> data_at d' pm b = page \<and> meta_at d' pm b = r"

text \<open>While a page is being stored the metadata are the old ones.\<close>

definition storing :: "pmem_header \<Rightarrow> nat \<Rightarrow> pmem_dev \<Rightarrow> pmem_dev \<Rightarrow> bool" where
  "storing pm b d d' \<longleftrightarrow> changed_in (data_region pm b) d d' \<and> meta_at d' pm b = meta_at d pm b"

context page_provider
begin

lemma store_ok:
  assumes pre: "page_pre pp pa bc d b" and io: "io_healthy io" and st: "st = S_CLEAN \<or> st = S_DIRTY"
    and page: "length page = 4096" and c: "ctx_in (papi_hdr pa) Idle (ctx, d)"
  shows "\<exists>ds ctx' d'. store_page pp io pa bc b st page (ctx, d) = Some (ds, (ctx', d'), 0) \<and>
    ctx_in (papi_hdr pa) Idle (ctx', d') \<and> stored (papi_hdr pa) b page (block_record bc b st) d d' \<and>
    last ds = d' \<and> ds \<noteq> [] \<and> (\<forall>d'' \<in> set ds. storing (papi_hdr pa) b d d'' \<or> d'' = d')"
proof -
  let ?pm = "papi_hdr pa"
  have size: "0 < pd_size d'" if "changed_in R d d'" for R d'
    by (rule header_fitsD(6) [OF page_preD(1) [OF page_pre_changed [OF pre that]]])
  obtain ctx1 p where 1: "data_cache_get_page_write pp io pa bc b (ctx, d) = Some (ctx1, d)"
      "ctx_in ?pm (Writing b p) (ctx1, d)" using get_page_write [OF pre io c] by blast
  obtain a where a: "\<And>dbg. pmem_context_data_vaddr dbg ctx1 = Some a" "length p = 4096"
    using page_access [OF disjI2 [OF 1(2)]] by blast
  have "0 + length page \<le> 4096" using page by simp
  from page_copy [OF 1(2) a(1) this] obtain ctx2 d2 where 2: "copy_to_page a 0 page (ctx1, d) = Some (ctx2, d2)"
      "ctx_in ?pm (Writing b page) (ctx2, d2)" "changed_in (data_region ?pm b) d d2"
    using overwrite_all [of page p] page a(2) by auto
  have pre2: "page_pre pp pa bc d2 b" by (rule page_pre_changed [OF pre 2(3)])
  have m2: "storing ?pm b d d2" "storing ?pm b d d"
    using changed_data_meta [OF pre 2(3)] 2(3) by (auto simp: storing_def)
  note run = store_page_def pmem_data_get_page_write_def pmem_data_put_page_write_def 1 a 2 size [OF 2(3)]
    size [OF changed_in_refl] numeral_2_eq_2
  from put_page_write [OF pre2 io st 2(2)] obtain ctx3 d3 r where
    3: "data_cache_put_page_write pp io pa bc b st (ctx2, d2) = Some ((ctx3, d3), r)" and
    r: "r = Some 0 \<and> ctx_in ?pm Idle (ctx3, d3) \<and> changed_in (meta_region ?pm b) d2 d3 \<and>
          data_at d2 ?pm b = page \<and> meta_at d3 ?pm b = block_record bc b st \<or>
        r = None \<and> d3 = d2 \<and> ctx_in ?pm (PendData b page st) (ctx3, d3)"
    by blast
  from r show ?thesis
  proof
    assume r: "r = Some 0 \<and> ctx_in ?pm Idle (ctx3, d3) \<and> changed_in (meta_region ?pm b) d2 d3 \<and>
          data_at d2 ?pm b = page \<and> meta_at d3 ?pm b = block_record bc b st"
    then have c3: "changed_in (meta_region ?pm b) d2 d3" by blast
    have "stored ?pm b page (block_record bc b st) d d3"
      using r changed_in_trans [OF 2(3) c3] changed_meta_data [OF pre2 c3] by (simp add: stored_def)
    then show ?thesis using r 3 m2 by (simp add: run)
  next
    assume r: "r = None \<and> d3 = d2 \<and> ctx_in ?pm (PendData b page st) (ctx3, d3)"
    then obtain ctx4 d4 where 4: "make_request_worker pp io pa bc (ctx3, d2) = Some ((ctx4, d4), None)"
        "ctx_in ?pm (PendMeta b (block_record bc b st)) (ctx4, d4)" "changed_in (data_region ?pm b) d2 d4"
        "data_at d4 ?pm b = page"
      using worker_data [OF pre2 io st] by blast
    have c4: "changed_in (data_region ?pm b) d d4" using changed_in_trans [OF 2(3) 4(3)] by simp
    have pre4: "page_pre pp pa bc d4 b" by (rule page_pre_changed [OF pre c4])
    from worker_meta [OF pre4 io 4(2)] obtain ctx5 d5 where
      5: "make_request_worker pp io pa bc (ctx4, d4) = Some ((ctx5, d5), Some 0)" "ctx_in ?pm Idle (ctx5, d5)"
        "changed_in (meta_region ?pm b) d4 d5" "meta_at d5 ?pm b = block_record bc b st" by blast
    have "stored ?pm b page (block_record bc b st) d d5"
      using changed_in_trans [OF c4 5(3)] changed_meta_data [OF pre4 5(3)] 4(4) 5(4) by (simp add: stored_def)
    moreover have "storing ?pm b d d4" using c4 changed_data_meta [OF pre c4] by (simp add: storing_def)
    ultimately show ?thesis using r 3 4(1) 5(1,2) m2 by (simp add: run)
  qed
qed

lemma fetch_ok:
  assumes pre: "page_pre pp pa bc d b" and io: "io_healthy io" and c: "ctx_in (papi_hdr pa) Idle (ctx, d)"
  shows "\<exists>ctx'. fetch_page pp io pa bc b (ctx, d) = Some (data_at d (papi_hdr pa) b, ctx', d) \<and>
    ctx_in (papi_hdr pa) Idle (ctx', d)"
proof -
  let ?pm = "papi_hdr pa"
  have size: "0 < pd_size d" by (rule header_fitsD(6) [OF page_preD(1) [OF pre]])
  obtain ctx1 r where 1: "data_cache_get_page_read pp io pa bc b (ctx, d) = Some ((ctx1, d), r)" and
      r: "r = Some 0 \<and> ctx_in ?pm (Reading b (data_at d ?pm b)) (ctx1, d) \<or>
        r = None \<and> ctx_in ?pm (PendRead b) (ctx1, d)" using get_page_read [OF pre io c] by blast
  have "\<exists>ds ctx2. run_requests pp io pa bc 2 ((ctx1, d), r) = Some (ds, (ctx2, d), 0) \<and>
      ctx_in ?pm (Reading b (data_at d ?pm b)) (ctx2, d)"
  proof (cases r)
    case None
    with r worker_read [OF pre io, of ctx1] show ?thesis by (auto simp: numeral_2_eq_2)
  qed (use r in \<open>auto simp: numeral_2_eq_2\<close>)
  then obtain ds ctx2 where 2: "run_requests pp io pa bc 2 ((ctx1, d), r) = Some (ds, (ctx2, d), 0)"
    "ctx_in ?pm (Reading b (data_at d ?pm b)) (ctx2, d)" by blast
  obtain a where "\<And>dbg. pmem_context_data_vaddr dbg ctx2 = Some a" "page_at (ctx2, d) a = Some (data_at d ?pm b)"
    using page_access [OF disjI1 [OF 2(2)]] by blast
  moreover obtain ctx3 where "data_cache_put_page_read pp pa bc b (ctx2, d) = Some (ctx3, d)"
    "ctx_in ?pm Idle (ctx3, d)" using put_page_read [OF pre 2(2)] by blast
  ultimately show ?thesis
    using 1 2(1) size by (simp add: fetch_page_def pmem_data_get_page_read_def pmem_data_put_page_read_def)
qed

end


lemma context_setup_ok:
  assumes "bittern_cache_ok bc"
  shows "\<exists>ctx. pmem_context_setup bc (Some buf) pmem_context_initialize = Some (0, ctx)"
  using assms by (simp add: pmem_context_setup_def pmem_context_initialize_def ASSERT_BITTERN_CACHE_def)

text \<open>The two providers, each with its description of a context.\<close>

definition providers :: "(papi_pages \<times> (pmem_header \<Rightarrow> page_phase \<Rightarrow> pmem_state \<Rightarrow> bool)) set" where
  "providers = {(papi_mem_pages, mem_ctx), (papi_block_pages, block_ctx)}"

lemma provider_cases:
  assumes "pp \<in> {papi_mem_pages, papi_block_pages}"
  obtains ctx_in where "(pp, ctx_in) \<in> providers"
  using assms by (auto simp: providers_def)

lemma providers_page_provider: "(pp, ctx_in) \<in> providers \<Longrightarrow> page_provider pp ctx_in"
  by (auto simp: providers_def mem_pages.page_provider_axioms block_pages.page_provider_axioms)

text \<open>
  C25: A page that is stored with either provider ends on the device together with the record of
  its block, and the callback reports success; at every moment before that only the data of the
  block have changed and its metadata are the old ones, and nothing outside the block ever changes.
\<close>

theorem stored_page_crash_safe:
  assumes pp: "pp \<in> {papi_mem_pages, papi_block_pages}" and pre: "page_pre pp pa bc d b"
    and io: "io_healthy io" and st: "st = S_CLEAN \<or> st = S_DIRTY"
    and len: "length page = 4096" "length buf = 4096"
  shows "\<exists>ctx ds ctx' d'. pmem_context_setup bc (Some buf) pmem_context_initialize = Some (0, ctx) \<and>
    store_page pp io pa bc b st page (ctx, d) = Some (ds, (ctx', d'), 0) \<and>
    stored (papi_hdr pa) b page (block_record bc b st) d d' \<and>
    last ds = d' \<and> (\<forall>d'' \<in> set ds. storing (papi_hdr pa) b d d'' \<or> d'' = d')"
proof (rule provider_cases [OF pp])
  fix ctx_in assume "(pp, ctx_in) \<in> providers"
  note prov = providers_page_provider [OF this]
  obtain ctx where ctx: "pmem_context_setup bc (Some buf) pmem_context_initialize = Some (0, ctx)"
    using context_setup_ok [OF page_preD(2) [OF pre]] ..
  have "ctx_in (papi_hdr pa) Idle (ctx, d)" by (rule page_provider.ctx_setup [OF prov len(2) ctx])
  from page_provider.store_ok [OF prov pre io st len(1) this] ctx show ?thesis by blast
qed

text \<open>
  C26: A page that was stored with either provider is what a later read of the block returns.
\<close>

theorem stored_page_read_back:
  assumes pp: "pp \<in> {papi_mem_pages, papi_block_pages}" and pre: "page_pre pp pa bc d b"
    and io: "io_healthy io" and st: "st = S_CLEAN \<or> st = S_DIRTY"
    and len: "length page = 4096" "length buf = 4096"
    and ctx: "pmem_context_setup bc (Some buf) pmem_context_initialize = Some (0, ctx)"
  shows "\<exists>ctx'. do {
      (ds, st, err) \<leftarrow> store_page pp io pa bc b st page (ctx, d);
      fetch_page pp io pa bc b st
    } = Some (page, ctx')"
proof (rule provider_cases [OF pp])
  fix ctx_in assume "(pp, ctx_in) \<in> providers"
  note prov = providers_page_provider [OF this]
  have "ctx_in (papi_hdr pa) Idle (ctx, d)" by (rule page_provider.ctx_setup [OF prov len(2) ctx])
  from page_provider.store_ok [OF prov pre io st len(1) this] obtain ds ctx' d' where
    s: "store_page pp io pa bc b st page (ctx, d) = Some (ds, (ctx', d'), 0)"
      "ctx_in (papi_hdr pa) Idle (ctx', d')" "stored (papi_hdr pa) b page (block_record bc b st) d d'" by blast
  have "page_pre pp pa bc d' b"
    using s(3) unfolding stored_def by (intro page_pre_changed [OF pre]) blast
  from page_provider.fetch_ok [OF prov this io s(2)] s(1,3) show ?thesis by (auto simp: stored_def)
qed

text \<open>
  C27: A request of the block provider that cannot be allocated or that the device fails is always
  reported: the callback is called at once with an error, whatever the request was, and no
  assertion fails.
\<close>

theorem failed_request_reported:
  assumes "page_pre papi_block_pages pa bc d b" "io_dax_ok io" "\<not> io_alloc_ok io \<or> io_err io \<noteq> 0"
    and "ph \<in> {PendRead b, PendData b p st, PendMeta b r}" "block_ctx (papi_hdr pa) ph (ctx, d)"
  shows "\<exists>st' e. pmem_make_request_worker_block io pa bc (ctx, d) = Some (st', Some e) \<and> e \<noteq> 0"
proof -
  have "\<not> io_healthy io" using assms(3) by (auto simp: io_healthy_def)
  from block_pages.worker_error [OF assms(1,2) this assms(4,5)] show ?thesis
    by (simp add: papi_block_pages_def)
qed

section \<open>Examples\<close>

lemma example_cache_block [simp]:
  "bittern_cache_ok example_cache" "cache_block_ok example_cache (Suc 0)"
  "bcb_state (blk example_cache (Suc 0)) = S_CLEAN" "is_sector_number_valid (bcb_sector (blk example_cache (Suc 0)))"
proof -
  have "Suc 0 \<in> block_ids example_cache" by code_simp
  then show "bittern_cache_ok example_cache" "cache_block_ok example_cache (Suc 0)"
    using example_cache_inv by simp_all
  show "bcb_state (blk example_cache (Suc 0)) = S_CLEAN" "is_sector_number_valid (bcb_sector (blk example_cache (Suc 0)))"
    by code_simp+
qed

lemma example_page_pre:
  assumes "pp \<in> {papi_mem_pages, papi_block_pages}"
  obtains pa :: pmem_api where "page_pre pp pa example_cache example_dev 1"
proof -
  have "pp_ops pp \<in> {papi_mem_ops, papi_block_ops}" using assms by auto
  then obtain pm where pm: "header_fits (pp_ops pp) example_dev pm"
    using init_header_fits [of example_dev "pp_ops pp" "zero_header\<lparr> lm_magic := LM_MAGIC \<rparr>" True] by auto
  then have "1 \<le> nblocks pm" by (simp add: header_fits_def)
  with pm have "page_pre pp (example_api\<lparr> papi_hdr := pm \<rparr>) example_cache example_dev 1"
    by (simp add: page_pre_def)
  then show thesis by (rule that)
qed

definition example_io :: pmem_io where
  "example_io = \<lparr> io_dax_ok = True, io_alloc_ok = True, io_err = 0, io_garbage = [] \<rparr>"

lemma example_io_healthy [simp]: "io_healthy example_io"
  by (simp add: example_io_def io_healthy_def)

lemma example_context:
  obtains ctx where "pmem_context_setup example_cache (Some (replicate 4096 0)) pmem_context_initialize = Some (0, ctx)"
  using context_setup_ok [OF example_cache_block(1)] by blast

theorem stored_page_crash_safe_witness:
  "\<exists>pa ctx ds ctx' d'. store_page papi_block_pages example_io pa example_cache 1 S_CLEAN (replicate 4096 7) (ctx, example_dev) =
      Some (ds, (ctx', d'), 0) \<and> data_at d' (papi_hdr pa) 1 = replicate 4096 7"
proof -
  obtain pa :: pmem_api where "page_pre papi_block_pages pa example_cache example_dev 1"
    using example_page_pre [of papi_block_pages] by auto
  from stored_page_crash_safe [OF _ this example_io_healthy, of S_CLEAN "replicate 4096 7" "replicate 4096 0"]
  show ?thesis unfolding stored_def by (simp del: One_nat_def) blast
qed

theorem stored_page_read_back_witness:
  "\<exists>pa ctx st'. do {
      (ds, st, err) \<leftarrow> store_page papi_mem_pages example_io pa example_cache 1 S_DIRTY (replicate 4096 7) (ctx, example_dev);
      fetch_page papi_mem_pages example_io pa example_cache 1 st
    } = Some (replicate 4096 7, st')"
proof -
  obtain pa :: pmem_api where pre: "page_pre papi_mem_pages pa example_cache example_dev 1"
    using example_page_pre [of papi_mem_pages] by auto
  obtain ctx where "pmem_context_setup example_cache (Some (replicate 4096 0)) pmem_context_initialize = Some (0, ctx)"
    by (rule example_context)
  from stored_page_read_back [OF _ pre example_io_healthy _ _ _ this, of S_DIRTY "replicate 4096 7"]
  show ?thesis by (simp del: One_nat_def) blast
qed

theorem failed_request_reported_witness:
  "\<exists>pa ctx st' e. pmem_make_request_worker_block (example_io\<lparr> io_err := - EIO \<rparr>) pa example_cache (ctx, example_dev) =
    Some (st', Some e) \<and> e \<noteq> 0"
proof -
  obtain pa :: pmem_api where pre: "page_pre papi_block_pages pa example_cache example_dev 1"
    using example_page_pre [of papi_block_pages] by auto
  obtain ctx where "pmem_context_setup example_cache (Some (replicate 4096 0)) pmem_context_initialize = Some (0, ctx)"
    by (rule example_context)
  then have idle: "block_ctx (papi_hdr pa) Idle (ctx, example_dev)"
    by (rule block_pages.ctx_setup [rotated]) simp
  obtain q where q: "data_offset_of pa example_cache 1 example_dev = Some q"
    "unat (q div of_nat SECTOR_SIZE) * SECTOR_SIZE = data_offset (papi_hdr pa) 1"
    using block_pre_sectors [OF pre] by metis
  obtain ctx' where "block_ctx (papi_hdr pa) (PendRead 1) (ctx', example_dev)"
  proof -
    obtain ctx' r where "data_cache_get_page_read papi_block_pages example_io pa example_cache 1 (ctx, example_dev) =
        Some ((ctx', example_dev), r)"
      "r = Some 0 \<and> block_ctx (papi_hdr pa) (Reading 1 (data_at example_dev (papi_hdr pa) 1)) (ctx', example_dev) \<or>
       r = None \<and> block_ctx (papi_hdr pa) (PendRead 1) (ctx', example_dev)"
      using block_pages.get_page_read [OF pre example_io_healthy idle] by blast
    then have "r = None \<Longrightarrow> thesis" "r = None"
      using that q page_preD(7) [OF pre]
      by (auto simp: papi_block_pages_def block_ops_defs block_ctx_defs ASSERT_def split: if_splits option.splits
          Option.bind_splits)
    then show thesis by blast
  qed
  from failed_request_reported [OF pre _ _ _ this, of "example_io\<lparr> io_err := - EIO \<rparr>" "[]" S_CLEAN zero_metadata]
  show ?thesis by (simp add: example_io_def EIO_def del: One_nat_def) blast
qed

end
