(* ===== verification/Cache_Bio.thy ===== *)
theory Cache_Bio
  imports Pmem_Pages
begin

unbundle bit_operations_syntax

text \<open>
  Requests of the block layer (\<open>struct bio\<close>) as far as the module looks at them, and the two
  copies of \<open>bittern_cache_main.c\<close> between the memory of a request and the page of a cache
  block.  A request that lies within one cache block reads or replaces one range of its page
  (\<open>bio_slice\<close>, \<open>bio_apply\<close>), whatever segments its memory is made of.
\<close>

section \<open>Requests\<close>

text \<open>
  A segment of a request is in a page of its submitter, given by its contents, or it is the page
  of a work item, when the module itself is the submitter.
\<close>

datatype bio_page = Own "u8 list" | Wi_page di_addr

record bio_vec =
  bv_page :: bio_page
  bv_len :: u32
  bv_offset :: u32

text \<open>The bits of \<open>bi_rw\<close> that the module uses are separate fields.\<close>

record bio =
  bi_dir :: bio_dir
  bi_flush :: bool
  bi_fua :: bool
  bi_discard :: bool
  bi_sector :: sector_t
  bi_size :: u32
  bi_io_vec :: "bio_vec list"

definition bio_is_pureflush_request :: "bio \<Rightarrow> bool" where
  "bio_is_pureflush_request bio \<longleftrightarrow> bi_flush bio \<and> bi_size bio = 0"

definition bio_is_discard_request :: "bio \<Rightarrow> bool" where
  "bio_is_discard_request bio \<longleftrightarrow> bi_discard bio"

definition bio_is_pureflush_or_discard_request :: "bio \<Rightarrow> bool" where
  "bio_is_pureflush_or_discard_request bio \<longleftrightarrow>
     bio_is_pureflush_request bio \<or> bio_is_discard_request bio"

definition bio_is_data_request :: "bio \<Rightarrow> bool" where
  "bio_is_data_request bio \<longleftrightarrow> \<not> bio_is_pureflush_or_discard_request bio"

definition bio_is_request_cache_block :: "bio \<Rightarrow> bool" where
  "bio_is_request_cache_block bio \<longleftrightarrow> is_request_cache_block (bi_sector bio) (bi_size bio)"

definition bio_is_request_single_cache_block :: "bio \<Rightarrow> bool" where
  "bio_is_request_single_cache_block bio \<longleftrightarrow>
     is_request_single_cache_block (bi_sector bio) (bi_size bio)"

definition bio_sector_to_cache_block_sector :: "bio \<Rightarrow> sector_t" where
  "bio_sector_to_cache_block_sector bio = sector_to_cache_block_sector (bi_sector bio)"

section \<open>Copying between a request and the page of a block\<close>

text \<open>
  The assertions at the start of both copies; the result is \<open>cache_block_copy_offset\<close>.  The C
  code computes it as a 64-bit value and keeps the low 32 bits.
\<close>

definition bio_copy_begin :: "bool \<Rightarrow> sector_t \<Rightarrow> bio \<Rightarrow> u32 option" where
  "bio_copy_begin dbg sector bio =
     do {
       ASSERT dbg (bio_is_request_single_cache_block bio);
       ASSERT dbg (sector = bio_sector_to_cache_block_sector bio);
       ASSERT dbg (sector \<le> bi_sector bio);
       let cache_block_copy_offset = ucast ((bi_sector bio - sector) * of_nat SECTOR_SIZE);
       ASSERT dbg (cache_block_copy_offset < of_nat PAGE_SIZE);
       Some cache_block_copy_offset
     }"

text \<open>The assertions on one segment, which both loops have after the copy.\<close>

definition bio_copy_segment_asserts :: "bool \<Rightarrow> bio \<Rightarrow> u32 \<Rightarrow> u32 \<Rightarrow> bio_vec \<Rightarrow> unit option" where
  "bio_copy_segment_asserts dbg bio cache_block_copy_offset biovec_offset bvec =
     do {
       ASSERT dbg (bv_offset bvec \<le> of_nat PAGE_SIZE);
       ASSERT dbg (bv_offset bvec + bv_len bvec \<le> of_nat PAGE_SIZE);
       ASSERT dbg (cache_block_copy_offset + biovec_offset \<le> of_nat PAGE_SIZE);
       ASSERT dbg (cache_block_copy_offset + biovec_offset + bv_len bvec \<le> of_nat PAGE_SIZE);
       if bi_size bio = of_nat PAGE_SIZE then ASSERT dbg (cache_block_copy_offset = 0)
       else ASSERT dbg (cache_block_copy_offset < of_nat PAGE_SIZE)
     }"

definition bio_copy_end_asserts :: "bool \<Rightarrow> bio \<Rightarrow> u32 \<Rightarrow> u32 \<Rightarrow> unit option" where
  "bio_copy_end_asserts dbg bio cache_block_copy_offset biovec_offset =
     (if bi_size bio = of_nat PAGE_SIZE then
        do {
          ASSERT dbg (biovec_offset = of_nat PAGE_SIZE);
          ASSERT dbg (cache_block_copy_offset = 0)
        }
      else
        do {
          ASSERT dbg (biovec_offset < of_nat PAGE_SIZE);
          ASSERT dbg (cache_block_copy_offset < of_nat PAGE_SIZE);
          ASSERT dbg (cache_block_copy_offset + biovec_offset \<le> of_nat PAGE_SIZE)
        })"

text \<open>
  A copy that would leave the page of the block or the page of the segment is a memory error of
  the kernel, the value \<^term>\<open>None\<close>.
\<close>

fun bio_copy_from_cache_loop ::
  "bool \<Rightarrow> bio \<Rightarrow> u8 list \<Rightarrow> u32 \<Rightarrow> u32 \<Rightarrow> bio_vec list \<Rightarrow> (u32 \<times> bio_vec list) option" where
  "bio_copy_from_cache_loop dbg bio page copy_offset biovec_offset [] = Some (biovec_offset, [])"
| "bio_copy_from_cache_loop dbg bio page copy_offset biovec_offset (bvec # bvecs) =
     (case bv_page bvec of
        Wi_page _ \<Rightarrow> None
      | Own mem \<Rightarrow>
          do {
            ASSERT dbg (bv_len bvec > 0);
            let pos = unat copy_offset + unat biovec_offset;
            let len = unat (bv_len bvec);
            M_ASSERT (pos + len \<le> length page \<and> unat (bv_offset bvec) + len \<le> length mem);
            let mem = overwrite (unat (bv_offset bvec)) (take len (drop pos page)) mem;
            bio_copy_segment_asserts dbg bio copy_offset biovec_offset bvec;
            (n, bvecs) \<leftarrow> bio_copy_from_cache_loop dbg bio page copy_offset
              (biovec_offset + bv_len bvec) bvecs;
            Some (n, bvec\<lparr> bv_page := Own mem \<rparr> # bvecs)
          })"

fun bio_copy_to_cache_loop ::
  "bool \<Rightarrow> bio \<Rightarrow> di_addr \<Rightarrow> u32 \<Rightarrow> u32 \<Rightarrow> bio_vec list \<Rightarrow> pmem_state \<Rightarrow> (u32 \<times> pmem_state) option" where
  "bio_copy_to_cache_loop dbg bio cache_vaddr copy_offset biovec_offset [] st = Some (biovec_offset, st)"
| "bio_copy_to_cache_loop dbg bio cache_vaddr copy_offset biovec_offset (bvec # bvecs) st =
     (case bv_page bvec of
        Wi_page _ \<Rightarrow> None
      | Own mem \<Rightarrow>
          do {
            ASSERT dbg (bv_len bvec > 0);
            let pos = unat copy_offset + unat biovec_offset;
            let len = unat (bv_len bvec);
            M_ASSERT (pos + len \<le> PAGE_SIZE \<and> unat (bv_offset bvec) + len \<le> length mem);
            st \<leftarrow> copy_to_page cache_vaddr pos (take len (drop (unat (bv_offset bvec)) mem)) st;
            bio_copy_segment_asserts dbg bio copy_offset biovec_offset bvec;
            bio_copy_to_cache_loop dbg bio cache_vaddr copy_offset (biovec_offset + bv_len bvec) bvecs st
          })"

text \<open>
  \<open>__bio_copy_from_cache\<close>: the request with the bytes copied to its memory, and the hash of the
  page, which the caller may ignore (\<open>bio_copy_from_cache_nohash\<close>).
\<close>

definition bio_copy_from_cache ::
  "bool \<Rightarrow> sector_t \<Rightarrow> bio \<Rightarrow> pmem_state \<Rightarrow> (bio \<times> uint128_t) option" where
  "bio_copy_from_cache dbg sector bio st =
     do {
       copy_offset \<leftarrow> bio_copy_begin dbg sector bio;
       cache_vaddr \<leftarrow> pmem_context_data_vaddr dbg (fst st);
       page \<leftarrow> page_at st cache_vaddr;
       (biovec_offset, bvecs) \<leftarrow> bio_copy_from_cache_loop dbg bio page copy_offset 0 (bi_io_vec bio);
       M_ASSERT (biovec_offset = bi_size bio);
       bio_copy_end_asserts dbg bio copy_offset biovec_offset;
       Some (bio\<lparr> bi_io_vec := bvecs \<rparr>, murmurhash3_128 page PAGE_SIZE)
     }"

definition bio_copy_to_cache ::
  "bool \<Rightarrow> sector_t \<Rightarrow> bio \<Rightarrow> pmem_state \<Rightarrow> (pmem_state \<times> uint128_t) option" where
  "bio_copy_to_cache dbg sector bio st =
     do {
       copy_offset \<leftarrow> bio_copy_begin dbg sector bio;
       cache_vaddr \<leftarrow> pmem_context_data_vaddr dbg (fst st);
       (biovec_offset, st) \<leftarrow> bio_copy_to_cache_loop dbg bio cache_vaddr copy_offset 0 (bi_io_vec bio) st;
       ASSERT dbg (biovec_offset = bi_size bio);
       bio_copy_end_asserts dbg bio copy_offset biovec_offset;
       page \<leftarrow> page_at st cache_vaddr;
       Some (st, murmurhash3_128 page PAGE_SIZE)
     }"

section \<open>What a request means\<close>

fun bvec_bytes :: "bio_vec \<Rightarrow> u8 list" where
  "bvec_bytes bvec =
     (case bv_page bvec of
        Own mem \<Rightarrow> take (unat (bv_len bvec)) (drop (unat (bv_offset bvec)) mem)
      | Wi_page _ \<Rightarrow> [])"

declare bvec_bytes.simps [simp del]

definition bio_bytes :: "bio \<Rightarrow> u8 list" where
  "bio_bytes bio = concat (map bvec_bytes (bi_io_vec bio))"

definition bio_pos :: "bio \<Rightarrow> nat" where
  "bio_pos bio = unat (bi_sector bio) mod 8 * 512"

text \<open>
  What the block layer guarantees of a data request that the module was told to accept one cache
  block at a time: its memory is made of non-empty segments within pages, as long as its size, and
  it stays within one cache block.
\<close>

definition bvec_ok :: "bio_vec \<Rightarrow> bool" where
  "bvec_ok bvec \<longleftrightarrow>
     0 < bv_len bvec \<and> unat (bv_offset bvec) + unat (bv_len bvec) \<le> 4096 \<and>
     (case bv_page bvec of Own mem \<Rightarrow> length mem = 4096 | Wi_page _ \<Rightarrow> False)"

definition bio_ok :: "bio \<Rightarrow> bool" where
  "bio_ok bio \<longleftrightarrow>
     list_all bvec_ok (bi_io_vec bio) \<and>
     sum_list (map (\<lambda>v. unat (bv_len v)) (bi_io_vec bio)) = unat (bi_size bio) \<and>
     0 < unat (bi_size bio) \<and> unat (bi_size bio) mod 512 = 0 \<and>
     bio_pos bio + unat (bi_size bio) \<le> 4096 \<and>
     is_sector_number_valid (bi_sector bio) \<and> bio_is_data_request bio"

text \<open>The range of a page that a request reads, and the page after it was written.\<close>

definition bio_slice :: "bio \<Rightarrow> u8 list \<Rightarrow> u8 list" where
  "bio_slice bio page = take (unat (bi_size bio)) (drop (bio_pos bio) page)"

definition bio_apply :: "bio \<Rightarrow> u8 list \<Rightarrow> u8 list" where
  "bio_apply bio page = overwrite (bio_pos bio) (bio_bytes bio) page"


section \<open>The copies are right\<close>

lemma bio_okD:
  assumes "bio_ok bio"
  shows "list_all bvec_ok (bi_io_vec bio)"
    "sum_list (map (\<lambda>v. unat (bv_len v)) (bi_io_vec bio)) = unat (bi_size bio)"
    "0 < unat (bi_size bio)" "bio_pos bio + unat (bi_size bio) \<le> 4096"
    "is_sector_number_valid (bi_sector bio)" "bio_pos bio < 4096" "unat (bi_size bio) mod 512 = 0"
    "bio_is_data_request bio"
  using assms unfolding bio_ok_def by linarith+

lemma length_bvec_bytes: "bvec_ok v \<Longrightarrow> length (bvec_bytes v) = unat (bv_len v)"
  by (cases "bv_page v") (auto simp: bvec_ok_def bvec_bytes.simps)

lemma length_bvecs_bytes:
  "list_all bvec_ok vs \<Longrightarrow>
   length (concat (map bvec_bytes vs)) = sum_list (map (\<lambda>v. unat (bv_len v)) vs)"
  by (induction vs) (simp_all add: length_bvec_bytes)

lemma length_bio_bytes: "bio_ok bio \<Longrightarrow> length (bio_bytes bio) = unat (bi_size bio)"
  by (simp add: bio_bytes_def bio_okD length_bvecs_bytes)

lemma length_bio_slice: "bio_ok bio \<Longrightarrow> length p = 4096 \<Longrightarrow> length (bio_slice bio p) = unat (bi_size bio)"
  using bio_okD(4) [of bio] by (simp add: bio_slice_def)

lemma length_bio_apply [simp]: "bio_ok bio \<Longrightarrow> length p = 4096 \<Longrightarrow> length (bio_apply bio p) = 4096"
  using bio_okD(4) [of bio] by (simp add: bio_apply_def length_bio_bytes)

lemma bio_ok_single:
  assumes "bio_ok bio"
  shows "bio_is_request_single_cache_block bio"
proof -
  let ?s = "unat (bi_sector bio)" and ?n = "unat (bi_size bio) div 512"
  have "unat (bi_size bio) = ?n * 512" using bio_okD(7) [OF assms] by (metis dvd_div_mult_self mod_0_imp_dvd)
  moreover have "?s mod 8 * 512 + unat (bi_size bio) \<le> 4096"
    using bio_okD(4) [OF assms] by (simp add: bio_pos_def)
  ultimately have n: "0 < ?n" "?s mod 8 + ?n \<le> 8" using bio_okD(3) [OF assms] by linarith+
  have s: "?s < 2 ^ 63" using bio_okD(5) [OF assms] by (simp add: is_sector_number_valid_unat)
  have len: "unat (ucast (bi_size bio div 512) :: u64) = ?n"
    using unat_less_exp [of "bi_size bio div 512"]
    by (simp add: unsigned_ucast_eq unat_div take_bit_nat_eq_self_iff)
  let ?e = "bi_sector bio + ucast (bi_size bio div 512) - 1"
  have "unat (bi_sector bio + ucast (bi_size bio div 512)) = ?s + ?n"
    using s n len by (subst unat_word_ariths(1)) simp
  then have "unat ?e = ?s + ?n - 1"
    using n by (subst unat_minus_one) auto
  moreover have "(?s + ?n - 1) div 8 = ?s div 8"
  proof -
    have "?s + ?n - 1 = ?s div 8 * 8 + (?s mod 8 + (?n - 1))"
      using n(1) by (simp add: add.assoc [symmetric])
    moreover have "?s mod 8 + (?n - 1) < 8" using n by linarith
    ultimately show ?thesis by (simp only: div_mult_self3) simp
  qed
  ultimately show ?thesis
    by (simp add: bio_is_request_single_cache_block_def is_request_single_cache_block_def
        SECTORS_PER_CACHE_BLOCK_eq SECTOR_SIZE_def Let_def word_unat_eq_iff unat_div)
qed

lemma bio_copy_begin_ok:
  assumes "bio_ok bio" and s: "sector = bio_sector_to_cache_block_sector bio"
  shows "bio_copy_begin dbg sector bio = Some (of_nat (bio_pos bio))"
    and "unat (of_nat (bio_pos bio) :: u32) = bio_pos bio"
proof -
  let ?s = "unat (bi_sector bio)"
  have u: "unat sector = ?s div 8 * 8"
    by (simp add: s bio_sector_to_cache_block_sector_def unat_sector_to_cache_block_sector)
  then have le: "sector \<le> bi_sector bio" by (simp add: word_le_nat_alt)
  have "unat (bi_sector bio - sector) = ?s mod 8"
    using le u by (simp add: unat_sub minus_div_mult_eq_mod)
  then have "bi_sector bio - sector = of_nat (?s mod 8)"
    unfolding word_unat_eq_iff by (subst unat_of_nat) simp
  then have "(bi_sector bio - sector) * of_nat SECTOR_SIZE = of_nat (bio_pos bio)"
    by (simp add: bio_pos_def SECTOR_SIZE_def)
  moreover have lt: "bio_pos bio < 4096" using bio_okD(6) [OF assms(1)] .
  moreover show w: "unat (of_nat (bio_pos bio) :: u32) = bio_pos bio"
    using lt by (subst unat_of_nat) simp
  moreover have "(ucast (of_nat (bio_pos bio) :: u64) :: u32) = of_nat (bio_pos bio)"
    using lt by (simp add: word_unat_eq_iff unsigned_ucast_eq unat_of_nat take_bit_nat_eq_self_iff)
  ultimately show "bio_copy_begin dbg sector bio = Some (of_nat (bio_pos bio))"
    using bio_ok_single [OF assms(1)] s le
    by (simp add: bio_copy_begin_def PAGE_SIZE_def word_less_nat_alt)
qed

lemma bvec_in_bio:
  assumes "bvec_ok v" "unat copy + unat off + unat (bv_len v) \<le> 4096"
    and "bi_size bio = 4096 \<Longrightarrow> copy = 0" "unat copy < 4096"
  shows "bio_copy_segment_asserts dbg bio copy off v = Some ()"
    and "unat (off + bv_len v) = unat off + unat (bv_len v)"
proof -
  show u: "unat (off + bv_len v) = unat off + unat (bv_len v)"
    using assms(2) by (subst unat_word_ariths(1)) simp
  have "unat (bv_offset v + bv_len v) = unat (bv_offset v) + unat (bv_len v)"
    using assms(1) by (subst unat_word_ariths(1)) (simp add: bvec_ok_def)
  moreover have "unat (copy + off) = unat copy + unat off"
    using assms(2) by (subst unat_word_ariths(1)) simp
  moreover from this have "unat (copy + off + bv_len v) = unat copy + unat off + unat (bv_len v)"
    using assms(2) by (subst unat_word_ariths(1)) simp
  ultimately show "bio_copy_segment_asserts dbg bio copy off v = Some ()"
    using assms by (auto simp: bio_copy_segment_asserts_def PAGE_SIZE_def word_le_nat_alt
        word_less_nat_alt bvec_ok_def)
qed

text \<open>Copying to the request: the bytes it then has are the range of the page.\<close>

lemma bio_copy_from_cache_loop_ok:
  assumes "list_all bvec_ok vs" "length page = 4096"
    and "unat copy + unat off + sum_list (map (\<lambda>v. unat (bv_len v)) vs) \<le> 4096"
    and "bi_size bio = 4096 \<Longrightarrow> copy = 0" "unat copy < 4096"
  shows "\<exists>vs'. bio_copy_from_cache_loop dbg bio page copy off vs =
      Some (off + of_nat (sum_list (map (\<lambda>v. unat (bv_len v)) vs)), vs') \<and>
    list_all bvec_ok vs' \<and> map bv_len vs' = map bv_len vs \<and>
    concat (map bvec_bytes vs') =
      take (sum_list (map (\<lambda>v. unat (bv_len v)) vs)) (drop (unat copy + unat off) page)"
  using assms
proof (induction vs arbitrary: off)
  case (Cons v vs)
  let ?n = "sum_list (map (\<lambda>v. unat (bv_len v)) vs)"
  obtain mem where mem: "bv_page v = Own mem" "length mem = 4096"
    using Cons.prems(1) by (cases "bv_page v") (auto simp: bvec_ok_def)
  have v: "bvec_ok v" "unat copy + unat off + unat (bv_len v) \<le> 4096"
    using Cons.prems(1,3) by simp_all
  note seg = bvec_in_bio [OF v Cons.prems(4,5)]
  obtain vs' where vs': "bio_copy_from_cache_loop dbg bio page copy (off + bv_len v) vs =
      Some (off + bv_len v + of_nat ?n, vs')"
    "list_all bvec_ok vs'" "map bv_len vs' = map bv_len vs"
    "concat (map bvec_bytes vs') = take ?n (drop (unat copy + unat (off + bv_len v)) page)"
    using Cons.IH [of "off + bv_len v"] Cons.prems seg(2) by auto
  let ?bs = "take (unat (bv_len v)) (drop (unat copy + unat off) page)"
  let ?v = "v\<lparr> bv_page := Own (overwrite (unat (bv_offset v)) ?bs mem) \<rparr>"
  have len: "length ?bs = unat (bv_len v)" using v(2) Cons.prems(2) by simp
  have bytes: "bvec_bytes ?v = ?bs"
    using len v(1) mem by (simp add: bvec_bytes.simps overwrite_def bvec_ok_def)
  have ok: "bvec_ok ?v"
    using len v(1) mem by (simp add: bvec_ok_def overwrite_def)
  have "bio_copy_from_cache_loop dbg bio page copy off (v # vs) =
      Some (off + bv_len v + of_nat ?n, ?v # vs')"
    using v mem seg(1) vs'(1) Cons.prems(2) by (simp add: bvec_ok_def)
  moreover have "?bs @ take ?n (drop (unat copy + unat (off + bv_len v)) page) =
      take (unat (bv_len v) + ?n) (drop (unat copy + unat off) page)"
    by (simp add: seg(2) take_add ac_simps)
  ultimately show ?case
    using vs' bytes ok by (intro exI [of _ "?v # vs'"]) (simp add: add.assoc)
qed simp

lemma bio_copy_sizes:
  assumes "bio_ok bio"
  shows "bi_size bio = 4096 \<Longrightarrow> (of_nat (bio_pos bio) :: u32) = 0"
    and "(of_nat (sum_list (map (\<lambda>v. unat (bv_len v)) (bi_io_vec bio))) :: u32) = bi_size bio"
    and "bio_copy_end_asserts dbg bio (of_nat (bio_pos bio)) (bi_size bio) = Some ()"
proof -
  note D = bio_okD [OF assms] and p = bio_copy_begin_ok(2) [OF assms refl]
  show z: "(of_nat (bio_pos bio) :: u32) = 0" if "bi_size bio = 4096"
    using D(4) that by simp
  show "(of_nat (sum_list (map (\<lambda>v. unat (bv_len v)) (bi_io_vec bio))) :: u32) = bi_size bio"
    unfolding D(2) by simp
  have "unat (of_nat (bio_pos bio) + bi_size bio) = bio_pos bio + unat (bi_size bio)"
    using D(4) p by (subst unat_word_ariths(1)) simp
  then show "bio_copy_end_asserts dbg bio (of_nat (bio_pos bio)) (bi_size bio) = Some ()"
    using D(4,6) p z by (auto simp: bio_copy_end_asserts_def PAGE_SIZE_def word_le_nat_alt
        word_less_nat_alt order_le_less word_unat_eq_iff)
qed

lemma bio_copy_from_cache_ok:
  assumes bio: "bio_ok bio" and s: "sector = bio_sector_to_cache_block_sector bio"
    and a: "pmem_context_data_vaddr dbg (fst st) = Some a" "page_at st a = Some page" "length page = 4096"
  shows "\<exists>vs. bio_copy_from_cache dbg sector bio st =
      Some (bio\<lparr> bi_io_vec := vs \<rparr>, murmurhash3_128 page PAGE_SIZE) \<and>
    bio_ok (bio\<lparr> bi_io_vec := vs \<rparr>) \<and> bio_bytes (bio\<lparr> bi_io_vec := vs \<rparr>) = bio_slice bio page"
proof -
  note D = bio_okD [OF bio] and b = bio_copy_begin_ok [OF bio s] and z = bio_copy_sizes [OF bio]
  obtain vs where vs: "bio_copy_from_cache_loop dbg bio page (of_nat (bio_pos bio)) 0 (bi_io_vec bio) =
      Some (bi_size bio, vs)" "list_all bvec_ok vs" "map bv_len vs = map bv_len (bi_io_vec bio)"
    "concat (map bvec_bytes vs) = bio_slice bio page"
    using bio_copy_from_cache_loop_ok [OF D(1) a(3), of "of_nat (bio_pos bio)" 0 bio dbg] D z(1) b(2)
    by (auto simp: z(2) bio_slice_def)
  have "map (\<lambda>v. unat (bv_len v)) vs = map (\<lambda>v. unat (bv_len v)) (bi_io_vec bio)"
    using arg_cong [OF vs(3), of "map unat"] by (simp add: comp_def)
  then have "bio_ok (bio\<lparr> bi_io_vec := vs \<rparr>)"
    using bio vs(2) by (simp add: bio_ok_def bio_pos_def bio_is_data_request_def
        bio_is_pureflush_or_discard_request_def bio_is_pureflush_request_def bio_is_discard_request_def)
  then show ?thesis
    using vs a b(1) z(3)
    by (intro exI [of _ vs]) (simp add: bio_copy_from_cache_def bio_bytes_def)
qed

lemma bio_slice_apply: "bio_ok bio \<Longrightarrow> length p = 4096 \<Longrightarrow> bio_slice bio (bio_apply bio p) = bio_bytes bio"
  using bio_okD(4) [of bio] length_bio_bytes [of bio]
  by (simp add: bio_slice_def bio_apply_def overwrite_def)

text \<open>A request for a whole block replaces the whole page.\<close>

lemma bio_apply_full:
  assumes "bio_ok bio" "bi_size bio = of_nat PAGE_SIZE" "length p = 4096"
  shows "bio_apply bio p = bio_bytes bio"
  using assms bio_okD(4) [of bio] length_bio_bytes [of bio]
  by (simp add: bio_apply_def overwrite_def PAGE_SIZE_def)

text \<open>Copying from the request, for any provider of the page.\<close>

lemma overwrite_append:
  "pos + length xs + length ys \<le> length p \<Longrightarrow>
   overwrite (pos + length xs) ys (overwrite pos xs p) = overwrite pos (xs @ ys) p"
  by (simp add: overwrite_def ac_simps)

context page_provider
begin

lemma copy_to_cache_loop:
  assumes "list_all bvec_ok vs" "ctx_in pm (Writing b p) (ctx, d)"
    and "pmem_context_data_vaddr dbg ctx = Some a"
    and "unat copy + unat off + sum_list (map (\<lambda>v. unat (bv_len v)) vs) \<le> 4096"
    and "bi_size bio = 4096 \<Longrightarrow> copy = 0" "unat copy < 4096"
  shows "\<exists>ctx' d'. bio_copy_to_cache_loop dbg bio a copy off vs (ctx, d) =
      Some (off + of_nat (sum_list (map (\<lambda>v. unat (bv_len v)) vs)), (ctx', d')) \<and>
    ctx_in pm (Writing b (overwrite (unat copy + unat off) (concat (map bvec_bytes vs)) p)) (ctx', d') \<and>
    pmem_context_data_vaddr dbg ctx' = Some a \<and> changed_in (data_region pm b) d d'"
  using assms
proof (induction vs arbitrary: off p ctx d)
  case Nil
  then show ?case by (simp add: overwrite_def)
next
  case (Cons v vs)
  let ?n = "sum_list (map (\<lambda>v. unat (bv_len v)) vs)"
  obtain mem where mem: "bv_page v = Own mem" "length mem = 4096"
    using Cons.prems(1) by (cases "bv_page v") (auto simp: bvec_ok_def)
  have v: "bvec_ok v" "unat copy + unat off + unat (bv_len v) \<le> 4096"
    using Cons.prems(1,4) by simp_all
  note seg = bvec_in_bio [OF v Cons.prems(5,6)]
  have len: "length (bvec_bytes v) = unat (bv_len v)" by (rule length_bvec_bytes [OF v(1)])
  have p: "length p = 4096" using page_access Cons.prems(2) by blast
  obtain ctx1 d1 where c1: "copy_to_page a (unat copy + unat off) (bvec_bytes v) (ctx, d) = Some (ctx1, d1)"
    "ctx_in pm (Writing b (overwrite (unat copy + unat off) (bvec_bytes v) p)) (ctx1, d1)"
    "pmem_context_data_vaddr dbg ctx1 = Some a" "changed_in (data_region pm b) d d1"
    using page_copy [OF Cons.prems(2,3)] v(2) len by metis
  obtain ctx2 d2 where c2: "bio_copy_to_cache_loop dbg bio a copy (off + bv_len v) vs (ctx1, d1) =
      Some (off + bv_len v + of_nat ?n, (ctx2, d2))"
    "ctx_in pm (Writing b (overwrite (unat copy + unat (off + bv_len v)) (concat (map bvec_bytes vs))
      (overwrite (unat copy + unat off) (bvec_bytes v) p))) (ctx2, d2)"
    "pmem_context_data_vaddr dbg ctx2 = Some a" "changed_in (data_region pm b) d1 d2"
    using Cons.IH [OF _ c1(2,3), of "off + bv_len v"] Cons.prems seg(2) by auto
  have l: "length (concat (map bvec_bytes vs)) = ?n" using Cons.prems(1) by (simp add: length_bvecs_bytes)
  have "overwrite (unat copy + unat (off + bv_len v)) (concat (map bvec_bytes vs))
      (overwrite (unat copy + unat off) (bvec_bytes v) p) =
      overwrite (unat copy + unat off) (concat (map bvec_bytes (v # vs))) p"
    using overwrite_append [of "unat copy + unat off" "bvec_bytes v" "concat (map bvec_bytes vs)" p]
      Cons.prems(4) len l p by (simp add: seg(2) add.assoc)
  moreover have "bio_copy_to_cache_loop dbg bio a copy off (v # vs) (ctx, d) =
      bio_copy_to_cache_loop dbg bio a copy (off + bv_len v) vs (ctx1, d1)"
    using v mem seg(1) c1(1) by (simp add: bvec_ok_def bvec_bytes.simps PAGE_SIZE_def)
  moreover have "changed_in (data_region pm b) d d2"
    using changed_in_trans [OF c1(4) c2(4)] by simp
  ultimately show ?case
    using c2 by (simp add: add.assoc)
qed

lemma copy_to_cache:
  assumes bio: "bio_ok bio" and s: "sector = bio_sector_to_cache_block_sector bio"
    and c: "ctx_in pm (Writing b p) (ctx, d)"
  shows "\<exists>ctx' d'. bio_copy_to_cache dbg sector bio (ctx, d) =
      Some ((ctx', d'), murmurhash3_128 (bio_apply bio p) PAGE_SIZE) \<and>
    ctx_in pm (Writing b (bio_apply bio p)) (ctx', d') \<and> changed_in (data_region pm b) d d'"
proof -
  note D = bio_okD [OF bio] and q = bio_copy_begin_ok [OF bio s] and z = bio_copy_sizes [OF bio]
  obtain a where a: "pmem_context_data_vaddr dbg ctx = Some a" using page_access c by blast
  obtain ctx' d' where c': "bio_copy_to_cache_loop dbg bio a (of_nat (bio_pos bio)) 0 (bi_io_vec bio) (ctx, d) =
      Some (bi_size bio, (ctx', d'))" "ctx_in pm (Writing b (bio_apply bio p)) (ctx', d')"
    "pmem_context_data_vaddr dbg ctx' = Some a" "changed_in (data_region pm b) d d'"
    using copy_to_cache_loop [OF D(1) c a, of "of_nat (bio_pos bio)" 0 bio] D z(1) q(2)
    by (auto simp: z(2) bio_apply_def bio_bytes_def)
  moreover have "page_at (ctx', d') a = Some (bio_apply bio p)"
    using page_access c'(2,3) by fastforce
  ultimately show ?thesis
    using a q(1) z(3) by (simp add: bio_copy_to_cache_def)
qed

end

end
