(* ===== verification/Seq_Bypass.thy ===== *)
theory Seq_Bypass
  imports Cache_Bio
begin

text \<open>
  Detection of sequential streams (\<open>bittern_cache_sequential.c\<close>): a table of the streams seen
  recently, in least-recently-used order, tells whether a request continues a stream that has
  become long enough to bypass the cache.
\<close>

section \<open>State\<close>

record seq_io_stream =
  last_sector :: sector_t
  sector_count :: u32
  stream_pid :: int
  timestamp_ms :: u64

text \<open>
  The streams are the elements of an array; \<open>streams_lru\<close> links them in the order of their last use.
  The linked list is the list of the indices of its elements in the order of the links.
\<close>

record seq_io_bypass =
  seq_io_count :: int
  non_seq_io_count :: int
  bypass_count :: int
  bypass_hit :: int
  bypass_threshold :: u32
  bypass_timeout :: u32
  bypass_enabled :: bool
  streams_count :: u32
  streams_count_max :: u32
  s_streams_len_sum :: u64
  s_streams_len_count :: u64
  s_streams_len_max :: u32
  ns_streams_len_sum :: u64
  ns_streams_len_count :: u64
  ns_streams_len_max :: u32
  streams_lru :: "nat list"
  streams_array :: "seq_io_stream list"
  lru_hit_depth_sum :: u64
  lru_hit_depth_count :: u64

definition SEQ_IO_TRACK_DEPTH :: nat where
  "SEQ_IO_TRACK_DEPTH = 32"

definition SEQ_IO_TIMEOUT_DEFAULT_MS :: u32 where
  "SEQ_IO_TIMEOUT_DEFAULT_MS = 5000"

definition KBYTES_TO_SECTORS :: "u32 \<Rightarrow> u32" where
  "KBYTES_TO_SECTORS kb = kb * 1024 div of_nat SECTOR_SIZE"

definition SEQ_IO_THRESHOLD_COUNT_READ_DEFAULT :: u32 where
  "SEQ_IO_THRESHOLD_COUNT_READ_DEFAULT = KBYTES_TO_SECTORS 128"

definition SEQ_IO_THRESHOLD_COUNT_WRITE_DEFAULT :: u32 where
  "SEQ_IO_THRESHOLD_COUNT_WRITE_DEFAULT = KBYTES_TO_SECTORS 8000"

text \<open>
  The operations of the linked list that are used: an element is unlinked and linked again at the
  head or at the tail, and a walk goes from an element to the one its link leads to.  The link of the
  last element leads back to the head of the list, where a walk ends.
\<close>

definition list_move_head :: "nat \<Rightarrow> nat list \<Rightarrow> nat list" where
  "list_move_head e xs = e # remove1 e xs"

definition list_move_tail :: "nat \<Rightarrow> nat list \<Rightarrow> nat list" where
  "list_move_tail e xs = remove1 e xs @ [e]"

fun list_next :: "nat \<Rightarrow> nat list \<Rightarrow> nat option" where
  "list_next e [] = None"
| "list_next e (x # xs) = (if x = e then (case xs of [] \<Rightarrow> None | y # _ \<Rightarrow> Some y) else list_next e xs)"

definition list_first :: "nat list \<Rightarrow> nat option" where
  "list_first xs = (case xs of [] \<Rightarrow> None | x # _ \<Rightarrow> Some x)"

definition free_stream :: "u64 \<Rightarrow> seq_io_stream" where
  "free_stream t = \<lparr> last_sector = - 1, sector_count = 0, stream_pid = - 1, timestamp_ms = t \<rparr>"

text \<open>
  Each element is linked at the head of the list.  \<open>timestamp_ms\<close> is not set here; the structure is
  zeroed when the cache is allocated.
\<close>

definition seq_bypass_init :: "u32 \<Rightarrow> seq_io_bypass" where
  "seq_bypass_init threshold =
     \<lparr> seq_io_count = 0, non_seq_io_count = 0, bypass_count = 0, bypass_hit = 0,
       bypass_threshold = threshold, bypass_timeout = SEQ_IO_TIMEOUT_DEFAULT_MS, bypass_enabled = True,
       streams_count = 0, streams_count_max = 0,
       s_streams_len_sum = 0, s_streams_len_count = 0, s_streams_len_max = 0,
       ns_streams_len_sum = 0, ns_streams_len_count = 0, ns_streams_len_max = 0,
       streams_lru = rev [0 ..< SEQ_IO_TRACK_DEPTH],
       streams_array = replicate SEQ_IO_TRACK_DEPTH (free_stream 0),
       lru_hit_depth_sum = 0, lru_hit_depth_count = 0 \<rparr>"

section \<open>Retiring idle streams\<close>

definition seq_stream_len_stats_update :: "seq_io_stream \<Rightarrow> seq_io_bypass \<Rightarrow> seq_io_bypass" where
  "seq_stream_len_stats_update s bsi =
     (if bypass_threshold bsi \<le> sector_count s then
        bsi\<lparr> s_streams_len_max := (if s_streams_len_max bsi < sector_count s then sector_count s
               else s_streams_len_max bsi),
             s_streams_len_count := s_streams_len_count bsi + 1,
             s_streams_len_sum := s_streams_len_sum bsi + ucast (sector_count s) \<rparr>
      else
        bsi\<lparr> ns_streams_len_max := (if ns_streams_len_max bsi < sector_count s then sector_count s
               else ns_streams_len_max bsi),
             ns_streams_len_count := ns_streams_len_count bsi + 1,
             ns_streams_len_sum := ns_streams_len_sum bsi + ucast (sector_count s) \<rparr>)"

text \<open>The stream is cleared and moved to the tail.\<close>

definition seq_bypass_timeout_stream :: "bool \<Rightarrow> nat \<Rightarrow> seq_io_bypass \<Rightarrow> seq_io_bypass option" where
  "seq_bypass_timeout_stream dbg seq_io bsi =
     do {
       let s = streams_array bsi ! seq_io;
       ASSERT dbg (last_sector s \<noteq> - 1);
       ASSERT dbg (streams_count bsi > 0);
       let bsi = bsi\<lparr> streams_count := streams_count bsi - 1 \<rparr>;
       let bsi = seq_stream_len_stats_update s bsi;
       let bsi = bsi\<lparr> streams_array := (streams_array bsi)[seq_io := free_stream (timestamp_ms s)] \<rparr>;
       Some (bsi\<lparr> streams_lru := list_move_tail seq_io (streams_lru bsi) \<rparr>)
     }"

text \<open>
  The walk over the list.  The next element is read from the link of the current one after the body
  has run, so a body that moves the element changes where the walk goes.  A walk that does not end
  has no result.
\<close>

partial_function (option) seq_bypass_timeout_loop ::
  "bool \<Rightarrow> u64 \<Rightarrow> nat option \<Rightarrow> seq_io_bypass \<Rightarrow> seq_io_bypass option" where
  "seq_bypass_timeout_loop dbg now entry bsi =
     (case entry of
        None \<Rightarrow> Some bsi
      | Some seq_io \<Rightarrow>
          do {
            let s = streams_array bsi ! seq_io;
            bsi \<leftarrow> (if last_sector s \<noteq> - 1 \<and> now - timestamp_ms s \<ge> ucast (bypass_timeout bsi)
                   then seq_bypass_timeout_stream dbg seq_io bsi else Some bsi);
            seq_bypass_timeout_loop dbg now (list_next seq_io (streams_lru bsi)) bsi
          })"

definition seq_bypass_timeout :: "bool \<Rightarrow> u64 \<Rightarrow> seq_io_bypass \<Rightarrow> seq_io_bypass option" where
  "seq_bypass_timeout dbg now bsi = seq_bypass_timeout_loop dbg now (list_first (streams_lru bsi)) bsi"

section \<open>Looking up a request\<close>

text \<open>A hit moves the stream to the head of the list.\<close>

definition seq_bypass_stream_hit :: "u64 \<Rightarrow> bio \<Rightarrow> nat \<Rightarrow> seq_io_bypass \<Rightarrow> bool \<times> seq_io_bypass" where
  "seq_bypass_stream_hit now bio seq_io bsi =
     (let s = streams_array bsi ! seq_io;
          s = s\<lparr> last_sector := last_sector s + ucast (bi_size bio div of_nat SECTOR_SIZE),
                 sector_count := sector_count s + bi_size bio div of_nat SECTOR_SIZE,
                 timestamp_ms := now \<rparr>
      in (bypass_threshold bsi \<le> sector_count s,
          bsi\<lparr> streams_array := (streams_array bsi)[seq_io := s],
               streams_lru := list_move_head seq_io (streams_lru bsi) \<rparr>))"

text \<open>The walk up to the element that matches, with the number of elements visited.\<close>

fun seq_bypass_find ::
  "int \<Rightarrow> sector_t \<Rightarrow> seq_io_stream list \<Rightarrow> nat \<Rightarrow> nat list \<Rightarrow> (nat \<times> nat) option" where
  "seq_bypass_find pid sector arr n [] = None"
| "seq_bypass_find pid sector arr n (seq_io # rest) =
     (let n = n + 1 in
      if last_sector (arr ! seq_io) = - 1 then seq_bypass_find pid sector arr n rest
      else if stream_pid (arr ! seq_io) \<noteq> pid then seq_bypass_find pid sector arr n rest
      else if sector = last_sector (arr ! seq_io) then Some (n, seq_io)
      else seq_bypass_find pid sector arr n rest)"

text \<open>
  \<open>seq_bypass_is_sequential\<close> for the statistics of the direction of the request; \<open>pid\<close> is the
  process that submits it.
\<close>

definition seq_bypass_check ::
  "int \<Rightarrow> u64 \<Rightarrow> bio \<Rightarrow> seq_io_bypass \<Rightarrow> bool \<times> seq_io_bypass" where
  "seq_bypass_check pid now bio bsi =
     (if \<not> bypass_enabled bsi then (False, bsi)
      else (case seq_bypass_find pid (bi_sector bio) (streams_array bsi) 0 (streams_lru bsi) of
        Some (n, seq_io) \<Rightarrow>
          seq_bypass_stream_hit now bio seq_io
            (bsi\<lparr> lru_hit_depth_sum := lru_hit_depth_sum bsi + of_nat n,
                  lru_hit_depth_count := lru_hit_depth_count bsi + 1 \<rparr>)
      | None \<Rightarrow>
          (let seq_io = last (streams_lru bsi);
               s = streams_array bsi ! seq_io;
               bsi = (if last_sector s = - 1 then
                        (let n = streams_count bsi + 1
                         in bsi\<lparr> streams_count := n, streams_count_max :=
                              (if streams_count_max bsi < n then n else streams_count_max bsi) \<rparr>)
                      else bsi);
               s = s\<lparr> last_sector := bi_sector bio + ucast (bi_size bio div of_nat SECTOR_SIZE),
                      sector_count := bi_size bio div of_nat SECTOR_SIZE,
                      stream_pid := pid, timestamp_ms := now \<rparr>
           in (False, bsi\<lparr> streams_array := (streams_array bsi)[seq_io := s],
                           streams_lru := list_move_head seq_io (streams_lru bsi) \<rparr>))))"

section \<open>The invariant of the table\<close>

definition live_streams :: "seq_io_stream list \<Rightarrow> nat" where
  "live_streams arr = length (filter (\<lambda>s. last_sector s \<noteq> - 1) arr)"

definition seq_inv :: "seq_io_bypass \<Rightarrow> bool" where
  "seq_inv bsi \<longleftrightarrow>
     length (streams_array bsi) = SEQ_IO_TRACK_DEPTH \<and> distinct (streams_lru bsi) \<and>
     set (streams_lru bsi) = {..< SEQ_IO_TRACK_DEPTH} \<and>
     unat (streams_count bsi) = live_streams (streams_array bsi)"

lemma seq_invD:
  assumes "seq_inv bsi"
  shows "length (streams_array bsi) = 32" "distinct (streams_lru bsi)" "set (streams_lru bsi) = {..< 32}"
    "unat (streams_count bsi) = live_streams (streams_array bsi)" "length (streams_lru bsi) = 32"
    "streams_lru bsi \<noteq> []" "last (streams_lru bsi) < 32"
proof -
  show D: "length (streams_array bsi) = 32" "distinct (streams_lru bsi)" "set (streams_lru bsi) = {..< 32}"
    "unat (streams_count bsi) = live_streams (streams_array bsi)"
    using assms by (simp_all add: seq_inv_def SEQ_IO_TRACK_DEPTH_def)
  show "length (streams_lru bsi) = 32" using distinct_card [OF D(2)] D(3) by simp
  then show "streams_lru bsi \<noteq> []" by auto
  then show "last (streams_lru bsi) < 32" using last_in_set D(3) by blast
qed

lemma list_moves [simp]:
  "distinct xs \<Longrightarrow> e \<in> set xs \<Longrightarrow> set (list_move_head e xs) = set xs"
  "distinct xs \<Longrightarrow> e \<in> set xs \<Longrightarrow> distinct (list_move_head e xs)"
  "distinct xs \<Longrightarrow> e \<in> set xs \<Longrightarrow> set (list_move_tail e xs) = set xs"
  "distinct xs \<Longrightarrow> e \<in> set xs \<Longrightarrow> distinct (list_move_tail e xs)"
  by (auto simp: list_move_head_def list_move_tail_def)

lemma list_next_append: "e \<notin> set xs \<Longrightarrow> list_next e (xs @ e # ys) = list_first ys"
  by (induction xs) (auto simp: list_first_def)

lemma live_streams_update:
  "i < length arr \<Longrightarrow> live_streams (arr[i := s]) + of_bool (last_sector (arr ! i) \<noteq> - 1) =
     live_streams arr + of_bool (last_sector s \<noteq> - 1)"
  by (subst (3) id_take_nth_drop [of i arr]) (simp_all add: upd_conv_take_nth_drop live_streams_def)

lemma live_streams_update_same [simp]:
  "i < length arr \<Longrightarrow> last_sector (arr ! i) \<noteq> - 1 \<Longrightarrow> last_sector s \<noteq> - 1 \<Longrightarrow>
   live_streams (arr[i := s]) = live_streams arr"
  using live_streams_update [of i arr s] by simp

lemma live_streams_le: "live_streams arr \<le> length arr"
  by (simp add: live_streams_def)

lemma seq_bypass_find_Some:
  "seq_bypass_find pid sector arr n es = Some (m, e) \<Longrightarrow>
   e \<in> set es \<and> last_sector (arr ! e) = sector \<and> stream_pid (arr ! e) = pid \<and> sector \<noteq> - 1"
  by (induction es arbitrary: n) (auto simp: Let_def split: if_splits)



text \<open>The sector after a request is a valid number, so a stream in use is never marked as free.\<close>

lemma bio_next_sector:
  assumes "bio_ok bio"
  shows "bi_sector bio + ucast (bi_size bio div of_nat SECTOR_SIZE) \<noteq> - 1"
    and "unat (bi_size bio div of_nat SECTOR_SIZE) = unat (bi_size bio) div 512"
proof -
  show u: "unat (bi_size bio div of_nat SECTOR_SIZE) = unat (bi_size bio) div 512"
    by (simp add: SECTOR_SIZE_def unat_div)
  have s: "unat (bi_sector bio) < 2 ^ 63"
    using bio_okD(5) [OF assms] by (simp add: is_sector_number_valid_unat)
  have n: "unat (bi_size bio) div 512 \<le> 8" using bio_okD(4) [OF assms] by linarith
  have "unat (bi_sector bio + ucast (bi_size bio div of_nat SECTOR_SIZE)) =
      unat (bi_sector bio) + unat (bi_size bio) div 512"
    using s n u take_bit_nat_eq_self [of "unat (bi_size bio) div 512" 64]
    by (subst unat_word_ariths(1)) (simp add: unsigned_ucast_eq)
  also have "\<dots> < 2 ^ 63 + 9" using s n by linarith
  finally show "bi_sector bio + ucast (bi_size bio div of_nat SECTOR_SIZE) \<noteq> - 1"
    by (auto simp: unsigned_minus_1_eq_mask mask_eq_exp_minus_1)
qed

text \<open>
  A request either continues a stream or takes over the last one in the list; in both cases one
  element is replaced and moved to the head.
\<close>

lemma seq_bypass_check_cases:
  fixes bio :: bio
  assumes inv: "seq_inv bsi" and on: "bypass_enabled bsi"
  defines "w \<equiv> bi_size bio div of_nat SECTOR_SIZE"
  obtains
    (Hit) n e where "seq_bypass_find pid (bi_sector bio) (streams_array bsi) 0 (streams_lru bsi) = Some (n, e)"
      "seq_bypass_check pid now bio bsi = (bypass_threshold bsi \<le> sector_count (streams_array bsi ! e) + w,
         bsi\<lparr> lru_hit_depth_sum := lru_hit_depth_sum bsi + of_nat n, lru_hit_depth_count := lru_hit_depth_count bsi + 1,
           streams_array := (streams_array bsi)[e := (streams_array bsi ! e)\<lparr> last_sector := bi_sector bio + ucast w,
             sector_count := sector_count (streams_array bsi ! e) + w, timestamp_ms := now \<rparr>],
           streams_lru := list_move_head e (streams_lru bsi) \<rparr>)"
      "e < 32" "last_sector (streams_array bsi ! e) = bi_sector bio" "bi_sector bio \<noteq> - 1"
      "stream_pid (streams_array bsi ! e) = pid"
  | (New) n m where "seq_bypass_find pid (bi_sector bio) (streams_array bsi) 0 (streams_lru bsi) = None"
      "n = (if last_sector (streams_array bsi ! last (streams_lru bsi)) = - 1 then streams_count bsi + 1 else streams_count bsi)"
      "seq_bypass_check pid now bio bsi = (False,
         bsi\<lparr> streams_count := n, streams_count_max := m,
           streams_array := (streams_array bsi)[last (streams_lru bsi) :=
             (streams_array bsi ! last (streams_lru bsi))\<lparr> last_sector := bi_sector bio + ucast w,
               sector_count := w, stream_pid := pid, timestamp_ms := now \<rparr>],
           streams_lru := list_move_head (last (streams_lru bsi)) (streams_lru bsi) \<rparr>)"
proof (cases "seq_bypass_find pid (bi_sector bio) (streams_array bsi) 0 (streams_lru bsi)")
  case None
  then show thesis
    by (intro New [where m = "if last_sector (streams_array bsi ! last (streams_lru bsi)) = - 1 \<and>
          streams_count_max bsi < streams_count bsi + 1 then streams_count bsi + 1 else streams_count_max bsi"])
      (auto simp: seq_bypass_check_def on w_def Let_def)
next
  case (Some r)
  obtain n e where r: "r = (n, e)" by (cases r)
  note f = seq_bypass_find_Some [OF Some [unfolded r]]
  with seq_invD(3) [OF inv] show thesis
    by (intro Hit [OF Some [unfolded r]])
      (auto simp: seq_bypass_check_def on Some r seq_bypass_stream_hit_def w_def Let_def)
qed

lemma seq_bypass_check_inv:
  assumes inv: "seq_inv bsi" and bio: "bio_ok bio"
  shows "seq_inv (snd (seq_bypass_check pid now bio bsi))"
proof (cases "bypass_enabled bsi")
  case True
  note D = seq_invD [OF inv] and nxt = bio_next_sector(1) [OF bio]
  show ?thesis
    using inv True
  proof (cases rule: seq_bypass_check_cases [where pid = pid and bio = bio and now = now])
    case (Hit n e)
    then show ?thesis
      using D nxt by (simp add: seq_inv_def SEQ_IO_TRACK_DEPTH_def)
  next
    case (New n m)
    let ?arr = "streams_array bsi" and ?e = "last (streams_lru bsi)"
    define s where "s = (?arr ! ?e)\<lparr> last_sector := bi_sector bio + ucast (bi_size bio div of_nat SECTOR_SIZE),
      sector_count := bi_size bio div of_nat SECTOR_SIZE, stream_pid := pid, timestamp_ms := now \<rparr>"
    have e: "?e < 32" "?e \<in> set (streams_lru bsi)" using D by simp_all
    have "last_sector s \<noteq> - 1" using nxt by (simp add: s_def)
    then have u: "live_streams (?arr[?e := s]) + of_bool (last_sector (?arr ! ?e) \<noteq> - 1) = Suc (live_streams ?arr)"
      using live_streams_update [of ?e ?arr s] D(1) e(1) by simp
    have "live_streams ?arr \<le> 32" using live_streams_le [of ?arr] D(1) by simp
    then have "unat (streams_count bsi + 1) = Suc (live_streams ?arr)"
      using D(4) by (subst unat_word_ariths(1)) simp
    then have "unat n = live_streams (?arr[?e := s])"
      using u D(4) New(2) by (cases "last_sector (?arr ! ?e) = - 1") simp_all
    then show ?thesis
      using D(1-3) e unfolding New(3) s_def [symmetric] seq_inv_def by (simp add: SEQ_IO_TRACK_DEPTH_def)
  qed
qed (simp add: seq_bypass_check_def inv)

lemma seq_stats_sel [simp]:
  "streams_lru (seq_stream_len_stats_update s bsi) = streams_lru bsi"
  "streams_array (seq_stream_len_stats_update s bsi) = streams_array bsi"
  "streams_count (seq_stream_len_stats_update s bsi) = streams_count bsi"
  "bypass_enabled (seq_stream_len_stats_update s bsi) = bypass_enabled bsi"
  "bypass_threshold (seq_stream_len_stats_update s bsi) = bypass_threshold bsi"
  "bypass_timeout (seq_stream_len_stats_update s bsi) = bypass_timeout bsi"
  by (simp_all add: seq_stream_len_stats_update_def)

definition expired :: "u64 \<Rightarrow> seq_io_bypass \<Rightarrow> nat \<Rightarrow> bool" where
  "expired now bsi e \<longleftrightarrow> last_sector (streams_array bsi ! e) \<noteq> - 1 \<and>
     ucast (bypass_timeout bsi) \<le> now - timestamp_ms (streams_array bsi ! e)"

lemma seq_bypass_timeout_stream_lru:
  "seq_bypass_timeout_stream dbg e bsi = Some bsi' \<Longrightarrow> streams_lru bsi' = list_move_tail e (streams_lru bsi)"
  by (auto simp: seq_bypass_timeout_stream_def Let_def bind_eq_Some_conv split: if_split_asm)

text \<open>
  The walk from an element on.  The first expired element is moved to the tail; its link then leads
  to the head of the list, and the walk is over.
\<close>

lemma seq_bypass_timeout_loop_eq:
  assumes "streams_lru bsi = xs @ ys" "distinct (streams_lru bsi)"
  shows "seq_bypass_timeout_loop dbg now (list_first ys) bsi =
     (case List.find (expired now bsi) ys of
        None \<Rightarrow> Some bsi | Some e \<Rightarrow> seq_bypass_timeout_stream dbg e bsi)"
  using assms
proof (induction ys arbitrary: xs)
  case Nil
  show ?case by (subst seq_bypass_timeout_loop.simps) (simp add: list_first_def)
next
  case (Cons e ys)
  have first: "list_first (e # ys) = Some e" by (simp add: list_first_def)
  show ?case
  proof (cases "expired now bsi e")
    case True
    show ?thesis
    proof (cases "seq_bypass_timeout_stream dbg e bsi")
      case None
      with True show ?thesis
        unfolding first by (subst seq_bypass_timeout_loop.simps) (simp add: expired_def)
    next
      case (Some bsi')
      have "e \<notin> set (remove1 e (streams_lru bsi))" using Cons.prems(2) by simp
      then have "list_next e (streams_lru bsi') = None"
        using list_next_append [of e _ "[]"] seq_bypass_timeout_stream_lru [OF Some]
        by (simp add: list_move_tail_def list_first_def)
      moreover have "seq_bypass_timeout_loop dbg now None bsi' = Some bsi'"
        by (subst seq_bypass_timeout_loop.simps) simp
      ultimately show ?thesis
        using True Some unfolding first by (subst seq_bypass_timeout_loop.simps) (simp add: expired_def)
    qed
  next
    case False
    have "list_next e (streams_lru bsi) = list_first ys"
      using Cons.prems by (simp add: list_next_append)
    moreover have "seq_bypass_timeout_loop dbg now (list_first ys) bsi =
        (case List.find (expired now bsi) ys of None \<Rightarrow> Some bsi | Some e \<Rightarrow> seq_bypass_timeout_stream dbg e bsi)"
      using Cons.prems by (intro Cons.IH [of "xs @ [e]"]) simp_all
    ultimately show ?thesis
      using False unfolding first by (subst seq_bypass_timeout_loop.simps) (auto simp: expired_def)
  qed
qed

lemma seq_bypass_timeout_eq:
  assumes "seq_inv bsi"
  shows "seq_bypass_timeout dbg now bsi =
     (case List.find (expired now bsi) (streams_lru bsi) of
        None \<Rightarrow> Some bsi | Some e \<Rightarrow> seq_bypass_timeout_stream dbg e bsi)"
  unfolding seq_bypass_timeout_def
  by (rule seq_bypass_timeout_loop_eq [of _ "[]"]) (use seq_invD(2) [OF assms] in simp_all)

definition retired :: "nat \<Rightarrow> seq_io_bypass \<Rightarrow> seq_io_bypass \<Rightarrow> bool" where
  "retired e bsi bsi' \<longleftrightarrow>
     streams_array bsi' = (streams_array bsi)[e := free_stream (timestamp_ms (streams_array bsi ! e))] \<and>
     streams_lru bsi' = list_move_tail e (streams_lru bsi) \<and> streams_count bsi' = streams_count bsi - 1 \<and>
     bypass_enabled bsi' = bypass_enabled bsi \<and> bypass_threshold bsi' = bypass_threshold bsi \<and>
     bypass_timeout bsi' = bypass_timeout bsi"

lemma seq_bypass_timeout_stream_ok:
  assumes inv: "seq_inv bsi" and e: "e < 32" "last_sector (streams_array bsi ! e) \<noteq> - 1"
  shows "\<exists>bsi'. seq_bypass_timeout_stream dbg e bsi = Some bsi' \<and> retired e bsi bsi'"
    and "retired e bsi bsi' \<Longrightarrow> seq_inv bsi'"
proof -
  note D = seq_invD [OF inv]
  note u = live_streams_update [of e "streams_array bsi"]
  have pos: "0 < unat (streams_count bsi)"
    using u [of "free_stream 0"] D(1,4) e by (simp add: free_stream_def)
  then have gt: "0 < streams_count bsi" by (simp add: word_less_nat_alt)
  with e show "\<exists>bsi'. seq_bypass_timeout_stream dbg e bsi = Some bsi' \<and> retired e bsi bsi'"
    by (simp add: seq_bypass_timeout_stream_def Let_def retired_def)
  have "unat (streams_count bsi - 1) = unat (streams_count bsi) - 1"
    using pos by (subst unat_minus_one) auto
  then show "retired e bsi bsi' \<Longrightarrow> seq_inv bsi'"
    using e D u [of "free_stream (timestamp_ms (streams_array bsi ! e))"]
    by (auto simp: retired_def seq_inv_def SEQ_IO_TRACK_DEPTH_def free_stream_def)
qed

lemma seq_bypass_timeout_cases:
  assumes inv: "seq_inv bsi"
  obtains
    (Idle) "seq_bypass_timeout dbg now bsi = Some bsi" "List.find (expired now bsi) (streams_lru bsi) = None"
  | (Retire) e bsi' where "seq_bypass_timeout dbg now bsi = Some bsi'" "retired e bsi bsi'" "seq_inv bsi'"
      "List.find (expired now bsi) (streams_lru bsi) = Some e" "expired now bsi e" "e < 32"
proof (cases "List.find (expired now bsi) (streams_lru bsi)")
  case None
  with inv show thesis by (intro Idle) (simp_all add: seq_bypass_timeout_eq)
next
  case (Some e)
  then have e: "expired now bsi e" "e < 32"
    using seq_invD(3) [OF inv] by (auto simp: find_Some_iff intro: nth_mem)
  from seq_bypass_timeout_stream_ok [OF inv e(2)] e(1) obtain bsi' where
    "seq_bypass_timeout_stream dbg e bsi = Some bsi'" "retired e bsi bsi'" "seq_inv bsi'"
    unfolding expired_def by blast
  with Some inv e show thesis by (intro Retire [where bsi' = bsi']) (simp_all add: seq_bypass_timeout_eq)
qed

section \<open>Properties\<close>

text \<open>Whatever the sequence of requests and of runs of the timer.\<close>

datatype seq_op = Request int u64 bio | Timer u64

fun seq_run :: "bool \<Rightarrow> seq_op list \<Rightarrow> seq_io_bypass \<Rightarrow> seq_io_bypass option" where
  "seq_run dbg [] bsi = Some bsi"
| "seq_run dbg (Request pid now bio # ops) bsi = seq_run dbg ops (snd (seq_bypass_check pid now bio bsi))"
| "seq_run dbg (Timer now # ops) bsi = do { bsi \<leftarrow> seq_bypass_timeout dbg now bsi; seq_run dbg ops bsi }"

fun seq_op_ok :: "seq_op \<Rightarrow> bool" where
  "seq_op_ok (Request pid now bio) = bio_ok bio"
| "seq_op_ok (Timer now) = True"

lemma seq_run_inv:
  "seq_inv bsi \<Longrightarrow> list_all seq_op_ok ops \<Longrightarrow> \<exists>bsi'. seq_run dbg ops bsi = Some bsi' \<and> seq_inv bsi'"
proof (induction ops arbitrary: bsi)
  case (Cons op ops)
  show ?case
  proof (cases op)
    case (Request pid now bio)
    with Cons show ?thesis by (simp add: seq_bypass_check_inv)
  next
    case (Timer now)
    with Cons show ?thesis by (cases rule: seq_bypass_timeout_cases [OF Cons.prems(1), of dbg now]) auto
  qed
qed simp

lemma seq_init_inv: "seq_inv (seq_bypass_init threshold)"
  by (auto simp: seq_inv_def seq_bypass_init_def live_streams_def free_stream_def)

text \<open>
  C28: The table of streams is well-formed at all times: each of its 32 entries is linked in the list
  exactly once, and the counter of streams is the number of entries in use, whatever requests
  arrive and whenever the timer runs; no assertion fails and every walk over the list ends.
\<close>

theorem seq_table_well_formed:
  assumes "list_all seq_op_ok ops"
  shows "\<exists>bsi. seq_run dbg ops (seq_bypass_init threshold) = Some bsi \<and>
    length (streams_array bsi) = 32 \<and> distinct (streams_lru bsi) \<and> set (streams_lru bsi) = {0 ..< 32} \<and>
    unat (streams_count bsi) = length (filter (\<lambda>s. last_sector s \<noteq> - 1) (streams_array bsi))"
  using seq_run_inv [OF seq_init_inv assms, of dbg threshold]
  by (auto simp: seq_inv_def live_streams_def SEQ_IO_TRACK_DEPTH_def lessThan_atLeast0)

definition example_bio :: "bio_dir \<Rightarrow> sector_t \<Rightarrow> bio" where
  "example_bio dir s =
     \<lparr> bi_dir = dir, bi_flush = False, bi_fua = False, bi_discard = False, bi_sector = s, bi_size = 4096,
       bi_io_vec = [\<lparr> bv_page = Own (replicate 4096 7), bv_len = 4096, bv_offset = 0 \<rparr>] \<rparr>"

lemma example_bio_ok: "unat s mod 8 = 0 \<Longrightarrow> unat s < 2 ^ 63 \<Longrightarrow> bio_ok (example_bio dir s)"
  by (simp add: bio_ok_def example_bio_def bvec_ok_def bio_pos_def is_sector_number_valid_unat
      bio_is_data_request_def bio_is_pureflush_or_discard_request_def bio_is_pureflush_request_def
      bio_is_discard_request_def)

theorem seq_table_well_formed_witness:
  "\<exists>bsi. seq_run True [Request 1 0 (example_bio READ 8), Timer 9000] (seq_bypass_init 256) = Some bsi \<and>
    length (streams_array bsi) = 32 \<and> distinct (streams_lru bsi) \<and> set (streams_lru bsi) = {0 ..< 32} \<and>
    unat (streams_count bsi) = length (filter (\<lambda>s. last_sector s \<noteq> - 1) (streams_array bsi))"
  by (rule seq_table_well_formed) (simp add: example_bio_ok)

text \<open>
  C29: One run of the timer retires at most one stream.  The walk over the list ends after the first
  stream, in the order of the list, that has expired: that one is cleared and moved to the tail, and
  every other stream stays in the table as it is, expired or not.
\<close>

theorem timeout_retires_one_stream:
  assumes "seq_inv bsi"
  shows "\<exists>bsi'. seq_bypass_timeout dbg now bsi = Some bsi' \<and>
    (case List.find (expired now bsi) (streams_lru bsi) of
       None \<Rightarrow> bsi' = bsi
     | Some e \<Rightarrow>
         streams_lru bsi' = remove1 e (streams_lru bsi) @ [e] \<and>
         last_sector (streams_array bsi' ! e) = - 1 \<and>
         (\<forall>e'. e' \<noteq> e \<longrightarrow> streams_array bsi' ! e' = streams_array bsi ! e'))"
  using assms
proof (cases rule: seq_bypass_timeout_cases [where dbg = dbg and now = now])
  case (Retire e bsi')
  then show ?thesis
    using seq_invD(1) [OF assms] by (auto simp: retired_def list_move_tail_def free_stream_def)
qed simp

theorem timeout_retires_one_stream_witness:
  "\<exists>bsi bsi'. seq_run True [Request 1 0 (example_bio READ 8), Request 2 0 (example_bio READ 800)]
      (seq_bypass_init 256) = Some bsi \<and>
    expired 9000 bsi 0 \<and> expired 9000 bsi 1 \<and> seq_bypass_timeout True 9000 bsi = Some bsi' \<and>
    last_sector (streams_array bsi' ! 1) = - 1 \<and> streams_array bsi' ! 0 = streams_array bsi ! 0 \<and>
    last (streams_lru bsi') = 1"
proof -
  let ?ops = "[Request 1 0 (example_bio READ 8), Request 2 0 (example_bio READ 800)]"
  have "list_all seq_op_ok ?ops" by (simp add: example_bio_ok)
  from seq_run_inv [OF seq_init_inv this, of True 256] obtain bsi where
    bsi: "seq_run True ?ops (seq_bypass_init 256) = Some bsi" "seq_inv bsi" by auto
  have lru: "streams_lru (seq_bypass_init 256) = [31, 30, 29, 28, 27, 26, 25, 24, 23, 22, 21, 20, 19, 18, 17, 16,
      15, 14, 13, 12, 11, 10, 9, 8, 7, 6, 5, 4, 3, 2, 1, 0]"
    by (simp add: seq_bypass_init_def SEQ_IO_TRACK_DEPTH_def upt_rec)
  have init: "streams_array (seq_bypass_init 256) = replicate 32 (free_stream 0)" "bypass_enabled (seq_bypass_init 256)"
    "bypass_timeout (seq_bypass_init 256) = 5000"
    by (simp_all add: seq_bypass_init_def SEQ_IO_TRACK_DEPTH_def SEQ_IO_TIMEOUT_DEFAULT_MS_def)
  have b: "take 2 (streams_lru bsi) = [1, 0]" "last_sector (streams_array bsi ! 0) = 16"
    "last_sector (streams_array bsi ! 1) = 808" "timestamp_ms (streams_array bsi ! 0) = 0"
    "timestamp_ms (streams_array bsi ! 1) = 0" "bypass_timeout bsi = 5000"
    using bsi(1) by (auto simp: seq_bypass_check_def lru init free_stream_def example_bio_def SECTOR_SIZE_def Let_def
        list_move_head_def nth_list_update)
  then have ex: "expired 9000 bsi 0" "expired 9000 bsi 1" by (simp_all add: expired_def)
  have "streams_lru bsi = [1, 0] @ drop 2 (streams_lru bsi)"
    using b(1) append_take_drop_id [of 2 "streams_lru bsi"] by simp
  then have "List.find (expired 9000 bsi) (streams_lru bsi) = Some 1" using ex by (metis append_Cons find.simps(2))
  with timeout_retires_one_stream [OF bsi(2), of True 9000] bsi(1) ex show ?thesis by auto
qed

section \<open>A stream is detected\<close>














end
