(* ===== verification/Cache_Work_Items.thy ===== *)
theory Cache_Work_Items
  imports Seq_Bypass
begin

unbundle bit_operations_syntax

text \<open>
  Work items (\<open>struct work_item\<close>), the rest of the state of a cache instance that requests work on,
  the deferred queues, and the requests to the cached device.
\<close>

section \<open>Counters\<close>

text \<open>The atomic counters of requests of \<open>struct bittern_cache\<close>, by the name of their field.\<close>

datatype req_counter =
    Bc_read_requests | Bc_write_requests
  | Bc_flush_requests | Bc_pure_flush_requests | Bc_discard_requests
  | Bc_pending_requests | Bc_pending_read_requests | Bc_pending_write_requests
  | Bc_pending_read_bypass_requests | Bc_pending_write_bypass_requests
  | Bc_pending_cached_device_requests | Bc_pending_writeback_requests
  | Bc_pending_invalidate_requests | Bc_deferred_requests | Bc_total_deferred_requests
  | Bc_highest_pending_requests | Bc_highest_pending_cached_device_requests
  | Bc_highest_pending_invalidate_requests | Bc_highest_deferred_requests
  | Bc_completed_requests | Bc_completed_read_requests | Bc_completed_write_requests
  | Bc_completed_invalidations | Bc_completed_writebacks
  | Bc_read_cached_device_requests | Bc_write_cached_device_requests
  | Bc_make_request_count | Bc_make_request_wq_count
  | Bc_total_read_hits | Bc_clean_read_hits | Bc_dirty_read_hits
  | Bc_total_read_misses | Bc_read_misses
  | Bc_total_write_hits | Bc_clean_write_hits | Bc_clean_write_hits_rmw
  | Bc_dirty_write_hits | Bc_dirty_write_hits_rmw
  | Bc_total_write_misses | Bc_clean_write_misses | Bc_clean_write_misses_rmw
  | Bc_dirty_write_misses | Bc_dirty_write_misses_rmw
  | Bc_read_hits_busy | Bc_write_hits_busy | Bc_read_misses_busy | Bc_write_misses_busy
  | Bc_writebacks | Bc_writebacks_clean | Bc_writebacks_invalid | Bc_writebacks_stalls
  | Bc_invalidations_writeback | Bc_invalidations_invalidator

section \<open>Work items\<close>

definition WI_FLAG_BIO_CLONED :: u32 where "WI_FLAG_BIO_CLONED = 0x20"
definition WI_FLAG_BIO_NOT_CLONED :: u32 where "WI_FLAG_BIO_NOT_CLONED = 0x40"
definition WI_FLAG_XID_NEW :: u32 where "WI_FLAG_XID_NEW = 0x100"
definition WI_FLAG_XID_USE_CACHE_BLOCK :: u32 where "WI_FLAG_XID_USE_CACHE_BLOCK = 0x200"

definition WI_FLAG_MASK :: u32 where
  "WI_FLAG_MASK = WI_FLAG_BIO_CLONED OR WI_FLAG_BIO_NOT_CLONED OR WI_FLAG_XID_NEW OR
     WI_FLAG_XID_USE_CACHE_BLOCK"

lemmas wi_flag_defs =
  WI_FLAG_MASK_def WI_FLAG_BIO_CLONED_def WI_FLAG_BIO_NOT_CLONED_def WI_FLAG_XID_NEW_def
  WI_FLAG_XID_USE_CACHE_BLOCK_def

text \<open>
  Pointers to blocks are block numbers, \<^term>\<open>None\<close> for \<open>NULL\<close>.  \<open>wi_pending_io\<close> tells whether the
  item is linked in \<open>bc_pending_requests_list\<close>.
\<close>

record work_item =
  wi_cache_block :: "nat option"
  wi_original_cache_block :: "nat option"
  wi_original_bio :: "bio option"
  wi_cloned_bio :: "bio option"
  wi_flags :: u32
  wi_io_xid :: u64
  wi_cache_mode_writeback :: int
  wi_bypass :: int
  wi_pending_io :: bool
  wi_pmem_ctx :: pmem_context

definition work_item_ok :: "work_item \<Rightarrow> bool" where
  "work_item_ok wi \<longleftrightarrow>
     wi_flags wi AND NOT WI_FLAG_MASK = 0 \<and>
     (wi_cache_mode_writeback wi = 1 \<or> wi_cache_mode_writeback wi = 0)"

definition is_work_item_mode_writeback :: "work_item \<Rightarrow> bool" where
  "is_work_item_mode_writeback wi \<longleftrightarrow> wi_cache_mode_writeback wi \<noteq> 0"

section \<open>The state of a cache instance\<close>

record deferred_queue =
  dq_list :: "bio list"
  dq_curr_count :: u32
  dq_requeue_count :: u32
  dq_max_count :: u32
  dq_no_work_count :: u32
  dq_work_count :: u32
  dq_tstamp :: u64

text \<open>
  \<open>m_dev\<close> is the persistent memory, \<open>m_cdev\<close> the cached device, a block device that is read and
  written in the same way.  \<open>m_defer_work\<close> tells whether the work of the deferred queues is queued.
  \<open>m_done\<close> is the list of the requests completed so far, with their results, in the order of the
  calls of \<open>bio_endio\<close>.
\<close>

record machine =
  m_bc :: bittern_cache
  m_pp :: papi_pages
  m_pa :: pmem_api
  m_dev :: pmem_dev
  m_cdev :: pmem_dev
  m_extra_checksum :: int
  m_count :: "req_counter \<Rightarrow> int"
  m_seq_read :: seq_io_bypass
  m_seq_write :: seq_io_bypass
  m_defer_busy :: deferred_queue
  m_defer_page :: deferred_queue
  m_defer_work :: bool
  m_done :: "(bio \<times> int) list"

abbreviation m_dbg :: "machine \<Rightarrow> bool" where
  "m_dbg m \<equiv> assert_on (m_bc m)"

abbreviation m_blk :: "machine \<Rightarrow> nat \<Rightarrow> cache_block" where
  "m_blk m \<equiv> bc_cache_blocks (m_bc m)"

definition atomic_inc :: "req_counter \<Rightarrow> machine \<Rightarrow> machine" where
  "atomic_inc c m = m\<lparr> m_count := (m_count m)(c := m_count m c + 1) \<rparr>"

definition atomic_dec :: "req_counter \<Rightarrow> machine \<Rightarrow> machine" where
  "atomic_dec c m = m\<lparr> m_count := (m_count m)(c := m_count m c - 1) \<rparr>"

definition atomic_set_if_higher :: "req_counter \<Rightarrow> int \<Rightarrow> machine \<Rightarrow> machine" where
  "atomic_set_if_higher c v m =
     (if m_count m c < v then m\<lparr> m_count := (m_count m)(c := v) \<rparr> else m)"

text \<open>\<open>val = atomic_inc_return(&c); atomic_set_if_higher(&h, val)\<close>\<close>

definition atomic_inc_highest :: "req_counter \<Rightarrow> req_counter \<Rightarrow> machine \<Rightarrow> machine" where
  "atomic_inc_highest c h m = (let m = atomic_inc c m in atomic_set_if_higher h (m_count m c) m)"

definition bio_endio :: "bio \<Rightarrow> int \<Rightarrow> machine \<Rightarrow> machine" where
  "bio_endio bio err m = m\<lparr> m_done := m_done m @ [(bio, err)] \<rparr>"

definition wakeup_deferred :: "machine \<Rightarrow> machine" where
  "wakeup_deferred m =
     (if dq_curr_count (m_defer_busy m) \<noteq> 0 \<or> dq_curr_count (m_defer_page m) \<noteq> 0
      then m\<lparr> m_defer_work := True \<rparr> else m)"

text \<open>Operations on the block lists and on the persistent memory, in the state of the instance.\<close>

definition ASSERT_WORK_ITEM :: "work_item \<Rightarrow> machine \<Rightarrow> unit option" where
  "ASSERT_WORK_ITEM wi m = ASSERT (m_dbg m) (work_item_ok wi)"

definition pmem_of :: "machine \<Rightarrow> work_item \<Rightarrow> pmem_state" where
  "pmem_of m wi = (wi_pmem_ctx wi, m_dev m)"

definition with_pmem :: "pmem_state \<Rightarrow> machine \<Rightarrow> work_item \<Rightarrow> machine \<times> work_item" where
  "with_pmem st m wi = (m\<lparr> m_dev := snd st \<rparr>, wi\<lparr> wi_pmem_ctx := fst st \<rparr>)"

section \<open>Allocating and freeing work items\<close>

definition work_item_flag_asserts :: "bool \<Rightarrow> u32 \<Rightarrow> unit option" where
  "work_item_flag_asserts dbg flags =
     do {
       ASSERT dbg (flags AND NOT WI_FLAG_MASK = 0);
       ASSERT dbg (flags AND WI_FLAG_BIO_CLONED \<noteq> 0 \<or> flags AND WI_FLAG_BIO_NOT_CLONED \<noteq> 0);
       ASSERT dbg (flags AND (WI_FLAG_BIO_CLONED OR WI_FLAG_BIO_NOT_CLONED) \<noteq>
         WI_FLAG_BIO_CLONED OR WI_FLAG_BIO_NOT_CLONED);
       ASSERT dbg (flags AND WI_FLAG_XID_NEW \<noteq> 0 \<or> flags AND WI_FLAG_XID_USE_CACHE_BLOCK \<noteq> 0);
       ASSERT dbg (flags AND (WI_FLAG_XID_NEW OR WI_FLAG_XID_USE_CACHE_BLOCK) \<noteq>
         WI_FLAG_XID_NEW OR WI_FLAG_XID_USE_CACHE_BLOCK)
     }"

definition ASSERT_CACHE_BLOCK_opt :: "nat option \<Rightarrow> bittern_cache \<Rightarrow> unit option" where
  "ASSERT_CACHE_BLOCK_opt ob bc = (case ob of None \<Rightarrow> Some () | Some b \<Rightarrow> ASSERT_CACHE_BLOCK b bc)"

text \<open>The allocator returns memory: its failure is the caller's \<open>M_ASSERT_FIXME(wi != NULL)\<close>.\<close>

definition work_item_allocate ::
  "nat option \<Rightarrow> bio option \<Rightarrow> u32 \<Rightarrow> machine \<Rightarrow> (work_item \<times> machine) option" where
  "work_item_allocate ob bio flags m =
     do {
       let dbg = m_dbg m;
       ASSERT_BITTERN_CACHE (m_bc m);
       ASSERT_CACHE_BLOCK_opt ob (m_bc m);
       work_item_flag_asserts dbg flags;
       (if flags AND WI_FLAG_BIO_CLONED \<noteq> 0 then ASSERT dbg (bio \<noteq> None)
        else do {
          ASSERT dbg (flags AND WI_FLAG_BIO_NOT_CLONED \<noteq> 0);
          ASSERT dbg (bio = None)
        });
       let bio = (if flags AND WI_FLAG_BIO_CLONED \<noteq> 0 then bio else None);
       let (xid, m) = (if flags AND WI_FLAG_XID_NEW \<noteq> 0
          then (let (x, bc) = cache_xid_inc (m_bc m) in (x, m\<lparr> m_bc := bc \<rparr>)) else (0, m));
       xid \<leftarrow> (if flags AND WI_FLAG_XID_USE_CACHE_BLOCK \<noteq> 0
          then (case ob of None \<Rightarrow> None | Some b \<Rightarrow> Some (bcb_xid (m_blk m b)))
          else Some xid);
       ASSERT dbg (xid \<noteq> 0);
       let wi = \<lparr> wi_cache_block = ob, wi_original_cache_block = None, wi_original_bio = bio,
         wi_cloned_bio = None, wi_flags = flags, wi_io_xid = xid, wi_cache_mode_writeback = 0,
         wi_bypass = 0, wi_pending_io = False, wi_pmem_ctx = pmem_context_initialize \<rparr>;
       ASSERT_WORK_ITEM wi m;
       Some (wi, m)
     }"

definition work_item_reallocate ::
  "nat option \<Rightarrow> work_item \<Rightarrow> bio option \<Rightarrow> u32 \<Rightarrow> machine \<Rightarrow> (work_item \<times> machine) option" where
  "work_item_reallocate ob wi bio flags m =
     do {
       let dbg = m_dbg m;
       ASSERT_BITTERN_CACHE (m_bc m);
       ASSERT_CACHE_BLOCK_opt ob (m_bc m);
       work_item_flag_asserts dbg flags;
       ASSERT_WORK_ITEM wi m;
       (if flags AND WI_FLAG_BIO_CLONED \<noteq> 0 then ASSERT dbg (bio \<noteq> None)
        else do {
          ASSERT dbg (flags AND WI_FLAG_BIO_NOT_CLONED \<noteq> 0);
          ASSERT dbg (bio = None)
        });
       let bio = (if flags AND WI_FLAG_BIO_CLONED \<noteq> 0 then bio else None);
       let wi = wi\<lparr> wi_cache_block := ob, wi_original_cache_block := None, wi_original_bio := bio,
         wi_flags := flags \<rparr>;
       (if flags AND WI_FLAG_XID_NEW \<noteq> 0 then ASSERT dbg (ob = None) else Some ());
       let (wi, m) = (if flags AND WI_FLAG_XID_NEW \<noteq> 0
          then (let (x, bc) = cache_xid_inc (m_bc m)
                in (wi\<lparr> wi_io_xid := x, wi_cache_block := None \<rparr>, m\<lparr> m_bc := bc \<rparr>))
          else (wi, m));
       wi \<leftarrow> (if flags AND WI_FLAG_XID_USE_CACHE_BLOCK \<noteq> 0
          then (case ob of None \<Rightarrow> None | Some b \<Rightarrow> Some (wi\<lparr> wi_io_xid := bcb_xid (m_blk m b) \<rparr>))
          else Some wi);
       ASSERT dbg (wi_io_xid wi \<noteq> 0);
       ASSERT dbg (\<not> wi_pending_io wi);
       ASSERT_WORK_ITEM wi m;
       Some (wi, m)
     }"

definition work_item_add_pending_io :: "work_item \<Rightarrow> work_item" where
  "work_item_add_pending_io wi = wi\<lparr> wi_pending_io := True \<rparr>"

definition work_item_del_pending_io :: "work_item \<Rightarrow> work_item" where
  "work_item_del_pending_io wi = wi\<lparr> wi_pending_io := False \<rparr>"

definition work_item_free :: "work_item \<Rightarrow> machine \<Rightarrow> unit option" where
  "work_item_free wi m =
     do {
       ASSERT_BITTERN_CACHE (m_bc m);
       ASSERT_WORK_ITEM wi m;
       let wi = work_item_del_pending_io wi;
       _ \<leftarrow> pmem_context_destroy (m_bc m) (wi_pmem_ctx wi);
       Some ()
     }"

text \<open>
  \<open>__cache_verify_hash_data\<close> and \<open>__cache_verify_hash_data_buffer\<close>: the data must have the hash
  that the descriptor of the block has.
\<close>

definition cache_verify_hash_data_ret :: "nat \<Rightarrow> uint128_t \<Rightarrow> machine \<Rightarrow> int" where
  "cache_verify_hash_data_ret b hash m = (if hash \<noteq> bcb_hash_data (m_blk m b) then 1 else 0)"

definition cache_verify_hash_data :: "nat \<Rightarrow> uint128_t \<Rightarrow> machine \<Rightarrow> unit option" where
  "cache_verify_hash_data b hash m = M_ASSERT (hash = bcb_hash_data (m_blk m b))"

definition cache_verify_hash_data_buffer :: "nat \<Rightarrow> u8 list \<Rightarrow> machine \<Rightarrow> unit option" where
  "cache_verify_hash_data_buffer b page m =
     cache_verify_hash_data b (murmurhash3_128 page PAGE_SIZE) m"

section \<open>What follows a step of a work item\<close>

text \<open>
  A handler of the state machine ends with one asynchronous operation, with a further call of the
  state machine, or with the end of the item.  What its last action was: the callback of the
  operation was called with an error number, a request was queued for the worker of the persistent
  memory or submitted to the cached device, or a work to submit it was queued.
\<close>

datatype sm_next =
    Callback int
  | Pmem_queued
  | Device_queued
  | Device_deferred bio_dir bool
  | Finished

type_synonym sm_result = "(machine \<times> work_item \<times> sm_next) option"

definition after_pmem :: "machine \<Rightarrow> work_item \<Rightarrow> (pmem_state \<times> int option) option \<Rightarrow> sm_result" where
  "after_pmem m wi r =
     do {
       (st, cb) \<leftarrow> r;
       let (m, wi) = with_pmem st m wi;
       Some (m, wi, case cb of None \<Rightarrow> Pmem_queued | Some err \<Rightarrow> Callback err)
     }"

section \<open>Requests to the cached device\<close>

text \<open>
  The page of the item is the only segment of the request.  Allocation of the request may fail,
  which is reported through the state machine.
\<close>

definition cached_dev_do_make_request ::
  "bool \<Rightarrow> work_item \<Rightarrow> bio_dir \<Rightarrow> bool \<Rightarrow> machine \<Rightarrow> sm_result" where
  "cached_dev_do_make_request alloc_ok wi dir set_original_bio m =
     do {
       ASSERT_BITTERN_CACHE (m_bc m);
       ASSERT_WORK_ITEM wi m;
       b \<leftarrow> wi_cache_block wi;
       ASSERT_CACHE_BLOCK b (m_bc m);
       if \<not> alloc_ok then Some (m, wi, Callback (- ENOMEM))
       else do {
         a \<leftarrow> pmem_context_data_vaddr (m_dbg m) (wi_pmem_ctx wi);
         let bio = \<lparr> bi_dir = dir, bi_flush = False, bi_fua = False, bi_discard = False,
           bi_sector = bcb_sector (m_blk m b), bi_size = of_nat PAGE_SIZE,
           bi_io_vec = [\<lparr> bv_page = Wi_page a, bv_len = of_nat PAGE_SIZE, bv_offset = 0 \<rparr>] \<rparr>;
         (if set_original_bio then ASSERT (m_dbg m) (wi_original_bio wi = None) else Some ());
         let wi = (if set_original_bio then wi\<lparr> wi_original_bio := Some bio \<rparr> else wi);
         let wi = wi\<lparr> wi_cloned_bio := Some bio \<rparr>;
         let m = atomic_inc Bc_make_request_count m;
         Some (m, wi, Device_queued)
       }
     }"

definition cached_dev_make_request_defer ::
  "work_item \<Rightarrow> bio_dir \<Rightarrow> bool \<Rightarrow> machine \<Rightarrow> sm_result" where
  "cached_dev_make_request_defer wi dir set_original_bio m =
     do {
       ASSERT_BITTERN_CACHE (m_bc m);
       let m = atomic_inc Bc_make_request_wq_count m;
       Some (m, wi, Device_deferred dir set_original_bio)
     }"

text \<open>
  The cached device reads the sectors of the request into its page or writes its page to them, and
  the request is completed.  With an error nothing is transferred.
\<close>

definition device_transfer :: "int \<Rightarrow> bio \<Rightarrow> machine \<Rightarrow> work_item \<Rightarrow> (machine \<times> work_item) option" where
  "device_transfer err bio m wi =
     (case map bv_page (bi_io_vec bio) of
        [Wi_page a] \<Rightarrow>
          (if err \<noteq> 0 then Some (m, wi)
           else if bi_dir bio = READ then
             do {
               st \<leftarrow> copy_to_page a 0
                 (dev_read (m_cdev m) (unat (bi_sector bio) * SECTOR_SIZE) PAGE_SIZE) (pmem_of m wi);
               Some (with_pmem st m wi)
             }
           else
             do {
               page \<leftarrow> page_at (pmem_of m wi) a;
               Some (m\<lparr> m_cdev := dev_write (m_cdev m) (unat (bi_sector bio) * SECTOR_SIZE) page \<rparr>, wi)
             })
      | _ \<Rightarrow> None)"

definition cached_dev_make_request_endio :: "work_item \<Rightarrow> bio \<Rightarrow> int \<Rightarrow> machine \<Rightarrow> sm_result" where
  "cached_dev_make_request_endio wi bio err m =
     do {
       let dbg = m_dbg m;
       b \<leftarrow> wi_cache_block wi;
       original_bio \<leftarrow> wi_original_bio wi;
       if bio = original_bio then
         do {
           M_ASSERT (wi_cloned_bio wi \<noteq> None);
           M_ASSERT (wi_original_bio wi = wi_cloned_bio wi);
           M_ASSERT (wi_flags wi AND WI_FLAG_BIO_NOT_CLONED \<noteq> 0);
           M_ASSERT (wi_flags wi AND WI_FLAG_BIO_CLONED = 0);
           Some (m, wi\<lparr> wi_original_bio := None, wi_cloned_bio := None \<rparr>, Callback err)
         }
       else
         do {
           ASSERT dbg (wi_flags wi AND WI_FLAG_BIO_CLONED \<noteq> 0);
           ASSERT dbg (bio_is_request_single_cache_block original_bio);
           ASSERT dbg (bcb_sector (m_blk m b) = bio_sector_to_cache_block_sector original_bio);
           M_ASSERT (wi_flags wi AND WI_FLAG_BIO_CLONED \<noteq> 0);
           M_ASSERT (wi_flags wi AND WI_FLAG_BIO_NOT_CLONED = 0);
           Some (m, wi\<lparr> wi_cloned_bio := None \<rparr>, Callback err)
         }
     }"

text \<open>The completion of the request of an item on the cached device.\<close>

definition cached_dev_complete :: "int \<Rightarrow> work_item \<Rightarrow> machine \<Rightarrow> sm_result" where
  "cached_dev_complete err wi m =
     do {
       bio \<leftarrow> wi_cloned_bio wi;
       (m, wi) \<leftarrow> device_transfer err bio m wi;
       cached_dev_make_request_endio wi bio err m
     }"

end
