(* ===== verification/Cache_State_Machine.thy ===== *)
theory Cache_State_Machine
  imports Cache_Work_Items
begin

unbundle bit_operations_syntax

text \<open>
  The state machine of a work item: one definition per handler of \<open>bittern_cache_sm_read.c\<close>,
  \<open>sm_write.c\<close>, \<open>sm_pwrite.c\<close>, \<open>sm_invalidate.c\<close> and \<open>sm_writeback.c\<close>, and the dispatch of
  \<open>cache_state_machine\<close>.  Traces, timers and the debugging table of hashes (\<open>cache_track_hash\<close>)
  are left out, as are the assertions on the interrupt context.
\<close>

section \<open>Helpers\<close>

definition on_bc :: "(bittern_cache \<Rightarrow> bittern_cache option) \<Rightarrow> machine \<Rightarrow> machine option" where
  "on_bc f m = do { bc \<leftarrow> f (m_bc m); Some (m\<lparr> m_bc := bc \<rparr>) }"

definition transition3 ::
  "nat \<Rightarrow> cache_transition \<Rightarrow> cache_state \<Rightarrow> cache_state \<Rightarrow> machine \<Rightarrow> machine option" where
  "transition3 b path s_from s_to = on_bc (\<lambda>bc. cache_state_transition3 bc b path s_from s_to)"

definition transition_final :: "nat \<Rightarrow> cache_state \<Rightarrow> machine \<Rightarrow> machine option" where
  "transition_final b s = on_bc (\<lambda>bc. cache_state_transition_final bc b TS_NONE s)"

definition put_update_age :: "nat \<Rightarrow> u32 \<Rightarrow> machine \<Rightarrow> machine option" where
  "put_update_age b now = on_bc (\<lambda>bc. cache_put_update_age bc b True now)"

definition set_hash_data :: "nat \<Rightarrow> uint128_t \<Rightarrow> machine \<Rightarrow> machine" where
  "set_hash_data b h m = m\<lparr> m_bc := upd_block (\<lambda>c. c\<lparr> bcb_hash_data := h \<rparr>) b (m_bc m) \<rparr>"

text \<open>The assertions of most handlers on the request of the item.\<close>

definition bio_asserts :: "nat \<Rightarrow> bio \<Rightarrow> machine \<Rightarrow> unit option" where
  "bio_asserts b bio m =
     do {
       ASSERT (m_dbg m) (bio_is_request_single_cache_block bio);
       ASSERT (m_dbg m) (bcb_sector (m_blk m b) = bio_sector_to_cache_block_sector bio)
     }"

definition bio_cloned_asserts :: "work_item \<Rightarrow> nat \<Rightarrow> bio \<Rightarrow> machine \<Rightarrow> unit option" where
  "bio_cloned_asserts wi b bio m =
     do {
       ASSERT (m_dbg m) (wi_flags wi AND WI_FLAG_BIO_CLONED \<noteq> 0);
       bio_asserts b bio m
     }"

text \<open>The assertions of the handlers that have no request.\<close>

definition no_bio_asserts :: "work_item \<Rightarrow> unit option" where
  "no_bio_asserts wi =
     do {
       M_ASSERT (wi_original_bio wi = None);
       M_ASSERT (wi_cloned_bio wi = None);
       M_ASSERT (wi_original_cache_block wi = None)
     }"

definition ASSERT_CACHE_BLOCK_ptr :: "nat option \<Rightarrow> bittern_cache \<Rightarrow> unit option" where
  "ASSERT_CACHE_BLOCK_ptr ob bc =
     (case ob of None \<Rightarrow> ASSERT (assert_on bc) False | Some b \<Rightarrow> ASSERT_CACHE_BLOCK b bc)"

definition original_in :: "cache_state list \<Rightarrow> work_item \<Rightarrow> machine \<Rightarrow> bool" where
  "original_in ss wi m \<longleftrightarrow>
     (case wi_original_cache_block wi of None \<Rightarrow> False | Some oc \<Rightarrow> bcb_state (m_blk m oc) \<in> set ss)"

definition original_sector :: "nat \<Rightarrow> work_item \<Rightarrow> machine \<Rightarrow> bool" where
  "original_sector b wi m \<longleftrightarrow>
     (case wi_original_cache_block wi of None \<Rightarrow> False
      | Some oc \<Rightarrow> bcb_sector (m_blk m oc) = bcb_sector (m_blk m b))"

text \<open>The counters of a request that is complete.\<close>

definition request_completed :: "bio \<Rightarrow> machine \<Rightarrow> machine" where
  "request_completed bio m =
     (let m = atomic_dec Bc_pending_requests m;
          m = (if bi_dir bio = WRITE
               then atomic_inc Bc_completed_write_requests (atomic_dec Bc_pending_write_requests m)
               else atomic_inc Bc_completed_read_requests (atomic_dec Bc_pending_read_requests m))
      in atomic_inc Bc_completed_requests m)"

definition device_request_begin :: "req_counter \<Rightarrow> machine \<Rightarrow> machine" where
  "device_request_begin c m =
     atomic_inc_highest Bc_pending_cached_device_requests Bc_highest_pending_cached_device_requests
       (atomic_inc c m)"

text \<open>The page of the item, and the copies between it and the request.\<close>

definition get_page_write :: "pmem_io \<Rightarrow> nat \<Rightarrow> machine \<Rightarrow> work_item \<Rightarrow> (machine \<times> work_item) option" where
  "get_page_write io b m wi =
     do {
       st \<leftarrow> pmem_data_get_page_write (m_pp m) io (m_pa m) (m_bc m) b (pmem_of m wi);
       Some (with_pmem st m wi)
     }"

definition put_page_read :: "nat \<Rightarrow> machine \<Rightarrow> work_item \<Rightarrow> (machine \<times> work_item) option" where
  "put_page_read b m wi =
     do {
       st \<leftarrow> pmem_data_put_page_read (m_pp m) (m_pa m) (m_bc m) b (pmem_of m wi);
       Some (with_pmem st m wi)
     }"

definition clone_read_to_write ::
  "pmem_io \<Rightarrow> nat \<Rightarrow> nat \<Rightarrow> machine \<Rightarrow> work_item \<Rightarrow> (machine \<times> work_item) option" where
  "clone_read_to_write io from to m wi =
     do {
       st \<leftarrow> pmem_data_clone_read_to_write (m_pp m) io (m_pa m) (m_bc m) from to (pmem_of m wi);
       Some (with_pmem st m wi)
     }"

text \<open>\<open>bio_copy_to_cache\<close> and the update of the hash of the block, which always follows it.\<close>

definition copy_to_cache_hash :: "nat \<Rightarrow> bio \<Rightarrow> machine \<Rightarrow> work_item \<Rightarrow> (machine \<times> work_item) option" where
  "copy_to_cache_hash b bio m wi =
     do {
       (st, hash) \<leftarrow> bio_copy_to_cache (m_dbg m) (bcb_sector (m_blk m b)) bio (pmem_of m wi);
       let (m, wi) = with_pmem st m wi;
       Some (set_hash_data b hash m, wi)
     }"

text \<open>
  With \<open>bc_enable_extra_checksum_check\<close>, the page that was read for a block is checked against the
  hash of the block.
\<close>

definition extra_checksum_check :: "nat \<Rightarrow> machine \<Rightarrow> work_item \<Rightarrow> unit option" where
  "extra_checksum_check b m wi =
     do {
       ASSERT (m_dbg m) (m_extra_checksum m = 0 \<or> m_extra_checksum m = 1);
       if m_extra_checksum m \<noteq> 0 then
         do {
           a \<leftarrow> pmem_context_data_vaddr (m_dbg m) (wi_pmem_ctx wi);
           page \<leftarrow> page_at (pmem_of m wi) a;
           cache_verify_hash_data_buffer b page m
         }
       else Some ()
     }"

text \<open>\<open>pmem_context_data_page\<close> and \<open>pmem_context_data_vaddr\<close> where the result is not used.\<close>

definition data_page_asserts :: "machine \<Rightarrow> work_item \<Rightarrow> unit option" where
  "data_page_asserts m wi =
     do {
       ASSERT (m_dbg m) (pmem_dbi_ok (dbi (wi_pmem_ctx wi)) 0);
       ASSERT (m_dbg m) (di_buffer (dbi (wi_pmem_ctx wi)) \<noteq> None)
     }"

section \<open>Read hits and read misses\<close>

definition sm_read_hit_copy_from_cache_start :: "pmem_io \<Rightarrow> work_item \<Rightarrow> machine \<Rightarrow> sm_result" where
  "sm_read_hit_copy_from_cache_start io wi m =
     do {
       let dbg = m_dbg m;
       b \<leftarrow> wi_cache_block wi;
       bio \<leftarrow> wi_original_bio wi;
       bio_cloned_asserts wi b bio m;
       ASSERT dbg (bcb_state (m_blk m b) = S_CLEAN_READ_HIT_CPF_CACHE_START \<or>
         bcb_state (m_blk m b) = S_DIRTY_READ_HIT_CPF_CACHE_START);
       ASSERT dbg (wi_original_cache_block wi = None);
       m \<leftarrow> (if bcb_state (m_blk m b) = S_CLEAN_READ_HIT_CPF_CACHE_START
         then transition3 b TS_READ_HIT_WTWB_CLEAN
           S_CLEAN_READ_HIT_CPF_CACHE_START S_CLEAN_READ_HIT_CPF_CACHE_END m
         else transition3 b TS_READ_HIT_WB_DIRTY
           S_DIRTY_READ_HIT_CPF_CACHE_START S_DIRTY_READ_HIT_CPF_CACHE_END m);
       after_pmem m wi (pmem_data_get_page_read (m_pp m) io (m_pa m) (m_bc m) b (pmem_of m wi))
     }"

definition sm_read_hit_copy_from_cache_end :: "u32 \<Rightarrow> work_item \<Rightarrow> int \<Rightarrow> machine \<Rightarrow> sm_result" where
  "sm_read_hit_copy_from_cache_end now wi err m =
     do {
       let dbg = m_dbg m;
       b \<leftarrow> wi_cache_block wi;
       let original_state = bcb_state (m_blk m b);
       bio \<leftarrow> wi_original_bio wi;
       M_ASSERT (err = 0);
       bio_cloned_asserts wi b bio m;
       ASSERT dbg (bcb_state (m_blk m b) = S_CLEAN_READ_HIT_CPF_CACHE_END \<or>
         bcb_state (m_blk m b) = S_DIRTY_READ_HIT_CPF_CACHE_END);
       ASSERT dbg (wi_original_cache_block wi = None);
       ASSERT dbg (m_extra_checksum m = 0 \<or> m_extra_checksum m = 1);
       (bio, hash) \<leftarrow> bio_copy_from_cache dbg (bcb_sector (m_blk m b)) bio (pmem_of m wi);
       (if m_extra_checksum m \<noteq> 0 then cache_verify_hash_data b hash m else Some ());
       (m, wi) \<leftarrow> put_page_read b m wi;
       ASSERT_WORK_ITEM wi m;
       ASSERT_BITTERN_CACHE (m_bc m);
       ASSERT_CACHE_BLOCK b (m_bc m);
       m \<leftarrow> (if bcb_state (m_blk m b) = S_DIRTY_READ_HIT_CPF_CACHE_END then transition_final b S_DIRTY m
         else do {
           ASSERT dbg (bcb_state (m_blk m b) = S_CLEAN_READ_HIT_CPF_CACHE_END);
           transition_final b S_CLEAN m
         });
       m \<leftarrow> put_update_age b now m;
       ASSERT dbg (original_state = S_CLEAN_READ_HIT_CPF_CACHE_END \<or>
         original_state = S_DIRTY_READ_HIT_CPF_CACHE_END);
       work_item_free wi m;
       let m = bio_endio bio 0 (wakeup_deferred (request_completed bio m));
       ASSERT_BITTERN_CACHE (m_bc m);
       Some (m, wi, Finished)
     }"

definition sm_read_miss_copy_from_device_start :: "pmem_io \<Rightarrow> work_item \<Rightarrow> machine \<Rightarrow> sm_result" where
  "sm_read_miss_copy_from_device_start io wi m =
     do {
       let dbg = m_dbg m;
       b \<leftarrow> wi_cache_block wi;
       bio \<leftarrow> wi_original_bio wi;
       bio_cloned_asserts wi b bio m;
       ASSERT dbg (bcb_state (m_blk m b) = S_CLEAN_READ_MISS_CPF_DEVICE_START);
       ASSERT dbg (wi_original_cache_block wi = None);
       (m, wi) \<leftarrow> get_page_write io b m wi;
       data_page_asserts m wi;
       let m = device_request_begin Bc_read_cached_device_requests m;
       ASSERT_BITTERN_CACHE (m_bc m);
       ASSERT_CACHE_BLOCK b (m_bc m);
       m \<leftarrow> transition3 b TS_READ_MISS_WTWB_CLEAN
         S_CLEAN_READ_MISS_CPF_DEVICE_START S_CLEAN_READ_MISS_CPF_DEVICE_END m;
       cached_dev_do_make_request (io_alloc_ok io) wi READ False m
     }"

definition sm_read_miss_copy_from_device_end :: "pmem_io \<Rightarrow> work_item \<Rightarrow> int \<Rightarrow> machine \<Rightarrow> sm_result" where
  "sm_read_miss_copy_from_device_end io wi err m =
     do {
       let dbg = m_dbg m;
       M_ASSERT (err = 0);
       b \<leftarrow> wi_cache_block wi;
       bio \<leftarrow> wi_original_bio wi;
       bio_cloned_asserts wi b bio m;
       ASSERT dbg (bcb_state (m_blk m b) = S_CLEAN_READ_MISS_CPF_DEVICE_END);
       ASSERT dbg (wi_original_cache_block wi = None);
       let m = atomic_dec Bc_pending_cached_device_requests m;
       (bio, hash) \<leftarrow> bio_copy_from_cache dbg (bcb_sector (m_blk m b)) bio (pmem_of m wi);
       let wi = wi\<lparr> wi_original_bio := Some bio \<rparr>;
       let m = set_hash_data b hash m;
       m \<leftarrow> transition3 b TS_READ_MISS_WTWB_CLEAN
         S_CLEAN_READ_MISS_CPF_DEVICE_END S_CLEAN_READ_MISS_CPT_CACHE_END m;
       after_pmem m wi (pmem_data_put_page_write (m_pp m) io (m_pa m) (m_bc m) b S_CLEAN (pmem_of m wi))
     }"

definition sm_read_miss_copy_to_cache_end :: "u32 \<Rightarrow> work_item \<Rightarrow> int \<Rightarrow> machine \<Rightarrow> sm_result" where
  "sm_read_miss_copy_to_cache_end now wi err m =
     do {
       let dbg = m_dbg m;
       M_ASSERT (err = 0);
       b \<leftarrow> wi_cache_block wi;
       bio \<leftarrow> wi_original_bio wi;
       bio_cloned_asserts wi b bio m;
       ASSERT dbg (bcb_state (m_blk m b) = S_CLEAN_READ_MISS_CPT_CACHE_END);
       ASSERT dbg (wi_original_cache_block wi = None);
       ASSERT_WORK_ITEM wi m;
       ASSERT_BITTERN_CACHE (m_bc m);
       ASSERT_CACHE_BLOCK b (m_bc m);
       m \<leftarrow> transition_final b S_CLEAN m;
       m \<leftarrow> put_update_age b now m;
       work_item_free wi m;
       let m = bio_endio bio 0 (wakeup_deferred (request_completed bio m));
       ASSERT_BITTERN_CACHE (m_bc m);
       Some (m, wi, Finished)
     }"

section \<open>Write misses, write-back mode\<close>

definition sm_dirty_write_miss_copy_to_cache_start :: "pmem_io \<Rightarrow> work_item \<Rightarrow> machine \<Rightarrow> sm_result" where
  "sm_dirty_write_miss_copy_to_cache_start io wi m =
     do {
       let dbg = m_dbg m;
       b \<leftarrow> wi_cache_block wi;
       bio \<leftarrow> wi_original_bio wi;
       ASSERT dbg (wi_original_cache_block wi = None);
       bio_asserts b bio m;
       ASSERT dbg (bcb_state (m_blk m b) = S_DIRTY_WRITE_MISS_CPT_CACHE_START);
       (m, wi) \<leftarrow> get_page_write io b m wi;
       (m, wi) \<leftarrow> copy_to_cache_hash b bio m wi;
       m \<leftarrow> transition3 b TS_WRITE_MISS_WB
         S_DIRTY_WRITE_MISS_CPT_CACHE_START S_DIRTY_WRITE_MISS_CPT_CACHE_END m;
       after_pmem m wi (pmem_data_put_page_write (m_pp m) io (m_pa m) (m_bc m) b S_DIRTY (pmem_of m wi))
     }"

definition sm_dirty_write_miss_copy_to_cache_end :: "u32 \<Rightarrow> work_item \<Rightarrow> int \<Rightarrow> machine \<Rightarrow> sm_result" where
  "sm_dirty_write_miss_copy_to_cache_end now wi err m =
     do {
       let dbg = m_dbg m;
       M_ASSERT (err = 0);
       b \<leftarrow> wi_cache_block wi;
       bio \<leftarrow> wi_original_bio wi;
       bio_cloned_asserts wi b bio m;
       ASSERT dbg (bcb_state (m_blk m b) = S_DIRTY_WRITE_MISS_CPT_CACHE_END);
       ASSERT dbg (wi_original_cache_block wi = None);
       ASSERT_BITTERN_CACHE (m_bc m);
       ASSERT_WORK_ITEM wi m;
       ASSERT_CACHE_BLOCK b (m_bc m);
       m \<leftarrow> transition_final b S_DIRTY m;
       m \<leftarrow> put_update_age b now m;
       work_item_free wi m;
       Some (bio_endio bio 0 (wakeup_deferred (request_completed bio m)), wi, Finished)
     }"

section \<open>Write misses and hits, write-through mode\<close>

definition sm_clean_pwrite_hit_copy_from_cache_start :: "pmem_io \<Rightarrow> work_item \<Rightarrow> machine \<Rightarrow> sm_result" where
  "sm_clean_pwrite_hit_copy_from_cache_start io wi m =
     do {
       let dbg = m_dbg m;
       b \<leftarrow> wi_cache_block wi;
       bio \<leftarrow> wi_original_bio wi;
       bio_cloned_asserts wi b bio m;
       ASSERT dbg (bcb_state (m_blk m b) = S_CLEAN_P_WRITE_HIT_CPF_O_CACHE_START);
       ASSERT dbg (original_in [S_CLEAN_INVALIDATE_START] wi m);
       ASSERT dbg (wi_original_cache_block wi \<noteq> None);
       ASSERT_CACHE_BLOCK b (m_bc m);
       ASSERT_CACHE_BLOCK_ptr (wi_original_cache_block wi) (m_bc m);
       m \<leftarrow> transition3 b TS_P_WRITE_HIT_WT
         S_CLEAN_P_WRITE_HIT_CPF_O_CACHE_START S_CLEAN_P_WRITE_HIT_CPT_DEVICE_START m;
       oc \<leftarrow> wi_original_cache_block wi;
       after_pmem m wi (pmem_data_get_page_read (m_pp m) io (m_pa m) (m_bc m) oc (pmem_of m wi))
     }"

definition sm_clean_write_miss_copy_to_device_start :: "pmem_io \<Rightarrow> work_item \<Rightarrow> machine \<Rightarrow> sm_result" where
  "sm_clean_write_miss_copy_to_device_start io wi m =
     do {
       let dbg = m_dbg m;
       ASSERT dbg (wi_flags wi AND WI_FLAG_BIO_CLONED \<noteq> 0);
       b \<leftarrow> wi_cache_block wi;
       bio \<leftarrow> wi_original_bio wi;
       bio_asserts b bio m;
       let s = bcb_state (m_blk m b);
       ASSERT dbg (s = S_CLEAN_WRITE_MISS_CPT_DEVICE_START \<or> s = S_CLEAN_WRITE_HIT_CPT_DEVICE_START \<or>
         s = S_CLEAN_P_WRITE_HIT_CPT_DEVICE_START);
       (if s \<noteq> S_CLEAN_WRITE_MISS_CPT_DEVICE_START
        then ASSERT dbg (wi_original_cache_block wi \<noteq> None) else Some ());
       (m, wi) \<leftarrow> (if s = S_CLEAN_P_WRITE_HIT_CPT_DEVICE_START then
           do {
             ASSERT dbg (original_in [S_CLEAN_INVALIDATE_START] wi m);
             oc \<leftarrow> wi_original_cache_block wi;
             data_page_asserts m wi;
             extra_checksum_check oc m wi;
             clone_read_to_write io oc b m wi
           }
         else
           do {
             ASSERT dbg (s = S_CLEAN_WRITE_MISS_CPT_DEVICE_START \<or> s = S_CLEAN_WRITE_HIT_CPT_DEVICE_START);
             get_page_write io b m wi
           });
       data_page_asserts m wi;
       (m, wi) \<leftarrow> copy_to_cache_hash b bio m wi;
       let m = device_request_begin Bc_write_cached_device_requests m;
       ASSERT_BITTERN_CACHE (m_bc m);
       ASSERT_CACHE_BLOCK b (m_bc m);
       ASSERT_WORK_ITEM wi m;
       if s = S_CLEAN_WRITE_MISS_CPT_DEVICE_START then
         do {
           m \<leftarrow> transition3 b TS_WRITE_MISS_WT
             S_CLEAN_WRITE_MISS_CPT_DEVICE_START S_CLEAN_WRITE_MISS_CPT_DEVICE_END m;
           cached_dev_do_make_request (io_alloc_ok io) wi WRITE False m
         }
       else if s = S_CLEAN_WRITE_HIT_CPT_DEVICE_START then
         do {
           m \<leftarrow> transition3 b TS_WRITE_HIT_WT
             S_CLEAN_WRITE_HIT_CPT_DEVICE_START S_CLEAN_WRITE_HIT_CPT_DEVICE_END m;
           cached_dev_do_make_request (io_alloc_ok io) wi WRITE False m
         }
       else
         do {
           ASSERT dbg (s = S_CLEAN_P_WRITE_HIT_CPT_DEVICE_START);
           m \<leftarrow> transition3 b TS_P_WRITE_HIT_WT
             S_CLEAN_P_WRITE_HIT_CPT_DEVICE_START S_CLEAN_P_WRITE_HIT_CPT_DEVICE_END m;
           cached_dev_make_request_defer wi WRITE False m
         }
     }"

definition sm_clean_write_miss_copy_to_device_end :: "pmem_io \<Rightarrow> work_item \<Rightarrow> int \<Rightarrow> machine \<Rightarrow> sm_result" where
  "sm_clean_write_miss_copy_to_device_end io wi err m =
     do {
       let dbg = m_dbg m;
       M_ASSERT (err = 0);
       b \<leftarrow> wi_cache_block wi;
       bio \<leftarrow> wi_original_bio wi;
       bio_cloned_asserts wi b bio m;
       let s = bcb_state (m_blk m b);
       ASSERT dbg (s = S_CLEAN_WRITE_MISS_CPT_DEVICE_END \<or> s = S_CLEAN_WRITE_HIT_CPT_DEVICE_END \<or>
         s = S_CLEAN_P_WRITE_HIT_CPT_DEVICE_END);
       (if s \<noteq> S_CLEAN_WRITE_MISS_CPT_DEVICE_END
        then ASSERT dbg (wi_original_cache_block wi \<noteq> None) else Some ());
       ASSERT_CACHE_BLOCK b (m_bc m);
       let m = atomic_dec Bc_pending_cached_device_requests m;
       m \<leftarrow> (if s = S_CLEAN_WRITE_MISS_CPT_DEVICE_END
         then transition3 b TS_WRITE_MISS_WT
           S_CLEAN_WRITE_MISS_CPT_DEVICE_END S_CLEAN_WRITE_MISS_CPT_CACHE_END m
         else if s = S_CLEAN_WRITE_HIT_CPT_DEVICE_END
         then transition3 b TS_WRITE_HIT_WT
           S_CLEAN_WRITE_HIT_CPT_DEVICE_END S_CLEAN_WRITE_HIT_CPT_CACHE_END m
         else do {
           ASSERT dbg (s = S_CLEAN_P_WRITE_HIT_CPT_DEVICE_END);
           transition3 b TS_P_WRITE_HIT_WT
             S_CLEAN_P_WRITE_HIT_CPT_DEVICE_END S_CLEAN_P_WRITE_HIT_CPT_CACHE_END m
         });
       after_pmem m wi (pmem_data_put_page_write (m_pp m) io (m_pa m) (m_bc m) b S_CLEAN (pmem_of m wi))
     }"

text \<open>
  After a write hit, the item is used to invalidate the block that was replaced; the end of this is
  shared by both modes.
\<close>

definition invalidate_original :: "nat option \<Rightarrow> work_item \<Rightarrow> machine \<Rightarrow> sm_result" where
  "invalidate_original oc wi m =
     do {
       (wi, m) \<leftarrow> work_item_reallocate oc wi None
         (WI_FLAG_BIO_NOT_CLONED OR WI_FLAG_XID_USE_CACHE_BLOCK) m;
       let m = m\<lparr> m_bc := upd_stats
         (\<lambda>st. st\<lparr> bc_invalidations_map := bc_invalidations_map st + 1 \<rparr>) (m_bc m) \<rparr>;
       let m = atomic_inc_highest Bc_pending_invalidate_requests Bc_highest_pending_invalidate_requests m;
       let wi = work_item_add_pending_io wi;
       ASSERT (m_dbg m) (wi_cache_block wi = oc);
       Some (m, wi, Callback 0)
     }"

definition sm_clean_write_miss_copy_to_cache_end :: "u32 \<Rightarrow> work_item \<Rightarrow> int \<Rightarrow> machine \<Rightarrow> sm_result" where
  "sm_clean_write_miss_copy_to_cache_end now wi err m =
     do {
       let dbg = m_dbg m;
       b \<leftarrow> wi_cache_block wi;
       let original_state = bcb_state (m_blk m b);
       let oc = wi_original_cache_block wi;
       M_ASSERT (err = 0);
       bio \<leftarrow> wi_original_bio wi;
       bio_cloned_asserts wi b bio m;
       ASSERT dbg (original_state = S_CLEAN_WRITE_MISS_CPT_CACHE_END \<or>
         original_state = S_CLEAN_WRITE_HIT_CPT_CACHE_END \<or>
         original_state = S_CLEAN_P_WRITE_HIT_CPT_CACHE_END);
       (if original_state \<noteq> S_CLEAN_WRITE_MISS_CPT_CACHE_END then ASSERT dbg (oc \<noteq> None) else Some ());
       ASSERT_CACHE_BLOCK b (m_bc m);
       ASSERT_CACHE_BLOCK_ptr oc (m_bc m);
       m \<leftarrow> transition_final b S_CLEAN m;
       m \<leftarrow> put_update_age b now m;
       let m = request_completed bio m;
       let wi = work_item_del_pending_io wi;
       let m = wakeup_deferred (bio_endio bio 0 m);
       if original_state = S_CLEAN_WRITE_MISS_CPT_CACHE_END then
         do {
           ASSERT dbg (oc = None);
           work_item_free wi m;
           Some (m, wi, Finished)
         }
       else
         do {
           ASSERT dbg (\<exists>oc' \<in> set_option oc. bcb_cache_transition (m_blk m oc') = TS_CLEAN_INVALIDATION_WTWB);
           ASSERT dbg (original_in [S_CLEAN_INVALIDATE_START] wi m);
           invalidate_original oc wi m
         }
     }"

section \<open>Write hits, write-back mode\<close>

definition sm_dirty_pwrite_hit_copy_from_cache_start :: "pmem_io \<Rightarrow> work_item \<Rightarrow> machine \<Rightarrow> sm_result" where
  "sm_dirty_pwrite_hit_copy_from_cache_start io wi m =
     do {
       let dbg = m_dbg m;
       b \<leftarrow> wi_cache_block wi;
       bio \<leftarrow> wi_original_bio wi;
       ASSERT dbg (wi_original_cache_block wi \<noteq> None);
       bio_cloned_asserts wi b bio m;
       let s = bcb_state (m_blk m b);
       ASSERT dbg (s = S_C2_DIRTY_P_WRITE_HIT_CPF_O_CACHE_START \<or> s = S_DIRTY_P_WRITE_HIT_CPF_O_CACHE_START);
       ASSERT_CACHE_BLOCK b (m_bc m);
       ASSERT_CACHE_BLOCK_ptr (wi_original_cache_block wi) (m_bc m);
       ASSERT dbg (original_in [S_CLEAN_INVALIDATE_START, S_DIRTY_INVALIDATE_START] wi m);
       ASSERT dbg (original_sector b wi m);
       m \<leftarrow> (if s = S_C2_DIRTY_P_WRITE_HIT_CPF_O_CACHE_START
         then transition3 b TS_P_WRITE_HIT_WB_C2_DIRTY
           S_C2_DIRTY_P_WRITE_HIT_CPF_O_CACHE_START S_C2_DIRTY_P_WRITE_HIT_CPT_CACHE_START m
         else transition3 b TS_P_WRITE_HIT_WB_DIRTY
           S_DIRTY_P_WRITE_HIT_CPF_O_CACHE_START S_DIRTY_P_WRITE_HIT_CPT_CACHE_START m);
       oc \<leftarrow> wi_original_cache_block wi;
       after_pmem m wi (pmem_data_get_page_read (m_pp m) io (m_pa m) (m_bc m) oc (pmem_of m wi))
     }"

definition sm_dirty_pwrite_hit_copy_to_cache_start ::
  "pmem_io \<Rightarrow> work_item \<Rightarrow> int \<Rightarrow> machine \<Rightarrow> sm_result" where
  "sm_dirty_pwrite_hit_copy_to_cache_start io wi err m =
     do {
       let dbg = m_dbg m;
       M_ASSERT (err = 0);
       b \<leftarrow> wi_cache_block wi;
       bio \<leftarrow> wi_original_bio wi;
       ASSERT dbg (wi_original_cache_block wi \<noteq> None);
       bio_cloned_asserts wi b bio m;
       let s = bcb_state (m_blk m b);
       ASSERT dbg (s = S_DIRTY_P_WRITE_HIT_CPT_CACHE_START \<or> s = S_C2_DIRTY_P_WRITE_HIT_CPT_CACHE_START);
       ASSERT_CACHE_BLOCK b (m_bc m);
       ASSERT_CACHE_BLOCK_ptr (wi_original_cache_block wi) (m_bc m);
       ASSERT dbg (original_in [S_DIRTY_INVALIDATE_START, S_CLEAN_INVALIDATE_START] wi m);
       ASSERT dbg (original_sector b wi m);
       (if s = S_DIRTY_P_WRITE_HIT_CPT_CACHE_START
        then ASSERT dbg (original_in [S_DIRTY_INVALIDATE_START] wi m)
        else ASSERT dbg (original_in [S_CLEAN_INVALIDATE_START] wi m));
       oc \<leftarrow> wi_original_cache_block wi;
       extra_checksum_check oc m wi;
       (m, wi) \<leftarrow> clone_read_to_write io oc b m wi;
       (m, wi) \<leftarrow> copy_to_cache_hash b bio m wi;
       m \<leftarrow> (if s = S_DIRTY_P_WRITE_HIT_CPT_CACHE_START
         then transition3 b TS_P_WRITE_HIT_WB_DIRTY
           S_DIRTY_P_WRITE_HIT_CPT_CACHE_START S_DIRTY_P_WRITE_HIT_CPT_CACHE_END m
         else do {
           ASSERT dbg (s = S_C2_DIRTY_P_WRITE_HIT_CPT_CACHE_START);
           transition3 b TS_P_WRITE_HIT_WB_C2_DIRTY
             S_C2_DIRTY_P_WRITE_HIT_CPT_CACHE_START S_C2_DIRTY_P_WRITE_HIT_CPT_CACHE_END m
         });
       after_pmem m wi (pmem_data_put_page_write (m_pp m) io (m_pa m) (m_bc m) b S_DIRTY (pmem_of m wi))
     }"

definition sm_dirty_write_hit_copy_to_cache_start :: "pmem_io \<Rightarrow> work_item \<Rightarrow> machine \<Rightarrow> sm_result" where
  "sm_dirty_write_hit_copy_to_cache_start io wi m =
     do {
       let dbg = m_dbg m;
       b \<leftarrow> wi_cache_block wi;
       bio \<leftarrow> wi_original_bio wi;
       ASSERT dbg (wi_original_cache_block wi \<noteq> None);
       bio_cloned_asserts wi b bio m;
       let s = bcb_state (m_blk m b);
       ASSERT dbg (s = S_DIRTY_WRITE_HIT_CPT_CACHE_START \<or> s = S_C2_DIRTY_WRITE_HIT_CPT_CACHE_START);
       ASSERT_CACHE_BLOCK b (m_bc m);
       ASSERT_CACHE_BLOCK_ptr (wi_original_cache_block wi) (m_bc m);
       ASSERT dbg (original_in [S_DIRTY_INVALIDATE_START, S_CLEAN_INVALIDATE_START] wi m);
       ASSERT dbg (original_sector b wi m);
       (if s = S_DIRTY_WRITE_HIT_CPT_CACHE_START
        then ASSERT dbg (original_in [S_DIRTY_INVALIDATE_START] wi m)
        else ASSERT dbg (original_in [S_CLEAN_INVALIDATE_START] wi m));
       (m, wi) \<leftarrow> get_page_write io b m wi;
       (m, wi) \<leftarrow> copy_to_cache_hash b bio m wi;
       m \<leftarrow> (if s = S_DIRTY_WRITE_HIT_CPT_CACHE_START
         then transition3 b TS_WRITE_HIT_WB_DIRTY
           S_DIRTY_WRITE_HIT_CPT_CACHE_START S_DIRTY_WRITE_HIT_CPT_CACHE_END m
         else do {
           ASSERT dbg (s = S_C2_DIRTY_WRITE_HIT_CPT_CACHE_START);
           transition3 b TS_WRITE_HIT_WB_C2_DIRTY
             S_C2_DIRTY_WRITE_HIT_CPT_CACHE_START S_C2_DIRTY_WRITE_HIT_CPT_CACHE_END m
         });
       after_pmem m wi (pmem_data_put_page_write (m_pp m) io (m_pa m) (m_bc m) b S_DIRTY (pmem_of m wi))
     }"

definition sm_dirty_write_hit_copy_to_cache_end :: "u32 \<Rightarrow> work_item \<Rightarrow> int \<Rightarrow> machine \<Rightarrow> sm_result" where
  "sm_dirty_write_hit_copy_to_cache_end now wi err m =
     do {
       let dbg = m_dbg m;
       M_ASSERT (err = 0);
       b \<leftarrow> wi_cache_block wi;
       let oc = wi_original_cache_block wi;
       bio \<leftarrow> wi_original_bio wi;
       ASSERT dbg (oc \<noteq> None);
       bio_cloned_asserts wi b bio m;
       let s = bcb_state (m_blk m b);
       ASSERT dbg (s = S_DIRTY_WRITE_HIT_CPT_CACHE_END \<or> s = S_C2_DIRTY_WRITE_HIT_CPT_CACHE_END \<or>
         s = S_DIRTY_P_WRITE_HIT_CPT_CACHE_END \<or> s = S_C2_DIRTY_P_WRITE_HIT_CPT_CACHE_END);
       ASSERT_CACHE_BLOCK b (m_bc m);
       ASSERT_CACHE_BLOCK_ptr oc (m_bc m);
       ASSERT dbg (original_in [S_DIRTY_INVALIDATE_START, S_CLEAN_INVALIDATE_START] wi m);
       ASSERT dbg (original_sector b wi m);
       m \<leftarrow> transition_final b S_DIRTY m;
       m \<leftarrow> put_update_age b now m;
       let m = request_completed bio m;
       let wi = work_item_del_pending_io wi;
       let m = wakeup_deferred (bio_endio bio 0 m);
       ASSERT dbg (\<exists>oc' \<in> set_option oc. bcb_cache_transition (m_blk m oc') = TS_CLEAN_INVALIDATION_WTWB \<or>
         bcb_cache_transition (m_blk m oc') = TS_DIRTY_INVALIDATION_WB);
       ASSERT dbg (original_in [S_CLEAN_INVALIDATE_START, S_DIRTY_INVALIDATE_START] wi m);
       invalidate_original oc wi m
     }"

section \<open>Partial write misses\<close>

definition sm_pwrite_miss_copy_from_device_start :: "pmem_io \<Rightarrow> work_item \<Rightarrow> machine \<Rightarrow> sm_result" where
  "sm_pwrite_miss_copy_from_device_start io wi m =
     do {
       let dbg = m_dbg m;
       b \<leftarrow> wi_cache_block wi;
       bio \<leftarrow> wi_original_bio wi;
       bio_cloned_asserts wi b bio m;
       let s = bcb_state (m_blk m b);
       ASSERT dbg (s = S_CLEAN_P_WRITE_MISS_CPF_DEVICE_START \<or> s = S_DIRTY_P_WRITE_MISS_CPF_DEVICE_START);
       ASSERT dbg (wi_original_cache_block wi = None);
       (m, wi) \<leftarrow> get_page_write io b m wi;
       data_page_asserts m wi;
       let m = device_request_begin Bc_read_cached_device_requests m;
       ASSERT_BITTERN_CACHE (m_bc m);
       ASSERT_CACHE_BLOCK b (m_bc m);
       m \<leftarrow> (if s = S_CLEAN_P_WRITE_MISS_CPF_DEVICE_START
         then transition3 b TS_P_WRITE_MISS_WT
           S_CLEAN_P_WRITE_MISS_CPF_DEVICE_START S_CLEAN_P_WRITE_MISS_CPF_DEVICE_END m
         else do {
           ASSERT dbg (s = S_DIRTY_P_WRITE_MISS_CPF_DEVICE_START);
           transition3 b TS_P_WRITE_MISS_WB
             S_DIRTY_P_WRITE_MISS_CPF_DEVICE_START S_DIRTY_P_WRITE_MISS_CPF_DEVICE_END m
         });
       cached_dev_do_make_request (io_alloc_ok io) wi READ False m
     }"

definition sm_pwrite_miss_copy_from_device_end :: "pmem_io \<Rightarrow> work_item \<Rightarrow> int \<Rightarrow> machine \<Rightarrow> sm_result" where
  "sm_pwrite_miss_copy_from_device_end io wi err m =
     do {
       let dbg = m_dbg m;
       M_ASSERT (err = 0);
       b \<leftarrow> wi_cache_block wi;
       bio \<leftarrow> wi_original_bio wi;
       bio_cloned_asserts wi b bio m;
       let s = bcb_state (m_blk m b);
       ASSERT dbg (s = S_CLEAN_P_WRITE_MISS_CPF_DEVICE_END \<or> s = S_DIRTY_P_WRITE_MISS_CPF_DEVICE_END);
       ASSERT dbg (wi_original_cache_block wi = None);
       data_page_asserts m wi;
       let m = atomic_dec Bc_pending_cached_device_requests m;
       (m, wi) \<leftarrow> copy_to_cache_hash b bio m wi;
       if s = S_CLEAN_P_WRITE_MISS_CPF_DEVICE_END then
         do {
           let m = device_request_begin Bc_write_cached_device_requests m;
           ASSERT_BITTERN_CACHE (m_bc m);
           ASSERT_CACHE_BLOCK b (m_bc m);
           ASSERT_WORK_ITEM wi m;
           m \<leftarrow> transition3 b TS_P_WRITE_MISS_WT
             S_CLEAN_P_WRITE_MISS_CPF_DEVICE_END S_CLEAN_P_WRITE_MISS_CPT_DEVICE_END m;
           cached_dev_do_make_request (io_alloc_ok io) wi WRITE False m
         }
       else
         do {
           m \<leftarrow> transition3 b TS_P_WRITE_MISS_WB
             S_DIRTY_P_WRITE_MISS_CPF_DEVICE_END S_DIRTY_P_WRITE_MISS_CPT_CACHE_END m;
           after_pmem m wi (pmem_data_put_page_write (m_pp m) io (m_pa m) (m_bc m) b S_DIRTY (pmem_of m wi))
         }
     }"

definition sm_pwrite_miss_copy_to_device_end :: "pmem_io \<Rightarrow> work_item \<Rightarrow> int \<Rightarrow> machine \<Rightarrow> sm_result" where
  "sm_pwrite_miss_copy_to_device_end io wi err m =
     do {
       let dbg = m_dbg m;
       M_ASSERT (err = 0);
       b \<leftarrow> wi_cache_block wi;
       bio \<leftarrow> wi_original_bio wi;
       bio_asserts b bio m;
       ASSERT dbg (bcb_state (m_blk m b) = S_CLEAN_P_WRITE_MISS_CPT_DEVICE_END);
       ASSERT dbg (wi_original_cache_block wi = None);
       let m = atomic_dec Bc_pending_cached_device_requests m;
       m \<leftarrow> transition3 b TS_P_WRITE_MISS_WB
         S_DIRTY_P_WRITE_MISS_CPF_DEVICE_END S_DIRTY_P_WRITE_MISS_CPT_CACHE_END m;
       after_pmem m wi (pmem_data_put_page_write (m_pp m) io (m_pa m) (m_bc m) b S_CLEAN (pmem_of m wi))
     }"

definition sm_pwrite_miss_copy_to_cache_end :: "u32 \<Rightarrow> work_item \<Rightarrow> int \<Rightarrow> machine \<Rightarrow> sm_result" where
  "sm_pwrite_miss_copy_to_cache_end now wi err m =
     do {
       let dbg = m_dbg m;
       b \<leftarrow> wi_cache_block wi;
       let original_state = bcb_state (m_blk m b);
       M_ASSERT (err = 0);
       bio \<leftarrow> wi_original_bio wi;
       bio_cloned_asserts wi b bio m;
       ASSERT dbg (original_state = S_CLEAN_P_WRITE_MISS_CPT_CACHE_END \<or>
         original_state = S_DIRTY_P_WRITE_MISS_CPT_CACHE_END);
       ASSERT dbg (wi_original_cache_block wi = None);
       ASSERT_CACHE_BLOCK b (m_bc m);
       m \<leftarrow> (if original_state = S_CLEAN_P_WRITE_MISS_CPT_CACHE_END then transition_final b S_CLEAN m
         else do {
           ASSERT dbg (original_state = S_DIRTY_P_WRITE_MISS_CPT_CACHE_END);
           transition_final b S_DIRTY m
         });
       m \<leftarrow> put_update_age b now m;
       ASSERT dbg (original_state = S_CLEAN_P_WRITE_MISS_CPT_CACHE_END \<or>
         original_state = S_DIRTY_P_WRITE_MISS_CPT_CACHE_END);
       work_item_free wi m;
       Some (bio_endio bio 0 (wakeup_deferred (request_completed bio m)), wi, Finished)
     }"

section \<open>Invalidation\<close>

definition sm_invalidate_start :: "pmem_io \<Rightarrow> work_item \<Rightarrow> machine \<Rightarrow> sm_result" where
  "sm_invalidate_start io wi m =
     do {
       let dbg = m_dbg m;
       b \<leftarrow> wi_cache_block wi;
       no_bio_asserts wi;
       let s = bcb_state (m_blk m b);
       ASSERT dbg (s = S_CLEAN_INVALIDATE_START \<or> s = S_DIRTY_INVALIDATE_START);
       ASSERT_BITTERN_CACHE (m_bc m);
       ASSERT_CACHE_BLOCK b (m_bc m);
       ASSERT_WORK_ITEM wi m;
       m \<leftarrow> (if s = S_CLEAN_INVALIDATE_START
         then transition3 b TS_CLEAN_INVALIDATION_WTWB S_CLEAN_INVALIDATE_START S_CLEAN_INVALIDATE_END m
         else transition3 b TS_DIRTY_INVALIDATION_WB S_DIRTY_INVALIDATE_START S_DIRTY_INVALIDATE_END m);
       after_pmem m wi (pmem_metadata_async_write (m_pp m) io (m_pa m) (m_bc m) b S_INVALID (pmem_of m wi))
     }"

text \<open>\<open>cache_move_to_invalid\<close> and \<open>cache_move_to_clean\<close> end with \<open>wakeup_deferred\<close>.\<close>

definition move_to_invalid :: "nat \<Rightarrow> bool \<Rightarrow> machine \<Rightarrow> machine option" where
  "move_to_invalid b is_dirty m =
     do { m \<leftarrow> on_bc (\<lambda>bc. cache_move_to_invalid bc b is_dirty) m; Some (wakeup_deferred m) }"

definition move_to_clean :: "nat \<Rightarrow> machine \<Rightarrow> machine option" where
  "move_to_clean b m =
     do { m \<leftarrow> on_bc (\<lambda>bc. cache_move_to_clean bc b) m; Some (wakeup_deferred m) }"

definition cache_invalidate_block_io_end :: "work_item \<Rightarrow> nat \<Rightarrow> machine \<Rightarrow> sm_result" where
  "cache_invalidate_block_io_end wi b m =
     do {
       let dbg = m_dbg m;
       ASSERT_BITTERN_CACHE (m_bc m);
       ASSERT_WORK_ITEM wi m;
       ASSERT_CACHE_BLOCK b (m_bc m);
       ASSERT dbg (wi_cache_block wi = Some b);
       ASSERT dbg (wi_original_bio wi = None);
       ASSERT dbg (wi_cloned_bio wi = None);
       ASSERT dbg (wi_io_xid wi \<noteq> 0);
       let s = bcb_state (m_blk m b);
       ASSERT dbg (s = S_CLEAN_INVALIDATE_END \<or> s = S_DIRTY_INVALIDATE_END);
       ASSERT dbg (is_sector_number_valid (bcb_sector (m_blk m b)));
       m \<leftarrow> move_to_invalid b (s = S_DIRTY_INVALIDATE_END) m;
       work_item_free wi m;
       let m = atomic_inc Bc_completed_requests m;
       let m = atomic_inc Bc_completed_invalidations m;
       let m = atomic_dec Bc_pending_invalidate_requests m;
       Some (wakeup_deferred m, wi, Finished)
     }"

definition sm_invalidate_end :: "work_item \<Rightarrow> int \<Rightarrow> machine \<Rightarrow> sm_result" where
  "sm_invalidate_end wi err m =
     do {
       M_ASSERT (err = 0);
       b \<leftarrow> wi_cache_block wi;
       no_bio_asserts wi;
       let s = bcb_state (m_blk m b);
       ASSERT (m_dbg m) (s = S_CLEAN_INVALIDATE_END \<or> s = S_DIRTY_INVALIDATE_END);
       cache_invalidate_block_io_end wi b m
     }"

section \<open>Write back\<close>

definition sm_writeback_copy_from_cache_start :: "pmem_io \<Rightarrow> work_item \<Rightarrow> machine \<Rightarrow> sm_result" where
  "sm_writeback_copy_from_cache_start io wi m =
     do {
       b \<leftarrow> wi_cache_block wi;
       no_bio_asserts wi;
       let s = bcb_state (m_blk m b);
       ASSERT (m_dbg m) (s = S_DIRTY_WRITEBACK_CPF_CACHE_START \<or> s = S_DIRTY_WRITEBACK_INV_CPF_CACHE_START);
       m \<leftarrow> (if s = S_DIRTY_WRITEBACK_CPF_CACHE_START
         then transition3 b TS_WRITEBACK_WB
           S_DIRTY_WRITEBACK_CPF_CACHE_START S_DIRTY_WRITEBACK_CPF_CACHE_END m
         else transition3 b TS_WRITEBACK_INV_WB
           S_DIRTY_WRITEBACK_INV_CPF_CACHE_START S_DIRTY_WRITEBACK_INV_CPF_CACHE_END m);
       after_pmem m wi (pmem_data_get_page_read (m_pp m) io (m_pa m) (m_bc m) b (pmem_of m wi))
     }"

definition sm_writeback_copy_from_cache_end :: "work_item \<Rightarrow> int \<Rightarrow> machine \<Rightarrow> sm_result" where
  "sm_writeback_copy_from_cache_end wi err m =
     do {
       M_ASSERT (err = 0);
       b \<leftarrow> wi_cache_block wi;
       no_bio_asserts wi;
       let s = bcb_state (m_blk m b);
       ASSERT (m_dbg m) (s = S_DIRTY_WRITEBACK_CPF_CACHE_END \<or> s = S_DIRTY_WRITEBACK_INV_CPF_CACHE_END);
       data_page_asserts m wi;
       extra_checksum_check b m wi;
       ASSERT_BITTERN_CACHE (m_bc m);
       ASSERT_CACHE_BLOCK b (m_bc m);
       ASSERT_WORK_ITEM wi m;
       m \<leftarrow> (if s = S_DIRTY_WRITEBACK_CPF_CACHE_END
         then transition3 b TS_WRITEBACK_WB
           S_DIRTY_WRITEBACK_CPF_CACHE_END S_DIRTY_WRITEBACK_CPT_DEVICE_END m
         else transition3 b TS_WRITEBACK_INV_WB
           S_DIRTY_WRITEBACK_INV_CPF_CACHE_END S_DIRTY_WRITEBACK_INV_CPT_DEVICE_END m);
       let m = device_request_begin Bc_write_cached_device_requests m;
       cached_dev_make_request_defer wi WRITE True m
     }"

definition sm_writeback_copy_to_device_end :: "pmem_io \<Rightarrow> work_item \<Rightarrow> int \<Rightarrow> machine \<Rightarrow> sm_result" where
  "sm_writeback_copy_to_device_end io wi err m =
     do {
       M_ASSERT (err = 0);
       b \<leftarrow> wi_cache_block wi;
       no_bio_asserts wi;
       let m = atomic_dec Bc_pending_cached_device_requests m;
       let s = bcb_state (m_blk m b);
       ASSERT (m_dbg m) (s = S_DIRTY_WRITEBACK_CPT_DEVICE_END \<or> s = S_DIRTY_WRITEBACK_INV_CPT_DEVICE_END);
       (m, wi) \<leftarrow> put_page_read b m wi;
       ASSERT_BITTERN_CACHE (m_bc m);
       ASSERT_CACHE_BLOCK b (m_bc m);
       ASSERT_WORK_ITEM wi m;
       let metadata_state = (if s = S_DIRTY_WRITEBACK_CPT_DEVICE_END then S_CLEAN else S_INVALID);
       m \<leftarrow> (if s = S_DIRTY_WRITEBACK_CPT_DEVICE_END
         then transition3 b TS_WRITEBACK_WB
           S_DIRTY_WRITEBACK_CPT_DEVICE_END S_DIRTY_WRITEBACK_UPD_METADATA_END m
         else transition3 b TS_WRITEBACK_INV_WB
           S_DIRTY_WRITEBACK_INV_CPT_DEVICE_END S_DIRTY_WRITEBACK_INV_UPD_METADATA_END m);
       after_pmem m wi
         (pmem_metadata_async_write (m_pp m) io (m_pa m) (m_bc m) b metadata_state (pmem_of m wi))
     }"

definition cache_bgwriter_io_end :: "work_item \<Rightarrow> nat \<Rightarrow> machine \<Rightarrow> sm_result" where
  "cache_bgwriter_io_end wi b m =
     do {
       let dbg = m_dbg m;
       ASSERT_BITTERN_CACHE (m_bc m);
       ASSERT_CACHE_BLOCK b (m_bc m);
       ASSERT_WORK_ITEM wi m;
       ASSERT dbg (wi_cache_block wi = Some b);
       ASSERT dbg (wi_original_bio wi = None);
       ASSERT dbg (wi_cloned_bio wi = None);
       ASSERT dbg (wi_io_xid wi \<noteq> 0);
       let s = bcb_state (m_blk m b);
       ASSERT dbg (s = S_DIRTY_WRITEBACK_UPD_METADATA_END \<or> s = S_DIRTY_WRITEBACK_INV_UPD_METADATA_END);
       ASSERT dbg (wi_flags wi AND WI_FLAG_BIO_NOT_CLONED \<noteq> 0);
       ASSERT dbg (cache_block_is_held (m_bc m) b);
       m \<leftarrow> (if s = S_DIRTY_WRITEBACK_INV_UPD_METADATA_END
         then do { m \<leftarrow> move_to_invalid b True m; Some (atomic_dec Bc_pending_invalidate_requests m) }
         else move_to_clean b m);
       work_item_free wi m;
       let m = atomic_dec Bc_pending_writeback_requests m;
       let m = atomic_dec Bc_pending_requests m;
       let m = atomic_inc Bc_completed_requests m;
       Some (atomic_inc Bc_completed_writebacks m, wi, Finished)
     }"

definition sm_writeback_update_metadata_end :: "work_item \<Rightarrow> int \<Rightarrow> machine \<Rightarrow> sm_result" where
  "sm_writeback_update_metadata_end wi err m =
     do {
       M_ASSERT (err = 0);
       b \<leftarrow> wi_cache_block wi;
       no_bio_asserts wi;
       let s = bcb_state (m_blk m b);
       ASSERT (m_dbg m) (s = S_DIRTY_WRITEBACK_UPD_METADATA_END \<or> s = S_DIRTY_WRITEBACK_INV_UPD_METADATA_END);
       cache_bgwriter_io_end wi b m
     }"

section \<open>The state machine\<close>

text \<open>The handler of a state; \<open>M_ASSERT(err == 0)\<close> comes before all of them.\<close>

definition sm_dispatch ::
  "cache_state \<Rightarrow> pmem_io \<Rightarrow> u32 \<Rightarrow> work_item \<Rightarrow> int \<Rightarrow> machine \<Rightarrow> sm_result" where
  "sm_dispatch s io now wi err m =
     (if s \<in> {S_CLEAN_READ_HIT_CPF_CACHE_START, S_DIRTY_READ_HIT_CPF_CACHE_START}
      then sm_read_hit_copy_from_cache_start io wi m
      else if s \<in> {S_CLEAN_READ_HIT_CPF_CACHE_END, S_DIRTY_READ_HIT_CPF_CACHE_END}
      then sm_read_hit_copy_from_cache_end now wi err m
      else if s = S_CLEAN_READ_MISS_CPF_DEVICE_START then sm_read_miss_copy_from_device_start io wi m
      else if s = S_CLEAN_READ_MISS_CPF_DEVICE_END then sm_read_miss_copy_from_device_end io wi err m
      else if s = S_CLEAN_READ_MISS_CPT_CACHE_END then sm_read_miss_copy_to_cache_end now wi err m
      else if s = S_DIRTY_WRITE_MISS_CPT_CACHE_START then sm_dirty_write_miss_copy_to_cache_start io wi m
      else if s = S_DIRTY_WRITE_MISS_CPT_CACHE_END then sm_dirty_write_miss_copy_to_cache_end now wi err m
      else if s \<in> {S_CLEAN_WRITE_MISS_CPT_DEVICE_START, S_CLEAN_WRITE_HIT_CPT_DEVICE_START,
                   S_CLEAN_P_WRITE_HIT_CPT_DEVICE_START}
      then sm_clean_write_miss_copy_to_device_start io wi m
      else if s \<in> {S_CLEAN_WRITE_MISS_CPT_DEVICE_END, S_CLEAN_WRITE_HIT_CPT_DEVICE_END,
                   S_CLEAN_P_WRITE_HIT_CPT_DEVICE_END}
      then sm_clean_write_miss_copy_to_device_end io wi err m
      else if s \<in> {S_CLEAN_WRITE_MISS_CPT_CACHE_END, S_CLEAN_WRITE_HIT_CPT_CACHE_END,
                   S_CLEAN_P_WRITE_HIT_CPT_CACHE_END}
      then sm_clean_write_miss_copy_to_cache_end now wi err m
      else if s = S_CLEAN_P_WRITE_HIT_CPF_O_CACHE_START then sm_clean_pwrite_hit_copy_from_cache_start io wi m
      else if s \<in> {S_C2_DIRTY_P_WRITE_HIT_CPF_O_CACHE_START, S_DIRTY_P_WRITE_HIT_CPF_O_CACHE_START}
      then sm_dirty_pwrite_hit_copy_from_cache_start io wi m
      else if s \<in> {S_DIRTY_WRITE_HIT_CPT_CACHE_START, S_C2_DIRTY_WRITE_HIT_CPT_CACHE_START}
      then sm_dirty_write_hit_copy_to_cache_start io wi m
      else if s \<in> {S_DIRTY_P_WRITE_HIT_CPT_CACHE_START, S_C2_DIRTY_P_WRITE_HIT_CPT_CACHE_START}
      then sm_dirty_pwrite_hit_copy_to_cache_start io wi err m
      else if s \<in> {S_DIRTY_WRITE_HIT_CPT_CACHE_END, S_C2_DIRTY_WRITE_HIT_CPT_CACHE_END,
                   S_DIRTY_P_WRITE_HIT_CPT_CACHE_END, S_C2_DIRTY_P_WRITE_HIT_CPT_CACHE_END}
      then sm_dirty_write_hit_copy_to_cache_end now wi err m
      else if s \<in> {S_CLEAN_P_WRITE_MISS_CPF_DEVICE_START, S_DIRTY_P_WRITE_MISS_CPF_DEVICE_START}
      then sm_pwrite_miss_copy_from_device_start io wi m
      else if s \<in> {S_CLEAN_P_WRITE_MISS_CPF_DEVICE_END, S_DIRTY_P_WRITE_MISS_CPF_DEVICE_END}
      then sm_pwrite_miss_copy_from_device_end io wi err m
      else if s = S_CLEAN_P_WRITE_MISS_CPT_DEVICE_END then sm_pwrite_miss_copy_to_device_end io wi err m
      else if s \<in> {S_CLEAN_P_WRITE_MISS_CPT_CACHE_END, S_DIRTY_P_WRITE_MISS_CPT_CACHE_END}
      then sm_pwrite_miss_copy_to_cache_end now wi err m
      else if s \<in> {S_DIRTY_WRITEBACK_CPF_CACHE_START, S_DIRTY_WRITEBACK_INV_CPF_CACHE_START}
      then sm_writeback_copy_from_cache_start io wi m
      else if s \<in> {S_DIRTY_WRITEBACK_CPF_CACHE_END, S_DIRTY_WRITEBACK_INV_CPF_CACHE_END}
      then sm_writeback_copy_from_cache_end wi err m
      else if s \<in> {S_DIRTY_WRITEBACK_CPT_DEVICE_END, S_DIRTY_WRITEBACK_INV_CPT_DEVICE_END}
      then sm_writeback_copy_to_device_end io wi err m
      else if s \<in> {S_DIRTY_WRITEBACK_UPD_METADATA_END, S_DIRTY_WRITEBACK_INV_UPD_METADATA_END}
      then sm_writeback_update_metadata_end wi err m
      else if s \<in> {S_CLEAN_INVALIDATE_START, S_DIRTY_INVALIDATE_START} then sm_invalidate_start io wi m
      else if s \<in> {S_CLEAN_INVALIDATE_END, S_DIRTY_INVALIDATE_END} then sm_invalidate_end wi err m
      else None)"

definition cache_state_machine :: "pmem_io \<Rightarrow> u32 \<Rightarrow> work_item \<Rightarrow> int \<Rightarrow> machine \<Rightarrow> sm_result" where
  "cache_state_machine io now wi err m =
     do {
       let dbg = m_dbg m;
       ASSERT_BITTERN_CACHE (m_bc m);
       ASSERT_WORK_ITEM wi m;
       b \<leftarrow> wi_cache_block wi;
       ASSERT_CACHE_BLOCK b (m_bc m);
       ASSERT dbg (bcb_xid (m_blk m b) \<noteq> 0);
       ASSERT dbg (bcb_xid (m_blk m b) = wi_io_xid wi);
       ASSERT dbg (is_sector_number_valid (bcb_sector (m_blk m b)));
       M_ASSERT (err = 0);
       sm_dispatch (bcb_state (m_blk m b)) io now wi err m
     }"

text \<open>
  One step of an item: the callback of its last operation, the worker of the persistent memory, the
  work that submits its request to the cached device, or the completion of that request.  \<open>io\<close> and
  \<open>err\<close> are the outcomes of the operations of the persistent memory and of the cached device.
\<close>

definition item_step :: "pmem_io \<Rightarrow> u32 \<Rightarrow> int \<Rightarrow> work_item \<Rightarrow> sm_next \<Rightarrow> machine \<Rightarrow> sm_result" where
  "item_step io now err wi nxt m =
     (case nxt of
        Callback e \<Rightarrow> cache_state_machine io now wi e m
      | Pmem_queued \<Rightarrow>
          after_pmem m wi (make_request_worker (m_pp m) io (m_pa m) (m_bc m) (pmem_of m wi))
      | Device_deferred dir set_original_bio \<Rightarrow>
          cached_dev_do_make_request (io_alloc_ok io) wi dir set_original_bio m
      | Device_queued \<Rightarrow> cached_dev_complete err wi m
      | Finished \<Rightarrow> None)"

end
