(* ===== verification/Cache_Map.thy ===== *)
theory Cache_Map
  imports Cache_State_Machine
begin

unbundle bit_operations_syntax

text \<open>
  How requests enter the state machine (\<open>bittern_cache_main.c\<close>): the start of each kind of path,
  the dispatch of a request on the result of the lookup, the deferred queues, and the starts of an
  invalidation and of a write back by the two threads.  A start ends with the first call of the
  state machine, \<^term>\<open>Callback 0\<close>.
\<close>

section \<open>Inputs\<close>

text \<open>
  What a start takes from the kernel: the time in seconds since boot, in milliseconds and in
  nanoseconds, the current process, a random number, and the page that is allocated for the context
  of the item, with its contents, if the allocation succeeds.
\<close>

record map_env =
  e_now :: u32
  e_ms :: u64
  e_ns :: u64
  e_pid :: int
  e_random :: u32
  e_page :: "u8 list option"

definition transition_initial ::
  "nat \<Rightarrow> cache_transition \<Rightarrow> cache_state \<Rightarrow> machine \<Rightarrow> machine option" where
  "transition_initial b path s = on_bc (\<lambda>bc. cache_state_transition_initial bc b path s)"

definition set_xid :: "nat \<Rightarrow> u64 \<Rightarrow> machine \<Rightarrow> machine" where
  "set_xid b x m = m\<lparr> m_bc := upd_block (\<lambda>c. c\<lparr> bcb_xid := x \<rparr>) b (m_bc m) \<rparr>"

text \<open>\<open>list_del_init\<close> and \<open>list_add_tail\<close> to the clean or to the dirty list.\<close>

definition move_tail_clean :: "nat \<Rightarrow> machine \<Rightarrow> machine" where
  "move_tail_clean b m = m\<lparr> m_bc := add_tail_clean b (list_del_entry_cleandirty b (m_bc m)) \<rparr>"

definition move_tail_dirty :: "nat \<Rightarrow> machine \<Rightarrow> machine" where
  "move_tail_dirty b m = m\<lparr> m_bc := add_tail_dirty b (list_del_entry_cleandirty b (m_bc m)) \<rparr>"

text \<open>The assertions at the start of every \<open>cache_handle_*\<close> function.\<close>

definition handle_asserts :: "nat \<Rightarrow> bio \<Rightarrow> work_item \<Rightarrow> machine \<Rightarrow> unit option" where
  "handle_asserts b bio wi m =
     do {
       let dbg = m_dbg m;
       ASSERT_BITTERN_CACHE (m_bc m);
       ASSERT_CACHE_BLOCK b (m_bc m);
       ASSERT_WORK_ITEM wi m;
       ASSERT dbg (wi_original_bio wi = Some bio);
       bio_asserts b bio m;
       ASSERT dbg (bcb_cache_transition (m_blk m b) = TS_NONE);
       ASSERT dbg (bcb_refcount (m_blk m b) > 0)
     }"

section \<open>Starts of the paths of requests\<close>

definition cache_handle_read_hit :: "work_item \<Rightarrow> nat \<Rightarrow> bio \<Rightarrow> machine \<Rightarrow> sm_result" where
  "cache_handle_read_hit wi b bio m =
     do {
       let dbg = m_dbg m;
       handle_asserts b bio wi m;
       ASSERT dbg (wi_cache_block wi = Some b);
       ASSERT dbg (bcb_state (m_blk m b) = S_CLEAN \<or> bcb_state (m_blk m b) = S_DIRTY);
       let m = set_xid b (wi_io_xid wi) m;
       ASSERT dbg (bi_dir bio = READ);
       let m = atomic_inc Bc_total_read_hits m;
       ASSERT dbg (wi_original_cache_block wi = None);
       let m = (if wi_bypass wi \<noteq> 0
         then m\<lparr> m_seq_read := (m_seq_read m)\<lparr> bypass_hit := bypass_hit (m_seq_read m) + 1 \<rparr> \<rparr> else m);
       m \<leftarrow> (if bcb_state (m_blk m b) = S_DIRTY then
           do {
             m \<leftarrow> transition_initial b TS_READ_HIT_WB_DIRTY S_DIRTY_READ_HIT_CPF_CACHE_START
               (atomic_inc Bc_dirty_read_hits m);
             Some (move_tail_dirty b m)
           }
         else
           do {
             m \<leftarrow> transition_initial b TS_READ_HIT_WTWB_CLEAN S_CLEAN_READ_HIT_CPF_CACHE_START
               (atomic_inc Bc_clean_read_hits m);
             Some (move_tail_clean b m)
           });
       ASSERT dbg (bcb_sector (m_blk m b) = bio_sector_to_cache_block_sector bio);
       Some (m, wi, Callback 0)
     }"

definition cache_handle_write_hit_wt ::
  "work_item \<Rightarrow> nat \<Rightarrow> bio \<Rightarrow> nat \<Rightarrow> machine \<Rightarrow> sm_result" where
  "cache_handle_write_hit_wt wi oc bio b m =
     do {
       let dbg = m_dbg m;
       handle_asserts oc bio wi m;
       ASSERT dbg (wi_cache_block wi = Some oc);
       ASSERT dbg (bcb_state (m_blk m oc) = S_CLEAN);
       ASSERT dbg (bi_dir bio = WRITE);
       ASSERT dbg (\<not> is_work_item_mode_writeback wi);
       let m = atomic_inc Bc_clean_write_hits (atomic_inc Bc_total_write_hits m);
       let m = set_xid b (wi_io_xid wi) m;
       let wi = wi\<lparr> wi_original_cache_block := Some oc, wi_cache_block := Some b \<rparr>;
       ASSERT dbg (bcb_state (m_blk m oc) = S_CLEAN);
       m \<leftarrow> transition_initial oc TS_CLEAN_INVALIDATION_WTWB S_CLEAN_INVALIDATE_START m;
       let m = move_tail_clean oc m;
       let m = set_xid b (wi_io_xid wi) m;
       m \<leftarrow> (if bi_size bio = of_nat PAGE_SIZE
         then transition_initial b TS_WRITE_HIT_WT S_CLEAN_WRITE_HIT_CPT_DEVICE_START m
         else transition_initial b TS_P_WRITE_HIT_WT S_CLEAN_P_WRITE_HIT_CPF_O_CACHE_START
           (atomic_inc Bc_clean_write_hits_rmw m));
       let m = move_tail_clean b m;
       ASSERT dbg (bcb_sector (m_blk m b) = bio_sector_to_cache_block_sector bio);
       Some (m, wi, Callback 0)
     }"

definition cache_handle_write_hit_wb ::
  "work_item \<Rightarrow> nat \<Rightarrow> bio \<Rightarrow> nat \<Rightarrow> machine \<Rightarrow> sm_result" where
  "cache_handle_write_hit_wb wi oc bio b m =
     do {
       let dbg = m_dbg m;
       ASSERT_BITTERN_CACHE (m_bc m);
       ASSERT_CACHE_BLOCK oc (m_bc m);
       ASSERT_WORK_ITEM wi m;
       ASSERT dbg (wi_original_bio wi = Some bio);
       bio_asserts oc bio m;
       ASSERT dbg (wi_cache_block wi = Some oc);
       ASSERT dbg (wi_cache_mode_writeback wi = 1);
       ASSERT dbg (bcb_state (m_blk m oc) = S_DIRTY \<or> bcb_state (m_blk m oc) = S_CLEAN);
       ASSERT dbg (bcb_sector (m_blk m b) = bcb_sector (m_blk m oc));
       ASSERT dbg (bcb_state (m_blk m b) = S_DIRTY_NO_DATA);
       ASSERT dbg (bcb_refcount (m_blk m b) > 0);
       let m = set_xid b (wi_io_xid wi) m;
       let wi = wi\<lparr> wi_original_cache_block := Some oc, wi_cache_block := Some b \<rparr>;
       let m = atomic_inc Bc_total_write_hits m;
       let clean = (bcb_state (m_blk m oc) = S_CLEAN);
       (if clean then Some () else ASSERT dbg (bcb_state (m_blk m oc) = S_DIRTY));
       let m = atomic_inc (if clean then Bc_clean_write_hits else Bc_dirty_write_hits) m;
       m \<leftarrow> (if clean then
           do {
             m \<leftarrow> transition_initial oc TS_CLEAN_INVALIDATION_WTWB S_CLEAN_INVALIDATE_START m;
             Some (move_tail_clean oc m)
           }
         else
           do {
             m \<leftarrow> transition_initial oc TS_DIRTY_INVALIDATION_WB S_DIRTY_INVALIDATE_START m;
             Some (move_tail_dirty oc m)
           });
       let m = set_xid b (wi_io_xid wi) m;
       m \<leftarrow> (if bi_size bio = of_nat PAGE_SIZE then
           (if clean
            then transition_initial b TS_WRITE_HIT_WB_C2_DIRTY S_C2_DIRTY_WRITE_HIT_CPT_CACHE_START m
            else transition_initial b TS_WRITE_HIT_WB_DIRTY S_DIRTY_WRITE_HIT_CPT_CACHE_START m)
         else
           (let m = atomic_inc Bc_dirty_write_hits_rmw m
            in if clean
            then transition_initial b TS_P_WRITE_HIT_WB_C2_DIRTY S_C2_DIRTY_P_WRITE_HIT_CPF_O_CACHE_START m
            else transition_initial b TS_P_WRITE_HIT_WB_DIRTY S_DIRTY_P_WRITE_HIT_CPF_O_CACHE_START m));
       let m = move_tail_dirty b m;
       ASSERT dbg (bcb_sector (m_blk m b) = bio_sector_to_cache_block_sector bio);
       ASSERT dbg (wi_cache_block wi = Some b);
       Some (m, wi, Callback 0)
     }"

definition cache_handle_read_miss :: "work_item \<Rightarrow> bio \<Rightarrow> nat \<Rightarrow> machine \<Rightarrow> sm_result" where
  "cache_handle_read_miss wi bio b m =
     do {
       let dbg = m_dbg m;
       handle_asserts b bio wi m;
       ASSERT dbg (wi_bypass wi = 0);
       ASSERT dbg (bcb_state (m_blk m b) = S_CLEAN_NO_DATA \<or> bcb_state (m_blk m b) = S_DIRTY_NO_DATA);
       ASSERT dbg (wi_original_cache_block wi = None);
       ASSERT dbg (bi_dir bio = READ);
       let m = set_xid b (wi_io_xid wi) m;
       let wi = wi\<lparr> wi_cache_block := Some b \<rparr>;
       ASSERT dbg (bcb_state (m_blk m b) = S_CLEAN_NO_DATA);
       let m = atomic_inc Bc_read_misses (atomic_inc Bc_total_read_misses m);
       m \<leftarrow> transition_initial b TS_READ_MISS_WTWB_CLEAN S_CLEAN_READ_MISS_CPF_DEVICE_START m;
       let m = move_tail_clean b m;
       ASSERT dbg (bcb_sector (m_blk m b) = bio_sector_to_cache_block_sector bio);
       Some (m, wi, Callback 0)
     }"

definition cache_handle_write_miss_wb :: "work_item \<Rightarrow> bio \<Rightarrow> nat \<Rightarrow> machine \<Rightarrow> sm_result" where
  "cache_handle_write_miss_wb wi bio b m =
     do {
       let dbg = m_dbg m;
       let partial_page = (\<not> bio_is_request_cache_block bio);
       handle_asserts b bio wi m;
       ASSERT dbg (wi_bypass wi = 0);
       ASSERT dbg (bcb_state (m_blk m b) = S_DIRTY_NO_DATA);
       ASSERT dbg (is_work_item_mode_writeback wi);
       ASSERT dbg (wi_original_cache_block wi = None);
       ASSERT dbg (bi_dir bio = WRITE);
       let m = set_xid b (wi_io_xid wi) m;
       let wi = wi\<lparr> wi_cache_block := Some b \<rparr>;
       let m = atomic_inc Bc_dirty_write_misses (atomic_inc Bc_total_write_misses m);
       m \<leftarrow> (if partial_page
         then transition_initial b TS_P_WRITE_MISS_WB S_DIRTY_P_WRITE_MISS_CPF_DEVICE_START
           (atomic_inc Bc_dirty_write_misses_rmw m)
         else transition_initial b TS_WRITE_MISS_WB S_DIRTY_WRITE_MISS_CPT_CACHE_START m);
       let m = move_tail_dirty b m;
       ASSERT dbg (bcb_sector (m_blk m b) = bio_sector_to_cache_block_sector bio);
       Some (m, wi, Callback 0)
     }"

definition cache_handle_write_miss_wt :: "work_item \<Rightarrow> bio \<Rightarrow> nat \<Rightarrow> machine \<Rightarrow> sm_result" where
  "cache_handle_write_miss_wt wi bio b m =
     do {
       let dbg = m_dbg m;
       let partial_page = (\<not> bio_is_request_cache_block bio);
       handle_asserts b bio wi m;
       ASSERT dbg (wi_bypass wi = 0);
       ASSERT dbg (bcb_state (m_blk m b) = S_CLEAN_NO_DATA);
       ASSERT dbg (\<not> is_work_item_mode_writeback wi);
       ASSERT dbg (wi_original_cache_block wi = None);
       ASSERT dbg (bi_dir bio = WRITE);
       let m = set_xid b (wi_io_xid wi) m;
       let wi = wi\<lparr> wi_cache_block := Some b \<rparr>;
       let m = atomic_inc Bc_clean_write_misses (atomic_inc Bc_total_write_misses m);
       m \<leftarrow> (if partial_page
         then transition_initial b TS_P_WRITE_MISS_WT S_CLEAN_P_WRITE_MISS_CPF_DEVICE_START
           (atomic_inc Bc_clean_write_misses_rmw m)
         else transition_initial b TS_WRITE_MISS_WT S_CLEAN_WRITE_MISS_CPT_DEVICE_START m);
       let m = move_tail_clean b m;
       ASSERT dbg (bcb_sector (m_blk m b) = bio_sector_to_cache_block_sector bio);
       Some (m, wi, Callback 0)
     }"

section \<open>Deferred queues\<close>

datatype defer_queue = Defer_busy | Defer_page

fun the_queue :: "defer_queue \<Rightarrow> machine \<Rightarrow> deferred_queue" where
  "the_queue Defer_busy m = m_defer_busy m"
| "the_queue Defer_page m = m_defer_page m"

fun upd_queue :: "(deferred_queue \<Rightarrow> deferred_queue) \<Rightarrow> defer_queue \<Rightarrow> machine \<Rightarrow> machine" where
  "upd_queue f Defer_busy m = m\<lparr> m_defer_busy := f (m_defer_busy m) \<rparr>"
| "upd_queue f Defer_page m = m\<lparr> m_defer_page := f (m_defer_page m) \<rparr>"

definition queue_to_deferred ::
  "map_env \<Rightarrow> defer_queue \<Rightarrow> bio \<Rightarrow> defer_queue option \<Rightarrow> machine \<Rightarrow> machine" where
  "queue_to_deferred env q bio old_queue m =
     (let m = upd_queue (\<lambda>d. d\<lparr> dq_tstamp := e_ns env, dq_list := dq_list d @ [bio] \<rparr>) q m;
          m = atomic_inc Bc_total_deferred_requests m;
          m = atomic_inc_highest Bc_deferred_requests Bc_highest_deferred_requests m;
          m = upd_queue (\<lambda>d. let n = dq_curr_count d + 1
                in d\<lparr> dq_curr_count := n, dq_max_count := (if dq_max_count d < n then n else dq_max_count d) \<rparr>) q m
      in if Some q \<noteq> old_queue then m\<lparr> m_defer_work := True \<rparr> else m)"

definition dequeue_from_deferred :: "defer_queue \<Rightarrow> machine \<Rightarrow> (bio option \<times> machine) option" where
  "dequeue_from_deferred q m =
     (case dq_list (the_queue q m) of
        bio # rest \<Rightarrow>
          do {
            ASSERT (m_dbg m) (m_count m Bc_deferred_requests > 0);
            let m = upd_queue (\<lambda>d. d\<lparr> dq_list := rest, dq_curr_count := dq_curr_count d - 1 \<rparr>) q m;
            let m = atomic_dec Bc_deferred_requests m;
            ASSERT (m_dbg m) (dq_curr_count (the_queue q m) = 0 \<longrightarrow> rest = []);
            Some (Some bio, m)
          }
      | [] \<Rightarrow>
          do {
            ASSERT (m_dbg m) (dq_curr_count (the_queue q m) = 0);
            Some (None, m)
          })"

definition can_schedule_map_request :: "machine \<Rightarrow> bool" where
  "can_schedule_map_request m \<longleftrightarrow>
     bc_invalid_entries (m_bc m) > 0 \<and>
     (of_int (m_count m Bc_pending_requests) :: u32) < bc_max_pending_requests (m_bc m)"

definition deferred_has_work :: "defer_queue \<Rightarrow> machine \<Rightarrow> bool" where
  "deferred_has_work q m \<longleftrightarrow> dq_curr_count (the_queue q m) \<noteq> 0 \<and> can_schedule_map_request m"

section \<open>Mapping a request\<close>

text \<open>
  The result of mapping: the C return value, the state, and the item that was started, if any.  A
  bypass item is not run by the state machine; it ends with \<open>cached_dev_bypass_endio\<close>.
\<close>

type_synonym map_result = "(int \<times> machine \<times> (work_item \<times> sm_next) option) option"

definition started :: "sm_result \<Rightarrow> map_result" where
  "started r = do { (m, wi, n) \<leftarrow> r; Some (1, m, Some (wi, n)) }"

text \<open>The statistics of a read are also counted in \<open>bc_seq_write\<close>.\<close>

definition cache_update_pending :: "bio \<Rightarrow> bool \<Rightarrow> machine \<Rightarrow> machine" where
  "cache_update_pending bio is_sequential m =
     (let m = atomic_inc_highest Bc_pending_requests Bc_highest_pending_requests m;
          m = atomic_inc (if bi_dir bio = WRITE then Bc_pending_write_requests else Bc_pending_read_requests) m;
          bsi = m_seq_write m
      in m\<lparr> m_seq_write := (if is_sequential then bsi\<lparr> seq_io_count := seq_io_count bsi + 1 \<rparr>
              else bsi\<lparr> non_seq_io_count := non_seq_io_count bsi + 1 \<rparr>) \<rparr>)"

definition entries_asserts :: "machine \<Rightarrow> unit option" where
  "entries_asserts m =
     do {
       M_ASSERT (bc_valid_entries_clean (m_bc m) \<ge> 0);
       M_ASSERT (bc_valid_entries_dirty (m_bc m) \<le> int (bc_total_entries (m_bc m)));
       M_ASSERT (bc_valid_entries_clean (m_bc m) \<le> int (bc_total_entries (m_bc m)));
       M_ASSERT (bc_valid_entries (m_bc m) \<le> int (bc_total_entries (m_bc m)));
       M_ASSERT (bc_invalid_entries (m_bc m) \<le> int (bc_total_entries (m_bc m)))
     }"

text \<open>Allocation of the item of a request and of its page; both must succeed.\<close>

definition request_item ::
  "map_env \<Rightarrow> nat \<Rightarrow> bio \<Rightarrow> bool \<Rightarrow> machine \<Rightarrow> (work_item \<times> machine) option" where
  "request_item env b bio do_writeback m =
     do {
       (wi, m) \<leftarrow> work_item_allocate (Some b) (Some bio) (WI_FLAG_BIO_CLONED OR WI_FLAG_XID_NEW) m;
       ASSERT_WORK_ITEM wi m;
       ASSERT (m_dbg m) (wi_io_xid wi \<noteq> 0);
       let wi = wi\<lparr> wi_cache_mode_writeback := of_bool do_writeback \<rparr>;
       (ret, ctx) \<leftarrow> pmem_context_setup (m_bc m) (e_page env) (wi_pmem_ctx wi);
       M_ASSERT (ret = 0);
       Some (wi\<lparr> wi_pmem_ctx := ctx \<rparr>, m)
     }"

definition cache_map_workfunc_hit ::
  "map_env \<Rightarrow> nat \<Rightarrow> bio \<Rightarrow> bool \<Rightarrow> defer_queue option \<Rightarrow> machine \<Rightarrow> map_result" where
  "cache_map_workfunc_hit env b bio do_writeback old_queue m =
     do {
       let dbg = m_dbg m;
       entries_asserts m;
       ASSERT_BITTERN_CACHE (m_bc m);
       ASSERT_CACHE_BLOCK b (m_bc m);
       ((r, clone), bc) \<leftarrow> (if bi_dir bio = WRITE
         then cache_get_clone (m_bc m) b do_writeback (e_now env)
         else Some ((CACHE_GET_RET_MISS_INVALID_IDLE, None), m_bc m));
       let m = m\<lparr> m_bc := bc \<rparr>;
       if bi_dir bio = WRITE \<and> r = CACHE_GET_RET_MISS then
         do {
           ASSERT dbg (clone = None);
           m \<leftarrow> put_update_age b (e_now env) m;
           let m = atomic_inc Bc_write_hits_busy m;
           Some (0, queue_to_deferred env Defer_page bio old_queue m, None)
         }
       else
         do {
           ASSERT dbg (r = CACHE_GET_RET_MISS_INVALID_IDLE);
           ASSERT dbg (bi_dir bio = WRITE \<longrightarrow> clone \<noteq> None);
           (wi, m) \<leftarrow> request_item env b bio do_writeback m;
           let m = cache_update_pending bio False m;
           let wi = work_item_add_pending_io wi;
           if bi_dir bio = READ then started (cache_handle_read_hit wi b bio m)
           else
             do {
               c \<leftarrow> clone;
               started (if do_writeback then cache_handle_write_hit_wb wi b bio c m
                        else cache_handle_write_hit_wt wi b bio c m)
             }
         }
     }"

definition cache_map_workfunc_resource_busy ::
  "map_env \<Rightarrow> bio \<Rightarrow> defer_queue option \<Rightarrow> machine \<Rightarrow> machine" where
  "cache_map_workfunc_resource_busy env bio old_queue m =
     queue_to_deferred env Defer_busy bio old_queue
       (atomic_inc (if bi_dir bio = WRITE then Bc_write_hits_busy else Bc_read_hits_busy) m)"

definition cache_map_workfunc_miss ::
  "map_env \<Rightarrow> nat \<Rightarrow> bio \<Rightarrow> bool \<Rightarrow> machine \<Rightarrow> map_result" where
  "cache_map_workfunc_miss env b bio do_writeback m =
     do {
       let dbg = m_dbg m;
       ASSERT_BITTERN_CACHE (m_bc m);
       ASSERT_CACHE_BLOCK b (m_bc m);
       entries_asserts m;
       (wi, m) \<leftarrow> request_item env b bio do_writeback m;
       ASSERT dbg (bcb_cache_transition (m_blk m b) = TS_NONE);
       (if is_work_item_mode_writeback wi \<and> bi_dir bio = WRITE
        then ASSERT dbg (bcb_state (m_blk m b) = S_DIRTY_NO_DATA)
        else ASSERT dbg (bcb_state (m_blk m b) = S_CLEAN_NO_DATA));
       let m = cache_update_pending bio False m;
       let wi = work_item_add_pending_io wi;
       started (if bi_dir bio = WRITE then
           (if is_work_item_mode_writeback wi then cache_handle_write_miss_wb wi bio b m
            else cache_handle_write_miss_wt wi bio b m)
         else cache_handle_read_miss wi bio b m)
     }"

definition cache_map_workfunc_no_resources ::
  "map_env \<Rightarrow> bio \<Rightarrow> defer_queue option \<Rightarrow> machine \<Rightarrow> machine" where
  "cache_map_workfunc_no_resources env bio old_queue m =
     queue_to_deferred env Defer_page bio old_queue
       (atomic_inc (if bi_dir bio = WRITE then Bc_write_misses_busy else Bc_read_misses_busy) m)"

text \<open>The request goes to the cached device as it is, as a clone of the original.\<close>

definition cache_map_workfunc_handle_bypass :: "bio \<Rightarrow> machine \<Rightarrow> map_result" where
  "cache_map_workfunc_handle_bypass bio m =
     do {
       ASSERT_BITTERN_CACHE (m_bc m);
       (wi, m) \<leftarrow> work_item_allocate None (Some bio) (WI_FLAG_BIO_CLONED OR WI_FLAG_XID_NEW) m;
       ASSERT_WORK_ITEM wi m;
       let wi = work_item_add_pending_io (wi\<lparr> wi_bypass := 1, wi_cloned_bio := Some bio \<rparr>);
       let m = cache_update_pending bio True m;
       let m = (if bi_dir bio = READ
         then atomic_inc Bc_pending_read_bypass_requests
           (m\<lparr> m_seq_read := (m_seq_read m)\<lparr> bypass_count := bypass_count (m_seq_read m) + 1 \<rparr> \<rparr>)
         else atomic_inc Bc_pending_write_bypass_requests
           (m\<lparr> m_seq_write := (m_seq_write m)\<lparr> bypass_count := bypass_count (m_seq_write m) + 1 \<rparr> \<rparr>));
       Some (1, m, Some (wi, Device_queued))
     }"

definition seq_bypass_is_sequential :: "map_env \<Rightarrow> bio \<Rightarrow> machine \<Rightarrow> (bool \<times> machine) option" where
  "seq_bypass_is_sequential env bio m =
     do {
       ASSERT_BITTERN_CACHE (m_bc m);
       if bi_dir bio = READ then
         (let (r, bsi) = seq_bypass_check (e_pid env) (e_ms env) bio (m_seq_read m)
          in Some (r, m\<lparr> m_seq_read := bsi \<rparr>))
       else
         (let (r, bsi) = seq_bypass_check (e_pid env) (e_ms env) bio (m_seq_write m)
          in Some (r, m\<lparr> m_seq_write := bsi \<rparr>))
     }"

definition map_get_flags :: "bool \<Rightarrow> bool \<Rightarrow> bio \<Rightarrow> int" where
  "map_get_flags do_bypass do_writeback bio =
     (if do_bypass then CACHE_FL_HIT
      else if do_writeback \<and> bi_dir bio = WRITE
      then CACHE_FL_HIT OR CACHE_FL_MISS OR CACHE_FL_DIRTY
      else CACHE_FL_HIT OR CACHE_FL_MISS OR CACHE_FL_CLEAN)"

definition cache_map_workfunc :: "map_env \<Rightarrow> bio \<Rightarrow> defer_queue option \<Rightarrow> machine \<Rightarrow> map_result" where
  "cache_map_workfunc env bio old_queue m =
     do {
       let dbg = m_dbg m;
       ASSERT_BITTERN_CACHE (m_bc m);
       if bio_is_pureflush_request bio then Some (1, bio_endio bio 0 m, None)
       else if bio_is_discard_request bio then Some (1, bio_endio bio 0 (wakeup_deferred m), None)
       else
         do {
           M_ASSERT (bio_is_data_request bio);
           M_ASSERT (bio_is_request_single_cache_block bio);
           (do_bypass, m) \<leftarrow> seq_bypass_is_sequential env bio m;
           let do_writeback = is_cache_mode_writeback (m_bc m);
           ((ret, ob), bc) \<leftarrow> cache_get (m_bc m) (bi_sector bio)
             (map_get_flags do_bypass do_writeback bio) (e_now env);
           let m = m\<lparr> m_bc := bc \<rparr>;
           (case ret of
              CACHE_GET_RET_HIT_IDLE \<Rightarrow>
                do {
                  b \<leftarrow> ob;
                  ASSERT_CACHE_BLOCK b (m_bc m);
                  ASSERT dbg (bcb_state (m_blk m b) = S_CLEAN \<or> bcb_state (m_blk m b) = S_DIRTY);
                  ASSERT dbg (bcb_cache_transition (m_blk m b) = TS_NONE);
                  cache_map_workfunc_hit env b bio do_writeback old_queue m
                }
            | CACHE_GET_RET_HIT_BUSY \<Rightarrow>
                do {
                  ASSERT dbg (ob = None);
                  Some (0, cache_map_workfunc_resource_busy env bio old_queue m, None)
                }
            | CACHE_GET_RET_MISS_INVALID_IDLE \<Rightarrow>
                do {
                  b \<leftarrow> ob;
                  ASSERT_CACHE_BLOCK b (m_bc m);
                  cache_map_workfunc_miss env b bio do_writeback m
                }
            | CACHE_GET_RET_MISS \<Rightarrow>
                do {
                  ASSERT dbg (ob = None);
                  if do_bypass then cache_map_workfunc_handle_bypass bio m
                  else Some (0, cache_map_workfunc_no_resources env bio old_queue m, None)
                }
            | CACHE_GET_RET_INVALID \<Rightarrow> None)
         }
     }"

text \<open>The entry point of the device mapper; it always reports that the request was submitted.\<close>

definition bittern_cache_map :: "map_env \<Rightarrow> bio \<Rightarrow> machine \<Rightarrow> map_result" where
  "bittern_cache_map env bio m =
     do {
       ASSERT_BITTERN_CACHE (m_bc m);
       if bc_error_state (m_bc m) \<noteq> ES_NOERROR then Some (0, bio_endio bio (- EIO) m, None)
       else
         do {
           m \<leftarrow> (if bio_is_discard_request bio then Some (atomic_inc Bc_discard_requests m)
             else if bio_is_pureflush_request bio
             then Some (atomic_inc Bc_pure_flush_requests (atomic_inc Bc_flush_requests m))
             else do {
               ASSERT (m_dbg m) (bio_is_data_request bio);
               let m = (if bi_flush bio then atomic_inc Bc_flush_requests m else m);
               Some (atomic_inc (if bi_dir bio = WRITE then Bc_write_requests else Bc_read_requests) m)
             });
           if \<not> can_schedule_map_request m \<or> m_count m Bc_deferred_requests > 0
           then Some (0, queue_to_deferred env Defer_page bio None m, None)
           else cache_map_workfunc env bio None m
         }
     }"

text \<open>
  One round of \<open>handle_deferred\<close>, with the result of \<open>__handle_deferred\<close>: the loop goes on while it is
  1 and the queue has work.
\<close>

definition handle_deferred_one :: "map_env \<Rightarrow> defer_queue \<Rightarrow> machine \<Rightarrow> map_result" where
  "handle_deferred_one env q m =
     do {
       (obio, m) \<leftarrow> dequeue_from_deferred q m;
       (case obio of
          None \<Rightarrow> Some (0, upd_queue (\<lambda>d. d\<lparr> dq_no_work_count := dq_no_work_count d + 1 \<rparr>) q m, None)
        | Some bio \<Rightarrow>
            do {
              (ret, m, item) \<leftarrow> cache_map_workfunc env bio (Some q) m;
              if ret = 0
              then Some (0, upd_queue (\<lambda>d. d\<lparr> dq_requeue_count := dq_requeue_count d + 1 \<rparr>) q m, item)
              else Some (1, upd_queue (\<lambda>d. d\<lparr> dq_work_count := dq_work_count d + 1 \<rparr>) q m, item)
            })
     }"

section \<open>The end of a bypass\<close>

text \<open>The cached device transfers the whole request between its memory and the sectors.\<close>

fun fill_vecs :: "u8 list \<Rightarrow> bio_vec list \<Rightarrow> bio_vec list" where
  "fill_vecs bytes [] = []"
| "fill_vecs bytes (bvec # bvecs) =
     (case bv_page bvec of
        Own mem \<Rightarrow> bvec\<lparr> bv_page := Own (overwrite (unat (bv_offset bvec)) (take (unat (bv_len bvec)) bytes) mem) \<rparr>
      | Wi_page _ \<Rightarrow> bvec) # fill_vecs (drop (unat (bv_len bvec)) bytes) bvecs"

definition bypass_transfer :: "bio \<Rightarrow> machine \<Rightarrow> bio \<times> machine" where
  "bypass_transfer bio m =
     (let off = unat (bi_sector bio) * SECTOR_SIZE
      in if bi_dir bio = READ
         then (bio\<lparr> bi_io_vec := fill_vecs (dev_read (m_cdev m) off (unat (bi_size bio))) (bi_io_vec bio) \<rparr>, m)
         else (bio, m\<lparr> m_cdev := dev_write (m_cdev m) off (bio_bytes bio) \<rparr>))"

definition cached_dev_bypass_endio :: "int \<Rightarrow> work_item \<Rightarrow> machine \<Rightarrow> machine option" where
  "cached_dev_bypass_endio err wi m =
     do {
       let dbg = m_dbg m;
       M_ASSERT (err = 0);
       original_bio \<leftarrow> wi_original_bio wi;
       ASSERT dbg (wi_cache_block wi = None);
       ASSERT_WORK_ITEM wi m;
       ASSERT_BITTERN_CACHE (m_bc m);
       let wi = wi\<lparr> wi_cloned_bio := None \<rparr>;
       ASSERT dbg (wi_bypass wi = 1);
       ASSERT dbg (wi_flags wi AND WI_FLAG_BIO_CLONED \<noteq> 0);
       let m = atomic_dec Bc_pending_requests m;
       let m = (if bi_dir original_bio = WRITE
         then atomic_inc Bc_completed_write_requests (atomic_dec Bc_pending_write_requests
           (atomic_dec Bc_pending_write_bypass_requests m))
         else atomic_inc Bc_completed_read_requests (atomic_dec Bc_pending_read_requests
           (atomic_dec Bc_pending_read_bypass_requests m)));
       let m = wakeup_deferred (atomic_inc Bc_completed_requests m);
       work_item_free wi m;
       Some (bio_endio original_bio 0 m)
     }"

definition bypass_complete :: "int \<Rightarrow> work_item \<Rightarrow> machine \<Rightarrow> machine option" where
  "bypass_complete err wi m =
     do {
       bio \<leftarrow> wi_original_bio wi;
       let (bio, m) = (if err = 0 then bypass_transfer bio m else (bio, m));
       cached_dev_bypass_endio err (wi\<lparr> wi_original_bio := Some bio \<rparr>) m
     }"

section \<open>Invalidation and write back by the threads\<close>

definition thread_item :: "map_env \<Rightarrow> nat \<Rightarrow> machine \<Rightarrow> (work_item \<times> machine) option" where
  "thread_item env b m =
     do {
       let dbg = m_dbg m;
       (wi, m) \<leftarrow> work_item_allocate (Some b) None
         (WI_FLAG_BIO_NOT_CLONED OR WI_FLAG_XID_USE_CACHE_BLOCK) m;
       ASSERT_WORK_ITEM wi m;
       ASSERT dbg (wi_io_xid wi \<noteq> 0);
       ASSERT dbg (wi_io_xid wi = bcb_xid (m_blk m b));
       (ret, ctx) \<leftarrow> pmem_context_setup (m_bc m) (e_page env) (wi_pmem_ctx wi);
       M_ASSERT (ret = 0);
       Some (wi\<lparr> wi_pmem_ctx := ctx \<rparr>, m)
     }"

definition cache_invalidate_block_io_start :: "map_env \<Rightarrow> nat \<Rightarrow> machine \<Rightarrow> sm_result" where
  "cache_invalidate_block_io_start env b m =
     do {
       let dbg = m_dbg m;
       ASSERT_BITTERN_CACHE (m_bc m);
       ASSERT_CACHE_BLOCK b (m_bc m);
       ASSERT dbg (bcb_state (m_blk m b) = S_CLEAN \<or> bcb_state (m_blk m b) = S_DIRTY);
       ASSERT dbg (bcb_cache_transition (m_blk m b) = TS_NONE);
       ASSERT dbg (is_sector_number_valid (bcb_sector (m_blk m b)));
       m \<leftarrow> (if bcb_state (m_blk m b) = S_CLEAN
         then transition_initial b TS_CLEAN_INVALIDATION_WTWB S_CLEAN_INVALIDATE_START m
         else transition_initial b TS_DIRTY_INVALIDATION_WB S_DIRTY_INVALIDATE_START m);
       (wi, m) \<leftarrow> thread_item env b m;
       let m = atomic_inc_highest Bc_pending_invalidate_requests Bc_highest_pending_invalidate_requests m;
       Some (m, work_item_add_pending_io wi, Callback 0)
     }"

definition cache_invalidator_has_work :: "machine \<Rightarrow> bool" where
  "cache_invalidator_has_work m \<longleftrightarrow>
     (let min_count = bc_invalidator_conf_min_invalid_count (m_bc m) + bc_max_pending_requests (m_bc m)
      in bc_valid_entries_clean (m_bc m) \<noteq> 0 \<and> (of_int (bc_invalid_entries (m_bc m)) :: u32) < min_count)"

definition cache_invalidator_has_work_schmitt :: "machine \<Rightarrow> bool" where
  "cache_invalidator_has_work_schmitt m \<longleftrightarrow>
     (let min_count_s = bc_invalidator_conf_min_invalid_count (m_bc m) + bc_max_pending_requests (m_bc m)
      in bc_valid_entries_clean (m_bc m) \<noteq> 0 \<and>
         (of_int (bc_invalid_entries (m_bc m)) :: u32) < min_count_s + min_count_s div 4)"

text \<open>One round of the loop of \<open>cache_invalidate_clean_blocks\<close>; the loop ends with \<^term>\<open>None\<close>.\<close>

definition cache_invalidate_clean_blocks_one ::
  "map_env \<Rightarrow> machine \<Rightarrow> (machine \<times> (work_item \<times> sm_next) option) option" where
  "cache_invalidate_clean_blocks_one env m =
     (if \<not> cache_invalidator_has_work_schmitt m then Some (m, None)
      else
        do {
          ((ret, ob), bc) \<leftarrow> cache_get_clean (m_bc m) (e_random env);
          let m = m\<lparr> m_bc := bc \<rparr>;
          if ret = CACHE_GET_RET_HIT_IDLE then
            do {
              b \<leftarrow> ob;
              (m, wi, n) \<leftarrow> cache_invalidate_block_io_start env b m;
              Some (atomic_inc Bc_invalidations_invalidator m, Some (wi, n))
            }
          else Some (m, None)
        })"

text \<open>
  The second half of \<open>cache_bgwriter_io_start_one\<close>: the write back of a dirty block that the caller
  holds.
\<close>

definition cache_bgwriter_start_block :: "map_env \<Rightarrow> nat \<Rightarrow> machine \<Rightarrow> sm_result" where
  "cache_bgwriter_start_block env b m =
     do {
       let dbg = m_dbg m;
       ASSERT dbg (cache_block_is_held (m_bc m) b);
       let inv = cache_invalidator_has_work_schmitt m;
       ASSERT dbg (bcb_state (m_blk m b) = S_DIRTY);
       ASSERT dbg (bcb_refcount (m_blk m b) > 0);
       ASSERT dbg (is_sector_number_valid (bcb_sector (m_blk m b)));
       let m = m\<lparr> m_bc := list_del_entry_cleandirty b (m_bc m) \<rparr>;
       m \<leftarrow> (if inv
         then transition_initial b TS_WRITEBACK_INV_WB S_DIRTY_WRITEBACK_INV_CPF_CACHE_START
           (m\<lparr> m_bc := list_del_entry b (m_bc m) \<rparr>)
         else transition_initial b TS_WRITEBACK_WB S_DIRTY_WRITEBACK_CPF_CACHE_START m);
       (wi, m) \<leftarrow> thread_item env b m;
       let m = atomic_inc Bc_writebacks m;
       let m = atomic_inc Bc_pending_writeback_requests m;
       let m = atomic_inc Bc_pending_requests m;
       let m = (if inv
         then (let m = atomic_inc Bc_writebacks_invalid m;
                   m = m\<lparr> m_bc := upd_stats (\<lambda>st. st\<lparr> bc_invalidations := bc_invalidations st + 1 \<rparr>) (m_bc m) \<rparr>;
                   m = atomic_inc Bc_invalidations_writeback m
               in atomic_inc_highest Bc_pending_invalidate_requests Bc_highest_pending_invalidate_requests m)
         else atomic_inc Bc_writebacks_clean m);
       Some (m, work_item_add_pending_io wi, Callback 0)
     }"

text \<open>
  \<open>cache_bgwriter_io_start_one\<close>: with no hint the head of the dirty list, if it is old enough,
  otherwise the block of the sector of the hint.  The result is the return value and the next hint.
  The counters of the thread itself are left out.
\<close>

definition cache_bgwriter_io_start_one ::
  "map_env \<Rightarrow> int \<Rightarrow> sector_t \<Rightarrow> machine \<Rightarrow>
     ((int \<times> sector_t) \<times> machine \<times> (work_item \<times> sm_next) option) option" where
  "cache_bgwriter_io_start_one env min_age_secs sector_hint m =
     do {
       let dbg = m_dbg m;
       ASSERT_BITTERN_CACHE (m_bc m);
       ASSERT dbg (is_sector_number_valid sector_hint \<or> sector_hint = SECTOR_NUMBER_INVALID);
       (got, m) \<leftarrow> (if sector_hint = SECTOR_NUMBER_INVALID then
           do {
             ((ret, ob), bc) \<leftarrow> cache_get_dirty_from_head (m_bc m) min_age_secs (e_now env);
             let m = m\<lparr> m_bc := bc \<rparr>;
             if ret = - EAGAIN \<or> ret = - ETIME then Some (None, m)
             else if ret = - EBUSY then Some (None, atomic_inc Bc_writebacks_stalls m)
             else if ret = 0 then Some (ob, m)
             else None
           }
         else
           do {
             ((ret, ob), bc) \<leftarrow> cache_get (m_bc m) sector_hint CACHE_FL_HIT (e_now env);
             let m = m\<lparr> m_bc := bc \<rparr>;
             (case ret of
                CACHE_GET_RET_HIT_IDLE \<Rightarrow>
                  do {
                    b \<leftarrow> ob;
                    ASSERT_CACHE_BLOCK b (m_bc m);
                    if bcb_state (m_blk m b) = S_CLEAN then
                      do {
                        bc \<leftarrow> cache_put (m_bc m) b True;
                        Some (None, m\<lparr> m_bc := bc \<rparr>)
                      }
                    else Some (Some b, m)
                  }
              | CACHE_GET_RET_HIT_BUSY \<Rightarrow> Some (None, m)
              | CACHE_GET_RET_MISS \<Rightarrow> Some (None, m)
              | _ \<Rightarrow> None)
           });
       (case got of
          None \<Rightarrow> Some ((0, SECTOR_NUMBER_INVALID), m, None)
        | Some b \<Rightarrow>
            do {
              (m, wi, n) \<leftarrow> cache_bgwriter_start_block env b m;
              Some ((1, bcb_sector (m_blk m b) + SECTORS_PER_CACHE_BLOCK), m, Some (wi, n))
            })
     }"

end
