(* ===== verification/Spec2Isabelle.thy ===== *)
theory Spec2Isabelle
  imports Cache_Restore_Workers Cache_Map
begin

text \<open>
  Bittern cache.
\<close>

end
